(* ===== verification/Rust_Prelude.thy ===== *)
theory Rust_Prelude
  imports Main "HOL-Library.Word" "HOL-Library.Code_Target_Numeral"
begin

text \<open>
  What every theory of the development shares: the Rust types the agent is written with and the
  operations of the Rust standard library it calls on them.

  \<^item> A \<^verbatim>\<open>String\<close> or \<^verbatim>\<open>&str\<close> is its list of UTF-8 bytes, a HOL \<open>string\<close>; \<open>len()\<close> is
    \<open>length\<close>. A Rust \<^verbatim>\<open>char\<close> of such a string is the block of bytes that encodes it
    (\<open>utf8_chunks\<close>), so the operations that look at characters (\<open>trim\<close>, \<open>chars\<close>) are defined on
    the same bytes.
  \<^item> \<^verbatim>\<open>Result<T, E>\<close> is the sum \<open>'e + 'a\<close> (\<open>Inl\<close> the error), with \<open>res_bind\<close> for the \<^verbatim>\<open>?\<close>
    operator; a computation that may panic returns \<open>'a rust\<close>.
  \<^item> \<^verbatim>\<open>u16\<close>, \<^verbatim>\<open>u32\<close>, \<^verbatim>\<open>u64\<close> are \<open>word\<close>s; \<^verbatim>\<open>usize\<close> lengths and counters of collections are \<open>nat\<close>.
  \<^item> A \<^verbatim>\<open>Duration\<close> is its number of nanoseconds, bounded by \<open>duration_max\<close>.

  The lemmas here are about these operations only; they are declared \<open>[simp]\<close> or collected in the
  named collections below, so that the component proofs pick them up.
\<close>

named_theorems rust_str \<open>facts on the string operations of the Rust standard library\<close>
named_theorems rust_res \<open>facts on Result and panics\<close>

subsection \<open>Results and panics\<close>

datatype 'a rust = Panic | Ret 'a

primrec rust_bind :: "'a rust \<Rightarrow> ('a \<Rightarrow> 'b rust) \<Rightarrow> 'b rust" where
  "rust_bind Panic f = Panic"
| "rust_bind (Ret x) f = f x"

primrec res_bind :: "'e + 'a \<Rightarrow> ('a \<Rightarrow> 'e + 'b) \<Rightarrow> 'e + 'b" where
  "res_bind (Inl e) f = Inl e"
| "res_bind (Inr x) f = f x"

definition ok_or :: "'a option \<Rightarrow> 'e \<Rightarrow> 'e + 'a" where
  "ok_or x e = (case x of None \<Rightarrow> Inl e | Some v \<Rightarrow> Inr v)"

primrec res_ok :: "'e + 'a \<Rightarrow> 'a option" where
  "res_ok (Inl e) = None"
| "res_ok (Inr x) = Some x"

primrec is_err :: "'e + 'a \<Rightarrow> bool" where
  "is_err (Inl e) = True"
| "is_err (Inr x) = False"

lemma rust_bind_Ret [rust_res]:
  "rust_bind m f = Ret y \<longleftrightarrow> (\<exists>x. m = Ret x \<and> f x = Ret y)"
  by (cases m) auto

lemma rust_bind_not_Panic [rust_res]:
  "rust_bind m f \<noteq> Panic \<longleftrightarrow> (\<exists>x. m = Ret x \<and> f x \<noteq> Panic)"
  by (cases m) auto

lemma res_bind_Inr [rust_res]:
  "res_bind m f = Inr y \<longleftrightarrow> (\<exists>x. m = Inr x \<and> f x = Inr y)"
  by (cases m) auto

lemma res_bind_Inl [rust_res]:
  "res_bind m f = Inl e \<longleftrightarrow> (m = Inl e \<or> (\<exists>x. m = Inr x \<and> f x = Inl e))"
  by (cases m) auto

lemma ok_or_Inr [rust_res]: "ok_or x e = Inr y \<longleftrightarrow> x = Some y"
  by (auto simp: ok_or_def split: option.splits)

lemma ok_or_Inl [rust_res]: "ok_or x e = Inl e' \<longleftrightarrow> x = None \<and> e' = e"
  by (auto simp: ok_or_def split: option.splits)

lemma ok_or_simps [simp]: "ok_or None e = Inl e" "ok_or (Some v) e = Inr v"
  by (simp_all add: ok_or_def)

subsection \<open>Machine integers and durations\<close>

type_synonym u16 = "16 word"
type_synonym u32 = "32 word"
type_synonym u64 = "64 word"
type_synonym uuid = "128 word"
type_synonym timestamp = int
type_synonym duration = nat

definition u32_max :: nat where "u32_max = 2 ^ 32 - 1"
definition u64_max :: nat where "u64_max = 2 ^ 64 - 1"

text \<open>\<^verbatim>\<open>u64::checked_mul\<close>: \<open>None\<close> on overflow.\<close>

definition checked_mul :: "u64 \<Rightarrow> u64 \<Rightarrow> u64 option" where
  "checked_mul a b = (if unat a * unat b \<le> u64_max then Some (a * b) else None)"

lemma checked_mul_Some:
  "checked_mul a b = Some c \<Longrightarrow> unat c = unat a * unat b"
  by (auto simp: checked_mul_def u64_max_def unat_word_ariths split: if_splits)

text \<open>\<^verbatim>\<open>Duration::from_secs\<close>, \<^verbatim>\<open>from_millis\<close>, \<^verbatim>\<open>as_secs\<close>, \<^verbatim>\<open>as_millis\<close>, \<^verbatim>\<open>saturating_mul\<close>.\<close>

definition duration_max :: duration where
  "duration_max = u64_max * 10 ^ 9 + 999999999"

definition from_secs :: "u64 \<Rightarrow> duration" where
  "from_secs s = unat s * 10 ^ 9"

definition from_millis :: "u64 \<Rightarrow> duration" where
  "from_millis m = unat m * 10 ^ 6"

definition as_secs :: "duration \<Rightarrow> u64" where
  "as_secs d = of_nat (d div 10 ^ 9)"

definition as_millis :: "duration \<Rightarrow> nat" where
  "as_millis d = d div 10 ^ 6"

definition duration_saturating_mul :: "duration \<Rightarrow> nat \<Rightarrow> duration" where
  "duration_saturating_mul d n = min (d * n) duration_max"

lemma as_secs_from_secs [simp]: "as_secs (from_secs s) = s"
  by (simp add: as_secs_def from_secs_def)

lemma from_secs_le_iff [simp]: "from_secs a \<le> from_secs b \<longleftrightarrow> a \<le> b"
  by (simp add: from_secs_def word_le_nat_alt)

lemma from_secs_eq_0 [simp]: "from_secs s = 0 \<longleftrightarrow> s = 0"
  by (simp add: from_secs_def unat_eq_zero)

subsection \<open>ASCII classes of bytes\<close>

abbreviation byte :: "char \<Rightarrow> nat" where "byte c \<equiv> of_char c"

definition is_ascii_digit :: "char \<Rightarrow> bool" where
  "is_ascii_digit c \<longleftrightarrow> 48 \<le> byte c \<and> byte c \<le> 57"

definition is_ascii_uppercase :: "char \<Rightarrow> bool" where
  "is_ascii_uppercase c \<longleftrightarrow> 65 \<le> byte c \<and> byte c \<le> 90"

definition is_ascii_lowercase :: "char \<Rightarrow> bool" where
  "is_ascii_lowercase c \<longleftrightarrow> 97 \<le> byte c \<and> byte c \<le> 122"

definition is_ascii_alphanumeric :: "char \<Rightarrow> bool" where
  "is_ascii_alphanumeric c \<longleftrightarrow> is_ascii_digit c \<or> is_ascii_uppercase c \<or> is_ascii_lowercase c"

definition is_ascii_hexdigit :: "char \<Rightarrow> bool" where
  "is_ascii_hexdigit c \<longleftrightarrow> is_ascii_digit c \<or> (65 \<le> byte c \<and> byte c \<le> 70) \<or> (97 \<le> byte c \<and> byte c \<le> 102)"

text \<open>\<^verbatim>\<open>u8::is_ascii_whitespace\<close>: space, tab, line feed, form feed, carriage return.\<close>

definition is_ascii_whitespace :: "char \<Rightarrow> bool" where
  "is_ascii_whitespace c \<longleftrightarrow> byte c \<in> {32, 9, 10, 12, 13}"

definition is_ascii :: "char \<Rightarrow> bool" where
  "is_ascii c \<longleftrightarrow> byte c < 128"

definition lower :: "char \<Rightarrow> char" where
  "lower c = (if is_ascii_uppercase c then char_of (byte c + 32) else c)"

definition to_ascii_lowercase :: "string \<Rightarrow> string" where
  "to_ascii_lowercase s = map lower s"

definition eq_ignore_ascii_case :: "string \<Rightarrow> string \<Rightarrow> bool" where
  "eq_ignore_ascii_case s t \<longleftrightarrow> map lower s = map lower t"

lemma length_to_ascii_lowercase [simp]: "length (to_ascii_lowercase s) = length s"
  by (simp add: to_ascii_lowercase_def)

lemma eq_ignore_ascii_case_length: "eq_ignore_ascii_case s t \<Longrightarrow> length s = length t"
  by (metis eq_ignore_ascii_case_def length_map)

lemma eq_ignore_ascii_case_refl [simp]: "eq_ignore_ascii_case s s"
  by (simp add: eq_ignore_ascii_case_def)

lemma lower_not_letter: "lower b = c \<Longrightarrow> \<not> is_ascii_lowercase c \<Longrightarrow> b = c"
  by (auto simp: lower_def is_ascii_uppercase_def is_ascii_lowercase_def split: if_splits)

lemma lower_lower [simp]: "lower (lower b) = lower b"
  by (auto simp: lower_def is_ascii_uppercase_def)

subsection \<open>UTF-8\<close>

text \<open>A continuation byte of UTF-8 is \<open>10xxxxxx\<close>.\<close>

definition is_cont :: "char \<Rightarrow> bool" where
  "is_cont c \<longleftrightarrow> 128 \<le> byte c \<and> byte c < 192"

definition is_char_boundary :: "string \<Rightarrow> nat \<Rightarrow> bool" where
  "is_char_boundary s i \<longleftrightarrow> i = 0 \<or> i = length s \<or> (i < length s \<and> \<not> is_cont (s ! i))"

text \<open>The loop that steps an index back to a character boundary.\<close>

fun floor_boundary :: "string \<Rightarrow> nat \<Rightarrow> nat" where
  "floor_boundary s 0 = 0"
| "floor_boundary s (Suc i) = (if is_char_boundary s (Suc i) then Suc i else floor_boundary s i)"

lemma floor_boundary_le: "floor_boundary s i \<le> i"
  by (induction i) auto

text \<open>What \<^verbatim>\<open>floor_boundary\<close> finds is a character boundary and no later one is within the limit.\<close>

lemma floor_boundary_max:
  "is_char_boundary s (floor_boundary s i) \<and> (\<forall>j. floor_boundary s i < j \<and> j \<le> i \<longrightarrow> \<not> is_char_boundary s j)"
  by (induction i) (auto simp: is_char_boundary_def [of s 0] le_Suc_eq)

text \<open>The characters of a string, each as the block of bytes that encodes it.\<close>

function utf8_chunks :: "string \<Rightarrow> string list" where
  "utf8_chunks [] = []"
| "utf8_chunks (b # bs) = (b # takeWhile is_cont bs) # utf8_chunks (dropWhile is_cont bs)"
  by pat_completeness auto
termination
  by (relation "measure length") (auto simp: length_dropWhile_le less_Suc_eq_le)

lemma concat_utf8_chunks [simp]: "concat (utf8_chunks s) = s"
  by (induction s rule: utf8_chunks.induct) auto

lemma utf8_chunks_nonempty: "c \<in> set (utf8_chunks s) \<Longrightarrow> c \<noteq> []"
  by (induction s rule: utf8_chunks.induct) auto

lemma utf8_chunks_subset: "c \<in> set (utf8_chunks s) \<Longrightarrow> set c \<subseteq> set s"
  by (metis UN_upper concat_utf8_chunks set_concat)

text \<open>The well-formed byte sequences (the table of RFC 3629).\<close>

fun utf8_valid :: "string \<Rightarrow> bool" where
  "utf8_valid [] = True"
| "utf8_valid (a # s) =
     (if byte a < 128 then utf8_valid s
      else if 194 \<le> byte a \<and> byte a < 224 then
        (case s of b # s' \<Rightarrow> is_cont b \<and> utf8_valid s' | _ \<Rightarrow> False)
      else if 224 \<le> byte a \<and> byte a < 240 then
        (case s of b # c # s' \<Rightarrow>
           is_cont b \<and> is_cont c \<and> (byte a = 224 \<longrightarrow> 160 \<le> byte b) \<and> (byte a = 237 \<longrightarrow> byte b < 160)
           \<and> utf8_valid s' | _ \<Rightarrow> False)
      else if 240 \<le> byte a \<and> byte a < 245 then
        (case s of b # c # d # s' \<Rightarrow>
           is_cont b \<and> is_cont c \<and> is_cont d
           \<and> (byte a = 240 \<longrightarrow> 144 \<le> byte b) \<and> (byte a = 244 \<longrightarrow> byte b < 144) \<and> utf8_valid s'
         | _ \<Rightarrow> False)
      else False)"

text \<open>What the byte-level code relies on: a continuation byte never starts a string and never
  follows an ASCII byte.\<close>

fun guarded_from :: "bool \<Rightarrow> string \<Rightarrow> bool" where
  "guarded_from ok [] = True"
| "guarded_from ok (b # bs) = ((is_cont b \<longrightarrow> ok) \<and> guarded_from (128 \<le> byte b) bs)"

definition guarded :: "string \<Rightarrow> bool" where
  "guarded s = guarded_from False s"

lemma guarded_from_mono: "guarded_from False s \<Longrightarrow> guarded_from ok s"
  by (cases s) auto

lemma is_cont_not_ascii: "is_cont b \<Longrightarrow> 128 \<le> byte b"
  by (simp add: is_cont_def)

lemma utf8_valid_guarded: "utf8_valid s \<Longrightarrow> guarded s"
  unfolding guarded_def
proof (induction s rule: utf8_valid.induct)
  case (2 a s)
  show ?case
  proof (cases "byte a < 128")
    case True
    with 2 show ?thesis by (auto simp: is_cont_def)
  next
    case False
    with "2.prems" show ?thesis
      using "2.IH"(2) "2.IH"(3) "2.IH"(4)
      by (auto simp: is_cont_def split: if_splits list.splits intro: guarded_from_mono)
  qed
qed simp

lemma guarded_from_append:
  "guarded_from ok (xs @ ys) \<longleftrightarrow>
     guarded_from ok xs \<and> guarded_from (if xs = [] then ok else 128 \<le> byte (last xs)) ys"
  by (induction xs arbitrary: ok) auto

lemma guarded_append:
  "guarded (xs @ ys) \<longleftrightarrow>
     guarded xs \<and> guarded_from (if xs = [] then False else 128 \<le> byte (last xs)) ys"
  by (simp add: guarded_def guarded_from_append)

lemma guarded_drop_hd:
  assumes "guarded s" "i < length s" "i = 0 \<or> byte (s ! (i - 1)) < 128"
  shows "\<not> is_cont (s ! i)"
proof -
  have s: "s = take i s @ s ! i # drop (Suc i) s"
    using assms(2) by (rule id_take_nth_drop)
  have "guarded (take i s @ s ! i # drop (Suc i) s)"
    using assms(1) s by simp
  then have "is_cont (s ! i) \<longrightarrow> (if take i s = [] then False else 128 \<le> byte (last (take i s)))"
    by (auto simp: guarded_append split: if_splits)
  moreover have "take i s \<noteq> [] \<Longrightarrow> last (take i s) = s ! (i - 1)"
    using assms(2) by (simp add: last_conv_nth min_def)
  ultimately show ?thesis
    using assms(2,3) by (auto split: if_splits)
qed

subsection \<open>Searching and splitting strings\<close>

definition starts_with :: "string \<Rightarrow> string \<Rightarrow> bool" where
  "starts_with s p \<longleftrightarrow> take (length p) s = p"

definition ends_with :: "string \<Rightarrow> string \<Rightarrow> bool" where
  "ends_with s p \<longleftrightarrow> length p \<le> length s \<and> drop (length s - length p) s = p"

fun contains :: "string \<Rightarrow> string \<Rightarrow> bool" where
  "contains [] p = (p = [])"
| "contains (b # bs) p = (starts_with (b # bs) p \<or> contains bs p)"

definition strip_prefix :: "string \<Rightarrow> string \<Rightarrow> string option" where
  "strip_prefix s p = (if starts_with s p then Some (drop (length p) s) else None)"

definition strip_suffix :: "string \<Rightarrow> string \<Rightarrow> string option" where
  "strip_suffix s p = (if ends_with s p then Some (take (length s - length p) s) else None)"

text \<open>\<^verbatim>\<open>Iterator::position\<close>.\<close>

fun position :: "('a \<Rightarrow> bool) \<Rightarrow> 'a list \<Rightarrow> nat option" where
  "position P [] = None"
| "position P (x # xs) = (if P x then Some 0 else map_option Suc (position P xs))"

text \<open>\<^verbatim>\<open>str::split(c)\<close> for one ASCII character: always at least one piece.\<close>

fun split_on :: "char \<Rightarrow> string \<Rightarrow> string list" where
  "split_on c [] = [[]]"
| "split_on c (b # bs) =
     (if b = c then [] # split_on c bs
      else (case split_on c bs of [] \<Rightarrow> [[b]] | p # ps \<Rightarrow> (b # p) # ps))"

text \<open>\<^verbatim>\<open>str::lines\<close>: split at line feeds, no line after a final line feed, and one carriage
  return dropped from the end of each line that a line feed ended.\<close>

definition strip_cr :: "string \<Rightarrow> string" where
  "strip_cr l = (if l \<noteq> [] \<and> last l = CHR 0x0D then butlast l else l)"

definition lines :: "string \<Rightarrow> string list" where
  "lines s =
     (let ps = split_on CHR 0x0A s; rest = last ps
      in map strip_cr (butlast ps) @ (if rest = [] then [] else [rest]))"

text \<open>\<^verbatim>\<open>char::is_whitespace\<close> (Unicode White_Space) on the encodings of characters.\<close>

definition is_whitespace :: "string \<Rightarrow> bool" where
  "is_whitespace ch \<longleftrightarrow>
     (case map byte ch of
        [a] \<Rightarrow> a = 32 \<or> (9 \<le> a \<and> a \<le> 13)
      | [a, b] \<Rightarrow> a = 194 \<and> (b = 133 \<or> b = 160)
      | [a, b, c] \<Rightarrow>
          (a = 225 \<and> b = 154 \<and> c = 128)
          \<or> (a = 226 \<and> b = 128 \<and> ((128 \<le> c \<and> c \<le> 138) \<or> c = 168 \<or> c = 169 \<or> c = 175))
          \<or> (a = 226 \<and> b = 129 \<and> c = 159)
          \<or> (a = 227 \<and> b = 128 \<and> c = 128)
      | _ \<Rightarrow> False)"

definition trim_start :: "string \<Rightarrow> string" where
  "trim_start s = concat (dropWhile is_whitespace (utf8_chunks s))"

definition trim_end :: "string \<Rightarrow> string" where
  "trim_end s = concat (rev (dropWhile is_whitespace (rev (utf8_chunks s))))"

definition trim :: "string \<Rightarrow> string" where
  "trim s = trim_end (trim_start s)"

definition trim_end_matches :: "char \<Rightarrow> string \<Rightarrow> string" where
  "trim_end_matches c s = rev (dropWhile (\<lambda>b. b = c) (rev s))"

definition trim_start_matches :: "char \<Rightarrow> string \<Rightarrow> string" where
  "trim_start_matches c s = dropWhile (\<lambda>b. b = c) s"

text \<open>\<^verbatim>\<open>str::split_whitespace\<close>: the maximal runs of characters that are not white space.\<close>

fun words_of :: "string list \<Rightarrow> string \<Rightarrow> string list" where
  "words_of [] w = (if w = [] then [] else [w])"
| "words_of (ch # cs) w =
     (if is_whitespace ch then (if w = [] then words_of cs [] else w # words_of cs [])
      else words_of cs (w @ ch))"

definition split_whitespace :: "string \<Rightarrow> string list" where
  "split_whitespace s = words_of (utf8_chunks s) []"

text \<open>\<^verbatim>\<open>slice::get\<close> and \<^verbatim>\<open>Iterator::nth\<close>.\<close>

definition nth_opt :: "'a list \<Rightarrow> nat \<Rightarrow> 'a option" where
  "nth_opt xs i = (if i < length xs then Some (xs ! i) else None)"

text \<open>\<^verbatim>\<open>slice::join\<close>.\<close>

fun join :: "string \<Rightarrow> string list \<Rightarrow> string" where
  "join sep [] = []"
| "join sep [x] = x"
| "join sep (x # y # ys) = x @ sep @ join sep (y # ys)"

subsection \<open>Decimal numbers\<close>

definition digit_char :: "nat \<Rightarrow> char" where
  "digit_char d = char_of (48 + d)"

text \<open>\<^verbatim>\<open>to_string\<close> of an unsigned integer.\<close>

fun dec :: "nat \<Rightarrow> string" where
  "dec n = (if n < 10 then [digit_char n] else dec (n div 10) @ [digit_char (n mod 10)])"

declare dec.simps [simp del]

definition digits_val :: "string \<Rightarrow> nat" where
  "digits_val s = foldl (\<lambda>n c. n * 10 + (byte c - 48)) 0 s"

text \<open>\<^verbatim>\<open>str::parse\<close> into an unsigned integer type with maximum \<open>m\<close>: an optional plus sign, then at
  least one digit and nothing else, and no overflow.\<close>

definition parse_uint :: "nat \<Rightarrow> string \<Rightarrow> nat option" where
  "parse_uint m s =
     (let d = (case s of c # cs \<Rightarrow> if c = CHR ''+'' then cs else s | [] \<Rightarrow> s)
      in if d \<noteq> [] \<and> list_all is_ascii_digit d \<and> digits_val d \<le> m
         then Some (digits_val d) else None)"

definition parse_u64 :: "string \<Rightarrow> u64 option" where
  "parse_u64 s = map_option of_nat (parse_uint u64_max s)"

definition parse_u32 :: "string \<Rightarrow> u32 option" where
  "parse_u32 s = map_option of_nat (parse_uint u32_max s)"

definition parse_u16 :: "string \<Rightarrow> u16 option" where
  "parse_u16 s = map_option of_nat (parse_uint 65535 s)"

abbreviation show_word :: "'a::len word \<Rightarrow> string" where
  "show_word w \<equiv> dec (unat w)"

lemma byte_digit_char [simp]: "d < 10 \<Longrightarrow> byte (digit_char d) = 48 + d"
  by (simp add: digit_char_def)

lemma is_ascii_digit_digit_char [simp]: "d < 10 \<Longrightarrow> is_ascii_digit (digit_char d)"
  by (simp add: is_ascii_digit_def)

lemma dec_nonempty [simp]: "dec n \<noteq> []"
  by (subst dec.simps) simp

lemma dec_digits: "list_all is_ascii_digit (dec n)"
proof (induction n rule: dec.induct)
  case (1 n)
  then show ?case by (subst dec.simps) auto
qed

lemma digits_val_snoc: "digits_val (s @ [c]) = digits_val s * 10 + (byte c - 48)"
  by (simp add: digits_val_def)

lemma digits_val_dec [simp]: "digits_val (dec n) = n"
proof (induction n rule: dec.induct)
  case (1 n)
  show ?case
  proof (cases "n < 10")
    case True
    then show ?thesis by (subst dec.simps) (simp add: digits_val_def)
  next
    case False
    with "1.IH" show ?thesis by (subst dec.simps) (simp add: digits_val_snoc)
  qed
qed

lemma plus_not_digit: "\<not> is_ascii_digit CHR ''+''"
  by (simp add: is_ascii_digit_def)

theorem parse_uint_dec: "n \<le> m \<Longrightarrow> parse_uint m (dec n) = Some n"
proof -
  assume "n \<le> m"
  obtain c cs where d: "dec n = c # cs"
    by (cases "dec n") auto
  have "c \<noteq> CHR ''+''"
    using dec_digits [of n] d plus_not_digit by auto
  with d \<open>n \<le> m\<close> show ?thesis
    using dec_digits [of n] digits_val_dec [of n] by (simp add: parse_uint_def)
qed

lemma parse_uint_bound: "parse_uint m s = Some n \<Longrightarrow> n \<le> m"
  by (auto simp: parse_uint_def Let_def split: if_splits)

subsection \<open>Shared facts on searching\<close>

lemma position_SomeD:
  "position P xs = Some i \<Longrightarrow> i < length xs \<and> P (xs ! i) \<and> (\<forall>j<i. \<not> P (xs ! j))"
proof (induction xs arbitrary: i)
  case (Cons x xs)
  then show ?case by (auto split: if_splits simp: less_Suc_eq_0_disj)
qed simp

lemma position_None_iff: "position P xs = None \<longleftrightarrow> (\<forall>x\<in>set xs. \<not> P x)"
  by (induction xs) auto

lemma position_append:
  "position P (xs @ ys) =
     (case position P xs of Some i \<Rightarrow> Some i | None \<Rightarrow> map_option (\<lambda>i. length xs + i) (position P ys))"
  by (cases "position P ys"; induction xs) (auto split: option.splits)

lemma starts_with_append [simp]: "starts_with (p @ s) p"
  by (simp add: starts_with_def)

lemma starts_with_iff: "starts_with s p \<longleftrightarrow> (\<exists>t. s = p @ t)"
  by (metis append_eq_conv_conj append_take_drop_id starts_with_def)

lemma ends_with_iff: "ends_with s p \<longleftrightarrow> (\<exists>t. s = t @ p)"
proof
  assume "ends_with s p"
  then have "s = take (length s - length p) s @ p"
    by (metis append_take_drop_id ends_with_def)
  then show "\<exists>t. s = t @ p" ..
qed (auto simp: ends_with_def)

lemma strip_prefix_append [simp]: "strip_prefix (p @ s) p = Some s"
  by (simp add: strip_prefix_def)

lemma strip_suffix_append [simp]: "strip_suffix (s @ p) p = Some s"
  by (simp add: strip_suffix_def ends_with_def)

lemma contains_iff: "contains s p \<longleftrightarrow> (\<exists>u v. s = u @ p @ v)"
proof (induction s)
  case (Cons b bs)
  show ?case
  proof
    assume "contains (b # bs) p"
    then show "\<exists>u v. b # bs = u @ p @ v"
      using Cons.IH by (metis append_Cons append_Nil contains.simps(2) starts_with_iff)
  next
    assume "\<exists>u v. b # bs = u @ p @ v"
    then obtain u v where uv: "b # bs = u @ p @ v" by blast
    show "contains (b # bs) p"
    proof (cases u)
      case Nil
      with uv have "starts_with (b # bs) p" by simp
      then show ?thesis by simp
    next
      case (Cons x u')
      with uv have "bs = u' @ p @ v" by simp
      with Cons.IH show ?thesis by auto
    qed
  qed
qed auto

lemma split_on_nonempty [simp]: "split_on c s \<noteq> []"
  by (induction s) (auto split: list.splits)

lemma split_on_no_sep: "p \<in> set (split_on c s) \<Longrightarrow> c \<notin> set p"
proof (induction s arbitrary: p)
  case (Cons b bs)
  then show ?case by (cases "split_on c bs") (auto split: if_splits)
qed simp

lemma split_on_single: "c \<notin> set s \<Longrightarrow> split_on c s = [s]"
  by (induction s) auto

lemma split_on_append_sep:
  "c \<notin> set p \<Longrightarrow> split_on c (p @ c # s) = p # split_on c s"
  by (induction p) auto

lemma nth_opt_simps [simp]:
  "nth_opt [] i = None" "nth_opt (x # xs) 0 = Some x" "nth_opt (x # xs) (Suc i) = nth_opt xs i"
  by (simp_all add: nth_opt_def)

subsection \<open>Shared facts on characters\<close>

text \<open>A block of bytes with one leading byte; the characters of valid UTF-8 are such blocks, and a
  string put together from such blocks has exactly them as its characters.\<close>

fun is_chunk :: "string \<Rightarrow> bool" where
  "is_chunk [] = False"
| "is_chunk (b # bs) = (\<not> is_cont b \<and> list_all is_cont bs)"

lemma takeWhile_dropWhile_conts:
  assumes "list_all is_cont bs" "s = [] \<or> \<not> is_cont (hd s)"
  shows "takeWhile is_cont (bs @ s) = bs" "dropWhile is_cont (bs @ s) = s"
  using assms by (induction bs) (auto simp: takeWhile_eq_Nil_iff dropWhile_eq_self_iff)

lemma concat_chunks_head:
  "list_all is_chunk cs \<Longrightarrow> concat cs = [] \<or> \<not> is_cont (hd (concat cs))"
proof (induction cs)
  case (Cons c cs)
  then show ?case by (cases c) auto
qed simp

lemma utf8_chunks_concat: "list_all is_chunk cs \<Longrightarrow> utf8_chunks (concat cs) = cs"
proof (induction cs)
  case (Cons c cs)
  then obtain b bs where c: "c = b # bs" "list_all is_cont bs" by (cases c) auto
  moreover have "concat cs = [] \<or> \<not> is_cont (hd (concat cs))"
    using Cons.prems by (intro concat_chunks_head) simp
  ultimately show ?case
    using Cons takeWhile_dropWhile_conts [of bs "concat cs"] by simp
qed simp

lemma utf8_chunks_are_chunks:
  "s = [] \<or> \<not> is_cont (hd s) \<Longrightarrow> list_all is_chunk (utf8_chunks s)"
proof (induction s rule: utf8_chunks.induct)
  case (2 b bs)
  have "dropWhile is_cont bs = [] \<or> \<not> is_cont (hd (dropWhile is_cont bs))"
    using hd_dropWhile by blast
  with 2 show ?case by (auto simp: list_all_iff dest: set_takeWhileD)
qed simp

lemma utf8_valid_chunks: "utf8_valid s \<Longrightarrow> list_all is_chunk (utf8_chunks s)"
  using utf8_chunks_are_chunks [of s] guarded_drop_hd [of s 0] utf8_valid_guarded [of s]
  by (cases s) auto

lemma list_all_dropWhile: "list_all P xs \<Longrightarrow> list_all P (dropWhile Q xs)"
  by (induction xs) auto

lemma utf8_chunks_trim:
  assumes "list_all is_chunk (utf8_chunks s)"
  shows "utf8_chunks (trim s) = rev (dropWhile is_whitespace (rev (dropWhile is_whitespace (utf8_chunks s))))"
proof -
  let ?d = "dropWhile is_whitespace (utf8_chunks s)"
  have d: "list_all is_chunk ?d" using assms by (rule list_all_dropWhile)
  then have s1: "utf8_chunks (trim_start s) = ?d"
    by (simp add: trim_start_def utf8_chunks_concat)
  have "list_all is_chunk (rev (dropWhile is_whitespace (rev ?d)))"
    using d by (simp add: list_all_dropWhile)
  then show ?thesis by (simp add: trim_def trim_end_def s1 utf8_chunks_concat)
qed

lemma utf8_chunks_trim_subset:
  "list_all is_chunk (utf8_chunks s) \<Longrightarrow> set (utf8_chunks (trim s)) \<subseteq> set (utf8_chunks s)"
  by (auto simp: utf8_chunks_trim) (metis set_dropWhileD set_rev)

lemma length_utf8_chunks_trim:
  "list_all is_chunk (utf8_chunks s) \<Longrightarrow> length (utf8_chunks (trim s)) \<le> length (utf8_chunks s)"
  using length_dropWhile_le [of is_whitespace "rev (dropWhile is_whitespace (utf8_chunks s))"]
    length_dropWhile_le [of is_whitespace "utf8_chunks s"]
  by (simp add: utf8_chunks_trim)

lemma utf8_chunks_ascii: "list_all is_ascii s \<Longrightarrow> utf8_chunks s = map (\<lambda>b. [b]) s"
proof (induction s)
  case (Cons b bs)
  have nc: "bs = [] \<or> \<not> is_cont (hd bs)"
    using Cons.prems by (cases bs) (auto simp: is_ascii_def is_cont_def)
  have "takeWhile is_cont bs = []" "dropWhile is_cont bs = bs"
    using takeWhile_dropWhile_conts [of "[]" bs] nc by auto
  with Cons show ?case by simp
qed simp


subsection \<open>Well-formed text\<close>

text \<open>One character of UTF-8. A \<open>String\<close> of the program is a sequence of characters, so the strings of
  the model that stand for one are built, cut and changed at character boundaries only.\<close>

fun utf8_char :: "string \<Rightarrow> bool" where
  "utf8_char [a] = (byte a < 128)"
| "utf8_char [a, b] = (194 \<le> byte a \<and> byte a < 224 \<and> is_cont b)"
| "utf8_char [a, b, c] =
     (224 \<le> byte a \<and> byte a < 240 \<and> is_cont b \<and> is_cont c
      \<and> (byte a = 224 \<longrightarrow> 160 \<le> byte b) \<and> (byte a = 237 \<longrightarrow> byte b < 160))"
| "utf8_char [a, b, c, d] =
     (240 \<le> byte a \<and> byte a < 245 \<and> is_cont b \<and> is_cont c \<and> is_cont d
      \<and> (byte a = 240 \<longrightarrow> 144 \<le> byte b) \<and> (byte a = 244 \<longrightarrow> byte b < 144))"
| "utf8_char _ = False"

lemma utf8_char_chunk: "utf8_char c \<Longrightarrow> is_chunk c"
  by (cases c rule: utf8_char.cases) (auto simp: is_cont_def)

lemma utf8_valid_char: "utf8_char c \<Longrightarrow> utf8_valid (c @ s) = utf8_valid s"
  by (cases c rule: utf8_char.cases) auto

lemma utf8_valid_first:
  assumes "utf8_valid s" "s \<noteq> []"
  obtains c r where "s = c @ r" "utf8_char c" "utf8_valid r"
proof -
  from assms(2) obtain a t where s: "s = a # t" by (cases s) auto
  consider "byte a < 128" | "194 \<le> byte a" "byte a < 224" | "224 \<le> byte a" "byte a < 240" | "240 \<le> byte a" "byte a < 245"
    using assms(1) by (fastforce simp: s split: if_splits)
  then show ?thesis
  proof cases
    case 1
    then show ?thesis using assms(1) that [of "[a]" t] by (simp add: s)
  next
    case 2
    then obtain b r where "t = b # r" using assms(1) by (auto simp: s split: list.splits)
    with 2 show ?thesis using assms(1) that [of "[a, b]" r] by (simp add: s)
  next
    case 3
    then obtain b c r where "t = b # c # r" using assms(1) by (auto simp: s split: list.splits)
    with 3 show ?thesis using assms(1) that [of "[a, b, c]" r] by (simp add: s)
  next
    case 4
    then obtain b c d r where "t = b # c # d # r" using assms(1) by (auto simp: s split: list.splits)
    with 4 show ?thesis using assms(1) that [of "[a, b, c, d]" r] by (simp add: s)
  qed
qed

lemma utf8_valid_induct [consumes 1, case_names empty chars]:
  assumes "utf8_valid s" "P []" "\<And>c r. utf8_char c \<Longrightarrow> utf8_valid r \<Longrightarrow> P r \<Longrightarrow> P (c @ r)"
  shows "P s"
  using assms(1)
proof (induction s rule: length_induct)
  case (1 s)
  show ?case
  proof (cases "s = []")
    case False
    with 1(2) obtain c r where s: "s = c @ r" "utf8_char c" "utf8_valid r" by (rule utf8_valid_first)
    moreover from s(2) have "c \<noteq> []" by auto
    ultimately show ?thesis using 1(1) assms(3) by simp
  qed (use assms(2) in simp)
qed

lemma utf8_valid_append: "utf8_valid xs \<Longrightarrow> utf8_valid ys \<Longrightarrow> utf8_valid (xs @ ys)"
  by (induction xs rule: utf8_valid_induct) (simp_all add: utf8_valid_char)

text \<open>A valid string may be cut exactly where no continuation byte follows.\<close>

lemma utf8_valid_split:
  assumes "utf8_valid s" and "s = xs @ ys" and "ys = [] \<or> \<not> is_cont (hd ys)"
  shows "utf8_valid xs \<and> utf8_valid ys"
  using assms(1,2)
proof (induction s arbitrary: xs rule: utf8_valid_induct)
  case (chars c r)
  consider (nil) "xs = []" | (cut) zs where "xs = c @ zs" "r = zs @ ys" | (within) zs where "c = xs @ zs" "zs \<noteq> []" "ys = zs @ r" "xs \<noteq> []"
    using chars(4) by (auto simp: append_eq_append_conv2) blast
  then show ?case
  proof cases
    case nil
    with chars show ?thesis by (auto simp: utf8_valid_char)
  next
    case cut
    with chars(1) chars(3) [of zs] show ?thesis by (simp add: utf8_valid_char)
  next
    case within
    then have "hd zs \<in> set (tl c)" by (cases xs) auto
    moreover have "list_all is_cont (tl c)" using utf8_char_chunk [OF chars(1)] by (cases c) auto
    ultimately show ?thesis using assms(3) within by (auto simp: list_all_iff)
  qed
qed simp

text \<open>Replacing ASCII bytes by ASCII bytes leaves the characters in place.\<close>

lemma utf8_valid_map_ascii:
  assumes "utf8_valid s" and "\<And>b. if byte b < 128 then byte (f b) < 128 else f b = b"
  shows "utf8_valid (map f s)"
  using assms(1)
proof (induction s rule: utf8_valid_induct)
  case (chars c r)
  have hi: "f b = b" if "128 \<le> byte b" for b using assms(2) [of b] that by (simp split: if_splits)
  have lo: "byte (f b) < 128" if "byte b < 128" for b using assms(2) [of b] that by (simp split: if_splits)
  have "utf8_char (map f c)"
    using chars(1) hi lo by (cases c rule: utf8_char.cases) (auto simp: is_cont_def)
  with chars show ?case by (simp add: utf8_valid_char)
qed simp


lemma utf8_chunks_char:
  assumes "utf8_char c" "r = [] \<or> \<not> is_cont (hd r)"
  shows "utf8_chunks (c @ r) = c # utf8_chunks r"
proof -
  obtain b bs where "c = b # bs" "list_all is_cont bs" using utf8_char_chunk [OF assms(1)] by (cases c) auto
  then show ?thesis using takeWhile_dropWhile_conts [OF _ assms(2)] by simp
qed

lemma utf8_valid_head: "utf8_valid s \<Longrightarrow> s = [] \<or> \<not> is_cont (hd s)"
  using guarded_drop_hd [of s 0] utf8_valid_guarded [of s] by (cases s) auto

lemma utf8_valid_iff_chars: "utf8_valid s \<longleftrightarrow> list_all utf8_char (utf8_chunks s)"
proof
  show "utf8_valid s \<Longrightarrow> list_all utf8_char (utf8_chunks s)"
    by (induction s rule: utf8_valid_induct) (simp_all add: utf8_chunks_char utf8_valid_head)
  have "list_all utf8_char cs \<Longrightarrow> utf8_valid (concat cs)" for cs
    by (induction cs) (simp_all add: utf8_valid_char)
  from this [of "utf8_chunks s"] show "list_all utf8_char (utf8_chunks s) \<Longrightarrow> utf8_valid s" by simp
qed

lemma utf8_valid_concat: "list_all utf8_char cs \<Longrightarrow> utf8_valid (concat cs)"
  by (induction cs) (simp_all add: utf8_valid_char)

lemma utf8_valid_trim_end: "utf8_valid s \<Longrightarrow> utf8_valid (trim_end s)"
  unfolding trim_end_def utf8_valid_iff_chars [of s]
  by (rule utf8_valid_concat) (auto simp: list_all_iff dest!: set_dropWhileD)

lemma utf8_valid_trim_start: "utf8_valid s \<Longrightarrow> utf8_valid (trim_start s)"
  unfolding trim_start_def utf8_valid_iff_chars [of s]
  by (rule utf8_valid_concat) (auto simp: list_all_iff dest!: set_dropWhileD)

lemma utf8_valid_take:
  assumes "utf8_valid s" "is_char_boundary s i"
  shows "utf8_valid (take i s) \<and> utf8_valid (drop i s)"
  using assms(2) utf8_valid_head [OF assms(1)]
  by (intro utf8_valid_split [OF assms(1)]) (auto simp: is_char_boundary_def hd_drop_conv_nth)

lemma utf8_boundary_near:
  assumes "utf8_valid s" "m \<le> length s"
  shows "\<exists>j. j \<le> m \<and> m \<le> j + 3 \<and> is_char_boundary s j"
  using assms
proof (induction s arbitrary: m rule: utf8_valid_induct)
  case (chars c r)
  show ?case
  proof (cases "m < length c")
    case True
    have "length c \<le> 4" using chars(1) by (cases c rule: utf8_char.cases) auto
    with True show ?thesis by (intro exI [of _ 0]) (simp add: is_char_boundary_def)
  next
    case False
    with chars(4) have "m - length c \<le> length r" by simp
    from chars(3) [OF this] obtain j where
      j: "j \<le> m - length c" "m - length c \<le> j + 3" "is_char_boundary r j" by blast
    have "is_char_boundary (c @ r) (length c + j)"
      using j(3) utf8_valid_head [OF chars(2)]
      by (cases "r = []") (auto simp: is_char_boundary_def hd_conv_nth nth_append)
    moreover have "length c + j \<le> m \<and> m \<le> length c + j + 3" using j(1,2) False by linarith
    ultimately show ?thesis by blast
  qed
qed (simp add: is_char_boundary_def)

end
