(* ===== verification/Redactor.thy ===== *)
theory Redactor
  imports Rust_Prelude
begin

text \<open>
  The log redactor, \<^verbatim>\<open>crates/sakala-agent-core/src/logs/redactor.rs\<close>: every deployment log line passes
  \<open>redact_line\<close> before it leaves the agent. The functions work on the bytes of the line with explicit
  indices, so the model does too. Slicing from beyond the end, a window of size zero and
  \<^verbatim>\<open>replace_range\<close> off a character boundary panic in Rust; each is the value \<open>Panic\<close> here. The loops
  are recursive functions whose measure is the number of bytes not yet searched.

  The main results: a returned line holds none of the GitHub token prefixes, in any case; every
  assignment to a sensitive key in it is empty or starts with \<open>[REDACTED]\<close>; a line that holds no
  \<open>bearer \<close> is always returned; the bearer loop panics on a line that ends with an empty bearer token.
  All three loops are sequences of well-placed splices (\<open>redacts\<close>), over which the invariants are
  proved once, by rule induction.
\<close>

subsection \<open>Definitions\<close>

definition SENSITIVE_KEYS :: "string list" where
  "SENSITIVE_KEYS =
     [''token'', ''password'', ''secret'', ''app_key'', ''database_url'', ''authorization'',
      ''api_key'', ''access_token'', ''refresh_token'', ''client_secret'']"

definition TOKEN_PREFIXES :: "string list" where
  "TOKEN_PREFIXES = [''ghp_'', ''gho_'', ''ghs_'', ''github_pat_'']"

definition REDACTED :: string where
  "REDACTED = ''[REDACTED]''"

text \<open>The literal \<^verbatim>\<open>"bearer "\<close>.\<close>

definition BEARER :: string where
  "BEARER = ''bearer ''"

lemma length_literals [simp]: "length REDACTED = 10" "length BEARER = 7" "REDACTED \<noteq> []" "BEARER \<noteq> []"
  by (simp_all add: REDACTED_def BEARER_def)

text \<open>\<^verbatim>\<open>slice::windows(n)\<close> followed by \<^verbatim>\<open>position\<close>, for \<open>n > 0\<close>.\<close>

fun window_position :: "string \<Rightarrow> string \<Rightarrow> nat option" where
  "window_position [] needle = None"
| "window_position (b # bs) needle =
     (if length (b # bs) < length needle then None
      else if eq_ignore_ascii_case (take (length needle) (b # bs)) needle then Some 0
      else map_option Suc (window_position bs needle))"

definition find_ascii_case_insensitive :: "string \<Rightarrow> string \<Rightarrow> nat \<Rightarrow> nat option rust" where
  "find_ascii_case_insensitive buf needle from =
     (if length buf < from \<or> needle = [] then Panic
      else Ret (map_option (\<lambda>relative. from + relative) (window_position (drop from buf) needle)))"

text \<open>\<^verbatim>\<open>String::replace_range(a..b, with)\<close>.\<close>

definition replace_range :: "string \<Rightarrow> nat \<Rightarrow> nat \<Rightarrow> string \<Rightarrow> string rust" where
  "replace_range buf a b w =
     (if a \<le> b \<and> b \<le> length buf \<and> is_char_boundary buf a \<and> is_char_boundary buf b
      then Ret (take a buf @ w @ drop b buf) else Panic)"

text \<open>The two cursor loops of \<open>redact_assignment\<close>: the index of the first byte at or after \<open>i\<close> that is
  not in the class, or the length.\<close>

definition skip_while :: "(char \<Rightarrow> bool) \<Rightarrow> string \<Rightarrow> nat \<Rightarrow> nat" where
  "skip_while P buf i = i + length (takeWhile P (drop i buf))"

definition is_quote :: "char \<Rightarrow> bool" where
  "is_quote b \<longleftrightarrow> b = CHR 0x27 \<or> b = CHR 0x22"

definition token_end_byte :: "char \<Rightarrow> bool" where
  "token_end_byte b \<longleftrightarrow> is_ascii_whitespace b \<or> b = CHR '','' \<or> b = CHR '';'' \<or> b = CHR 0x22"

text \<open>\<^verbatim>\<open>value.as_bytes()[start..].iter().position(p).map_or(value.len(), |r| start + r)\<close>.\<close>

definition end_from :: "(char \<Rightarrow> bool) \<Rightarrow> string \<Rightarrow> nat \<Rightarrow> nat" where
  "end_from P buf start =
     (case position P (drop start buf) of None \<Rightarrow> length buf | Some r \<Rightarrow> start + r)"

text \<open>The end of the value to redact, from \<open>cursor\<close> (the bytes from \<^verbatim>\<open>let end = ...\<close> on).\<close>

definition assignment_end :: "string \<Rightarrow> string \<Rightarrow> char option \<Rightarrow> nat \<Rightarrow> nat" where
  "assignment_end key buf quote cursor =
     (if key = ''authorization''
         \<and> length BEARER \<le> length (drop cursor buf)
         \<and> eq_ignore_ascii_case (take (length BEARER) (drop cursor buf)) BEARER
      then end_from token_end_byte buf (cursor + length BEARER)
      else end_from (\<lambda>b. case quote of
                           Some q \<Rightarrow> b = q
                         | None \<Rightarrow> is_ascii_whitespace b \<or> b = CHR '','' \<or> b = CHR '';'') buf cursor)"

text \<open>What one pass of the loop does with a match at \<open>start\<close>: \<open>Inl\<close> the next \<open>search_from\<close> when the
  match is not an assignment, \<open>Inr (cursor, end)\<close> the range of the value otherwise.\<close>

definition assignment_range :: "string \<Rightarrow> string \<Rightarrow> nat \<Rightarrow> nat + nat \<times> nat" where
  "assignment_range key buf start =
     (if start > 0 \<and> (is_ascii_alphanumeric (buf ! (start - 1)) \<or> buf ! (start - 1) = CHR ''_'')
      then Inl (start + length key)
      else
        let cursor = skip_while (\<lambda>b. is_ascii_whitespace b \<or> is_quote b) buf (start + length key)
        in if \<not> (cursor < length buf \<and> (buf ! cursor = CHR ''='' \<or> buf ! cursor = CHR '':''))
           then Inl (start + length key)
           else
             let cursor = skip_while is_ascii_whitespace buf (cursor + 1);
                 quote = (if cursor < length buf \<and> is_quote (buf ! cursor)
                          then Some (buf ! cursor) else None);
                 cursor = (if quote \<noteq> None then cursor + 1 else cursor)
             in Inr (cursor, assignment_end key buf quote cursor))"

lemma window_position_SomeD:
  "window_position s n = Some i \<Longrightarrow>
     i + length n \<le> length s \<and> eq_ignore_ascii_case (take (length n) (drop i s)) n"
  by (induction s arbitrary: i) (auto split: if_splits)

lemma find_SomeD:
  assumes "find_ascii_case_insensitive buf needle from = Ret (Some start)"
  shows "needle \<noteq> []" "from \<le> start" "start + length needle \<le> length buf"
    "eq_ignore_ascii_case (take (length needle) (drop start buf)) needle"
  using assms window_position_SomeD [of "drop from buf" needle "start - from"]
  by (auto simp: find_ascii_case_insensitive_def add.commute split: if_splits)

lemma skip_while_ge [simp]: "i \<le> skip_while P buf i"
  by (simp add: skip_while_def)

lemma skip_while_le: "i \<le> length buf \<Longrightarrow> skip_while P buf i \<le> length buf"
  using length_takeWhile_le [of P "drop i buf"] by (simp add: skip_while_def)

lemma end_from_bounds: "i \<le> length buf \<Longrightarrow> i \<le> end_from P buf i \<and> end_from P buf i \<le> length buf"
  by (auto simp: end_from_def dest!: position_SomeD split: option.splits)

lemma assignment_end_bounds:
  "cursor \<le> length buf \<Longrightarrow>
     cursor \<le> assignment_end key buf q cursor \<and> assignment_end key buf q cursor \<le> length buf"
  using end_from_bounds [of cursor buf]
    end_from_bounds [of "cursor + length BEARER" buf token_end_byte]
  by (fastforce simp: assignment_end_def)

lemma assignment_range_Inl: "assignment_range key buf start = Inl j \<Longrightarrow> j = start + length key"
  by (auto simp: assignment_range_def Let_def split: if_splits)

lemma assignment_range_Inr:
  assumes "assignment_range key buf start = Inr (cursor, e)" "start + length key \<le> length buf"
  shows "start + length key < cursor" "cursor \<le> e" "e \<le> length buf"
proof -
  let ?c = "skip_while (\<lambda>b. is_ascii_whitespace b \<or> is_quote b) buf (start + length key)"
  let ?d = "skip_while is_ascii_whitespace buf (?c + 1)"
  from assms(1) have c: "?c < length buf"
    and cur: "cursor = (if ?d < length buf \<and> is_quote (buf ! ?d) then ?d + 1 else ?d)"
    and e: "\<exists>q. e = assignment_end key buf q cursor"
    by (auto simp: assignment_range_def Let_def split: if_splits)
  have d: "?c + 1 \<le> ?d" "?d \<le> length buf"
    using skip_while_le [of "?c + 1" buf is_ascii_whitespace] c by auto
  then have cl: "cursor \<le> length buf" "?d \<le> cursor" using cur by auto
  have "start + length key \<le> ?c" by simp
  with d cl show "start + length key < cursor" by linarith
  from e obtain q where "e = assignment_end key buf q cursor" ..
  with assignment_end_bounds [OF cl(1), of key q] show "cursor \<le> e" "e \<le> length buf" by auto
qed

function redact_assignment_from :: "string \<Rightarrow> string \<Rightarrow> nat \<Rightarrow> string rust" where
  "redact_assignment_from key buf search_from =
     (case find_ascii_case_insensitive buf key search_from of
        Panic \<Rightarrow> Panic
      | Ret None \<Rightarrow> Ret buf
      | Ret (Some start) \<Rightarrow>
          (case assignment_range key buf start of
             Inl next_from \<Rightarrow> redact_assignment_from key buf next_from
           | Inr (cursor, e) \<Rightarrow>
               if cursor < e then
                 (case replace_range buf cursor e REDACTED of
                    Panic \<Rightarrow> Panic
                  | Ret buf' \<Rightarrow> redact_assignment_from key buf' (cursor + length REDACTED))
               else redact_assignment_from key buf cursor))"
  by pat_completeness auto
termination
proof (relation "measure (\<lambda>(key, buf, search_from). length buf - search_from)", goal_cases)
  case (2 key buf search_from x2 x2a next_from)
  then have needle_ok: "find_ascii_case_insensitive buf key search_from = Ret (Some x2a)" by simp
  from find_SomeD [OF needle_ok] assignment_range_Inl [OF 2(3)] show ?case
    by (cases key) auto
next
  case (3 key buf search_from x2 x2a b cursor e buf')
  then have f: "find_ascii_case_insensitive buf key search_from = Ret (Some x2a)" by simp
  from 3 have r: "assignment_range key buf x2a = Inr (cursor, e)" by simp
  from 3 have v: "buf' = take cursor buf @ REDACTED @ drop e buf"
    by (auto simp: replace_range_def split: if_splits)
  from find_SomeD [OF f] assignment_range_Inr [OF r] 3 v show ?case by auto
next
  case (4 key buf search_from x2 x2a b cursor e)
  then have f: "find_ascii_case_insensitive buf key search_from = Ret (Some x2a)" by simp
  from 4 have r: "assignment_range key buf x2a = Inr (cursor, e)" by simp
  from find_SomeD [OF f] assignment_range_Inr [OF r] 4 show ?case by auto
qed simp

declare redact_assignment_from.simps [simp del]

definition redact_assignment :: "string \<Rightarrow> string \<Rightarrow> string rust" where
  "redact_assignment buf key = redact_assignment_from key buf 0"


function redact_bearer_from :: "string \<Rightarrow> nat \<Rightarrow> string rust" where
  "redact_bearer_from buf search_from =
     (case find_ascii_case_insensitive buf BEARER search_from of
        Panic \<Rightarrow> Panic
      | Ret None \<Rightarrow> Ret buf
      | Ret (Some start) \<Rightarrow>
          let token_start = start + length BEARER;
              token_end = end_from token_end_byte buf token_start
          in if token_start < token_end then
               (case replace_range buf token_start token_end REDACTED of
                  Panic \<Rightarrow> Panic
                | Ret buf' \<Rightarrow> redact_bearer_from buf' (token_start + length REDACTED))
             else redact_bearer_from buf (token_start + length REDACTED))"
  by pat_completeness auto
termination
proof (relation "measure (\<lambda>(buf, search_from). length buf - search_from)", goal_cases)
  case (2 buf search_from x2 x2a token_start token_end buf')
  then have f: "find_ascii_case_insensitive buf BEARER search_from = Ret (Some x2a)" by simp
  from 2 have "buf' = take token_start buf @ REDACTED @ drop token_end buf"
    by (auto simp: replace_range_def split: if_splits)
  with find_SomeD [OF f] 2 end_from_bounds [of token_start buf token_end_byte] show ?case by auto
next
  case (3 buf search_from x2 x2a token_start token_end)
  then have f: "find_ascii_case_insensitive buf BEARER search_from = Ret (Some x2a)" by simp
  from find_SomeD [OF f] 3 show ?case by auto
qed simp

declare redact_bearer_from.simps [simp del]

definition redact_bearer_tokens :: "string \<Rightarrow> string rust" where
  "redact_bearer_tokens buf = redact_bearer_from buf 0"

text \<open>The body of the \<^verbatim>\<open>for prefix in TOKEN_PREFIXES\<close> loop. The guard on the prefix is the loop's own
  domain: no other prefix reaches it, and it is what makes the recursion total.\<close>

function redact_prefix_from :: "string \<Rightarrow> string \<Rightarrow> nat \<Rightarrow> string rust" where
  "redact_prefix_from prefix buf search_from =
     (if prefix \<notin> set TOKEN_PREFIXES then Ret buf
      else case find_ascii_case_insensitive buf prefix search_from of
        Panic \<Rightarrow> Panic
      | Ret None \<Rightarrow> Ret buf
      | Ret (Some start) \<Rightarrow>
          (case replace_range buf start (end_from token_end_byte buf start) REDACTED of
             Panic \<Rightarrow> Panic
           | Ret buf' \<Rightarrow> redact_prefix_from prefix buf' (start + length REDACTED)))"
  by pat_completeness auto

lemma prefix_not_end_byte:
  assumes "prefix \<in> set TOKEN_PREFIXES"
    and "eq_ignore_ascii_case (take (length prefix) (drop start buf)) prefix"
    and "start + length prefix \<le> length buf"
  shows "start < end_from token_end_byte buf start"
proof -
  from assms(1) obtain ps where p: "prefix = CHR ''g'' # ps"
    by (auto simp: TOKEN_PREFIXES_def)
  with assms(3) obtain b bs where d: "drop start buf = b # bs"
    by (cases "drop start buf") auto
  from assms(2) p d have "lower b = lower CHR ''g''"
    by (simp add: eq_ignore_ascii_case_def)
  then have "\<not> token_end_byte b"
    by (auto simp: token_end_byte_def lower_def is_ascii_uppercase_def is_ascii_whitespace_def
        split: if_splits)
  moreover have "start < length buf" using assms(3) p by simp
  ultimately show ?thesis
    using d by (auto simp: end_from_def split: option.splits)
qed

termination redact_prefix_from
proof (relation "measure (\<lambda>(prefix, buf, search_from). length buf - search_from)", goal_cases)
  case (2 prefix buf search_from x2 x2a buf')
  then have f: "find_ascii_case_insensitive buf prefix search_from = Ret (Some x2a)" by simp
  note fs = find_SomeD [OF f]
  from 2 have "buf' = take x2a buf @ REDACTED @ drop (end_from token_end_byte buf x2a) buf"
    by (auto simp: replace_range_def split: if_splits)
  moreover have "x2a < end_from token_end_byte buf x2a"
    using prefix_not_end_byte [of prefix x2a buf] 2 fs by simp
  moreover have "end_from token_end_byte buf x2a \<le> length buf"
    using end_from_bounds [of x2a buf token_end_byte] fs by simp
  ultimately show ?case using fs by auto
qed simp

declare redact_prefix_from.simps [simp del]

primrec redact_prefixes :: "string list \<Rightarrow> string \<Rightarrow> string rust" where
  "redact_prefixes [] buf = Ret buf"
| "redact_prefixes (p # ps) buf = rust_bind (redact_prefix_from p buf 0) (redact_prefixes ps)"

definition redact_prefixed_tokens :: "string \<Rightarrow> string rust" where
  "redact_prefixed_tokens buf = redact_prefixes TOKEN_PREFIXES buf"

primrec redact_assignments :: "string list \<Rightarrow> string \<Rightarrow> string rust" where
  "redact_assignments [] buf = Ret buf"
| "redact_assignments (k # ks) buf = rust_bind (redact_assignment buf k) (redact_assignments ks)"

definition redact_line :: "string \<Rightarrow> string rust" where
  "redact_line line =
     rust_bind (redact_assignments SENSITIVE_KEYS line)
       (\<lambda>result. rust_bind (redact_bearer_tokens result) redact_prefixed_tokens)"


subsection \<open>Occurrences and splices\<close>

definition occurs_at :: "string \<Rightarrow> string \<Rightarrow> nat \<Rightarrow> bool" where
  "occurs_at needle buf i \<longleftrightarrow>
     i + length needle \<le> length buf \<and> (\<forall>k < length needle. lower (buf ! (i + k)) = lower (needle ! k))"

lemma occurs_at_iff:
  "occurs_at needle buf i \<longleftrightarrow>
     i + length needle \<le> length buf \<and> eq_ignore_ascii_case (take (length needle) (drop i buf)) needle"
  by (auto simp: occurs_at_def eq_ignore_ascii_case_def list_eq_iff_nth_eq)

lemma window_position_None:
  "window_position s n = None \<Longrightarrow> n \<noteq> [] \<Longrightarrow> \<not> occurs_at n s i"
proof (induction s arbitrary: i)
  case Nil
  then show ?case by (simp add: occurs_at_def)
next
  case (Cons b bs)
  show ?case
  proof (cases i)
    case 0
    with Cons.prems show ?thesis by (auto simp: occurs_at_iff split: if_splits)
  next
    case (Suc j)
    with Cons show ?thesis by (auto simp: occurs_at_iff split: if_splits)
  qed
qed

lemma window_position_first:
  "window_position s n = Some j \<Longrightarrow> n \<noteq> [] \<Longrightarrow> i < j \<Longrightarrow> \<not> occurs_at n s i"
proof (induction s arbitrary: i j)
  case (Cons b bs)
  then show ?case
    by (cases i) (auto simp: occurs_at_iff split: if_splits)
qed simp

lemma occurs_at_drop: "from \<le> i \<Longrightarrow> from \<le> length buf \<Longrightarrow> occurs_at n (drop from buf) (i - from) = occurs_at n buf i"
  by (auto simp: occurs_at_iff)

lemma find_first:
  assumes "find_ascii_case_insensitive buf n from = Ret r" "from \<le> i" "case r of None \<Rightarrow> True | Some j \<Rightarrow> i < j"
  shows "\<not> occurs_at n buf i"
proof -
  from assms(1) have f: "from \<le> length buf" "n \<noteq> []"
    by (auto simp: find_ascii_case_insensitive_def split: if_splits)
  have "\<not> occurs_at n (drop from buf) (i - from)"
    using assms f window_position_None [of "drop from buf" n] window_position_first [of "drop from buf" n]
    by (auto simp: find_ascii_case_insensitive_def split: option.splits)
  with f assms(2) show ?thesis by (simp add: occurs_at_drop)
qed

lemma find_occurs: "find_ascii_case_insensitive buf n from = Ret (Some i) \<Longrightarrow> occurs_at n buf i"
  using find_SomeD [of buf n "from" i] by (simp add: occurs_at_iff)

definition splice :: "string \<Rightarrow> nat \<Rightarrow> nat \<Rightarrow> string" where
  "splice buf a b = take a buf @ REDACTED @ drop b buf"

lemma replace_range_Ret:
  "replace_range buf a b REDACTED = Ret buf' \<Longrightarrow> a \<le> b \<and> b \<le> length buf \<and> buf' = splice buf a b"
  by (auto simp: replace_range_def splice_def split: if_splits)

text \<open>A needle that a splice cannot create: it has no bracket and its first letter is not in
  \<open>REDACTED\<close>, or it is not inside \<open>REDACTED\<close> at all.\<close>

definition unmade :: "string \<Rightarrow> bool" where
  "unmade n \<longleftrightarrow> n \<noteq> [] \<and> lower CHR ''['' \<notin> set (map lower n) \<and> lower CHR '']'' \<notin> set (map lower n)
     \<and> window_position REDACTED n = None"

lemma unmade_needles [simp]:
  "unmade BEARER" "p \<in> set TOKEN_PREFIXES \<Longrightarrow> unmade p" "k \<in> set SENSITIVE_KEYS \<Longrightarrow> unmade k"
proof -
  have "list_all unmade (BEARER # TOKEN_PREFIXES @ SENSITIVE_KEYS)" by code_simp
  then show "unmade BEARER" "p \<in> set TOKEN_PREFIXES \<Longrightarrow> unmade p" "k \<in> set SENSITIVE_KEYS \<Longrightarrow> unmade k"
    by (auto simp: list_all_iff)
qed

lemma nth_splice:
  assumes "a \<le> b" "b \<le> length buf"
  shows "j < a \<Longrightarrow> splice buf a b ! j = buf ! j"
    and "a \<le> j \<Longrightarrow> j < a + 10 \<Longrightarrow> splice buf a b ! j = REDACTED ! (j - a)"
    and "a + 10 \<le> j \<Longrightarrow> splice buf a b ! j = buf ! (b + (j - (a + 10)))"
    and "length (splice buf a b) = a + 10 + (length buf - b)"
  using assms by (auto simp: splice_def nth_append min_absorb2)

lemma occurs_at_splice:
  assumes n: "unmade n" and ab: "a \<le> b" "b \<le> length buf" and o: "occurs_at n (splice buf a b) i"
  shows "(i + length n \<le> a \<and> occurs_at n buf i) \<or> (a + 10 \<le> i \<and> occurs_at n buf (b + (i - (a + 10))))"
proof -
  have at: "\<And>k. k < length n \<Longrightarrow> lower (splice buf a b ! (i + k)) \<in> set (map lower n)"
    using o by (simp add: occurs_at_def)
  have len: "i + length n \<le> a + 10 + (length buf - b)"
    using o by (simp add: occurs_at_def nth_splice(4) [OF ab])
  have "REDACTED ! 0 = CHR ''[''" "REDACTED ! 9 = CHR '']''" by (simp_all add: REDACTED_def)
  then have br: "splice buf a b ! a = CHR ''[''" "splice buf a b ! (a + 9) = CHR '']''"
    using nth_splice(2) [OF ab, of a] nth_splice(2) [OF ab, of "a + 9"] by auto
  have left: False if "i \<le> a" "a < i + length n"
    using at [of "a - i"] br n that by (simp add: unmade_def)
  have right: False if "i \<le> a + 9" "a + 9 < i + length n"
    using at [of "a + 9 - i"] br n that by (simp add: unmade_def)
  consider "i + length n \<le> a" | "a < i" "i + length n \<le> a + 9" | "a + 10 \<le> i"
    using left right n by (cases "a < i + length n"; cases "a + 9 < i + length n") force+
  then show ?thesis
  proof cases
    case 1
    with o ab show ?thesis by (simp add: occurs_at_def nth_splice(1))
  next
    case 2
    then have "occurs_at n REDACTED (i - a)"
      using o ab by (auto simp: occurs_at_def nth_splice(2))
    with n show ?thesis by (auto simp: unmade_def dest: window_position_None)
  next
    case 3
    have "\<And>k. k < length n \<Longrightarrow> splice buf a b ! (i + k) = buf ! (b + (i - (a + 10)) + k)"
      using nth_splice(3) [OF ab] 3 by (simp add: algebra_simps)
    with o 3 len ab show ?thesis by (simp add: occurs_at_def)
  qed
qed


subsection \<open>Every loop is a sequence of well-placed splices\<close>

text \<open>A splice is well placed when its range starts after a separator or at the letter of a token
  prefix, and ends at the end of the line or at a byte that ends a value.\<close>

definition sep_byte :: "char \<Rightarrow> bool" where
  "sep_byte b \<longleftrightarrow> b = CHR ''='' \<or> b = CHR '':'' \<or> is_ascii_whitespace b \<or> is_quote b"

definition stop_byte :: "char \<Rightarrow> bool" where
  "stop_byte b \<longleftrightarrow> is_ascii_whitespace b \<or> b = CHR '','' \<or> b = CHR '';'' \<or> is_quote b"

definition well_placed :: "string \<Rightarrow> nat \<Rightarrow> nat \<Rightarrow> bool" where
  "well_placed buf a b \<longleftrightarrow>
     a \<le> b \<and> b \<le> length buf \<and> (b = length buf \<or> stop_byte (buf ! b))
     \<and> ((0 < a \<and> sep_byte (buf ! (a - 1))) \<or> (a < length buf \<and> lower (buf ! a) = CHR ''g''))"

inductive redacts :: "string \<Rightarrow> string \<Rightarrow> bool" where
  redacts_refl: "redacts buf buf"
| redacts_step: "well_placed buf a b \<Longrightarrow> redacts (splice buf a b) r \<Longrightarrow> redacts buf r"

lemma redacts_trans: "redacts x y \<Longrightarrow> redacts y z \<Longrightarrow> redacts x z"
  by (induction rule: redacts.induct) (auto intro: redacts.intros)

lemma end_from_stop:
  "i \<le> length buf \<Longrightarrow> end_from P buf i = length buf \<or> P (buf ! end_from P buf i)"
  by (auto simp: end_from_def dest!: position_SomeD split: option.splits)

lemma token_end_stop: "token_end_byte b \<Longrightarrow> stop_byte b"
  by (auto simp: token_end_byte_def stop_byte_def is_quote_def)

lemma nth_before_drop_skip:
  assumes "i < skip_while P buf i" "i \<le> length buf"
  shows "P (buf ! (skip_while P buf i - 1))"
proof -
  let ?w = "takeWhile P (drop i buf)"
  have "?w \<noteq> []" using assms(1) by (auto simp: skip_while_def)
  then have "P (last ?w)"
    using set_takeWhileD [of "last ?w" P "drop i buf"] last_in_set by blast
  moreover have "last ?w = drop i buf ! (length ?w - 1)"
    using \<open>?w \<noteq> []\<close> by (simp add: last_conv_nth takeWhile_nth)
  ultimately have "P (drop i buf ! (length ?w - 1))" by simp
  moreover have "i + (length ?w - 1) = skip_while P buf i - 1"
    using \<open>?w \<noteq> []\<close> by (cases ?w) (simp_all add: skip_while_def)
  ultimately show ?thesis using assms by simp
qed

lemma assignment_end_stop:
  assumes "c \<le> length buf" "\<And>b. q = Some b \<Longrightarrow> is_quote b"
  shows "assignment_end key buf q c = length buf \<or> stop_byte (buf ! assignment_end key buf q c)"
proof -
  have "c + 7 \<le> length buf \<Longrightarrow> end_from token_end_byte buf (c + 7) = length buf
      \<or> stop_byte (buf ! end_from token_end_byte buf (c + 7))"
    using end_from_stop [of "c + 7" buf token_end_byte] token_end_stop by blast
  moreover have "end_from (\<lambda>b. case q of Some q \<Rightarrow> b = q
        | None \<Rightarrow> is_ascii_whitespace b \<or> b = CHR '','' \<or> b = CHR '';'') buf c = length buf
      \<or> stop_byte (buf ! end_from (\<lambda>b. case q of Some q \<Rightarrow> b = q
        | None \<Rightarrow> is_ascii_whitespace b \<or> b = CHR '','' \<or> b = CHR '';'') buf c)"
    (is "end_from ?P buf c = _ \<or> _")
    using end_from_stop [of c buf ?P] assms(1)
    by (cases q) (auto simp: stop_byte_def assms(2))
  ultimately show ?thesis using assms(1) by (auto simp: assignment_end_def)
qed

lemma assignment_range_placed:
  assumes "assignment_range key buf start = Inr (cursor, e)" "start + length key \<le> length buf"
  shows "well_placed buf cursor e"
proof -
  let ?c = "skip_while (\<lambda>b. is_ascii_whitespace b \<or> is_quote b) buf (start + length key)"
  let ?d = "skip_while is_ascii_whitespace buf (?c + 1)"
  let ?q = "if ?d < length buf \<and> is_quote (buf ! ?d) then Some (buf ! ?d) else None"
  from assms(1) have c: "?c < length buf" "buf ! ?c = CHR ''='' \<or> buf ! ?c = CHR '':''"
    and cur: "cursor = (if ?q \<noteq> None then ?d + 1 else ?d)"
    and e: "e = assignment_end key buf ?q cursor"
    by (auto simp: assignment_range_def Let_def split: if_splits)
  have "sep_byte (buf ! (?d - 1))"
  proof (cases "?c + 1 < ?d")
    case True
    with nth_before_drop_skip [of "?c + 1" is_ascii_whitespace buf] c show ?thesis
      by (simp add: sep_byte_def)
  next
    case False
    then have "?d = ?c + 1" by (simp add: le_antisym not_less)
    with c show ?thesis unfolding sep_byte_def by (metis add_diff_cancel_right')
  qed
  then have "sep_byte (buf ! (cursor - 1))"
    using cur by (auto simp: sep_byte_def split: if_splits)
  moreover have "e = length buf \<or> stop_byte (buf ! e)"
    unfolding e using assignment_range_Inr(2,3) [OF assms]
    by (intro assignment_end_stop) (auto split: if_splits)
  ultimately show ?thesis
    using assignment_range_Inr [OF assms] by (auto simp: well_placed_def)
qed

lemma bearer_placed:
  assumes "occurs_at BEARER buf start"
  shows "well_placed buf (start + 7) (end_from token_end_byte buf (start + 7))"
proof -
  have l: "start + 7 \<le> length buf" using assms by (simp add: occurs_at_def)
  have "lower (buf ! (start + 6)) = CHR '' ''"
    using assms by (simp add: occurs_at_def BEARER_def lower_def is_ascii_uppercase_def)
  then have "buf ! (start + 6) = CHR '' ''"
    by (rule lower_not_letter) (simp add: is_ascii_lowercase_def)
  then have "sep_byte (buf ! (6 + start))" by (simp add: sep_byte_def is_ascii_whitespace_def add.commute)
  then show ?thesis
    using end_from_bounds [OF l, of token_end_byte] end_from_stop [OF l, of token_end_byte] token_end_stop
    by (auto simp: well_placed_def)
qed

lemma prefix_placed:
  assumes "occurs_at p buf start" "p \<in> set TOKEN_PREFIXES"
  shows "well_placed buf start (end_from token_end_byte buf start)"
proof -
  from assms(2) obtain ps where p: "p = CHR ''g'' # ps" by (auto simp: TOKEN_PREFIXES_def)
  have l: "start < length buf" using assms(1) p by (simp add: occurs_at_def)
  have "lower (buf ! start) = lower CHR ''g''"
    using assms(1) p by (auto simp: occurs_at_def)
  then have "lower (buf ! start) = CHR ''g''" by (simp add: lower_def is_ascii_uppercase_def)
  with l end_from_bounds [of start buf token_end_byte] end_from_stop [of start buf token_end_byte] token_end_stop
  show ?thesis by (auto simp: well_placed_def)
qed

lemma assignment_cases:
  assumes "redact_assignment_from key buf search_from = Ret r"
  obtains "find_ascii_case_insensitive buf key search_from = Ret None" "r = buf"
  | start where "find_ascii_case_insensitive buf key search_from = Ret (Some start)"
      "assignment_range key buf start = Inl (start + length key)"
      "redact_assignment_from key buf (start + length key) = Ret r"
  | start c e where "find_ascii_case_insensitive buf key search_from = Ret (Some start)"
      "assignment_range key buf start = Inr (c, e)" "c < e" "well_placed buf c e"
      "replace_range buf c e REDACTED = Ret (splice buf c e)"
      "redact_assignment_from key (splice buf c e) (c + 10) = Ret r"
  | start c e where "find_ascii_case_insensitive buf key search_from = Ret (Some start)"
      "assignment_range key buf start = Inr (c, e)" "\<not> c < e" "redact_assignment_from key buf c = Ret r"
proof -
  have pl: "well_placed buf c e"
    if "find_ascii_case_insensitive buf key search_from = Ret (Some start)"
      "assignment_range key buf start = Inr (c, e)" for start c e
    using find_SomeD(3) [OF that(1)] assignment_range_placed [OF that(2)] by simp
  show ?thesis
    using assms that pl
    by (subst (asm) redact_assignment_from.simps)
      (fastforce split: rust.splits option.splits sum.splits if_splits
        dest: replace_range_Ret assignment_range_Inl)
qed

lemma redact_assignment_redacts:
  "redact_assignment_from key buf search_from = Ret r \<Longrightarrow> redacts buf r"
proof (induction key buf search_from rule: redact_assignment_from.induct)
  case (1 key buf search_from)
  from 1(4) show ?case
  proof (cases rule: assignment_cases)
    case (3 start c e)
    with 1(2) have "redacts (splice buf c e) r" by auto
    with 3 show ?thesis by (auto intro: redacts_step)
  qed (use 1(1,3) redacts_refl in auto)
qed

lemma bearer_cases:
  assumes "redact_bearer_from buf search_from = Ret r"
  obtains "find_ascii_case_insensitive buf BEARER search_from = Ret None" "r = buf"
  | start e where "find_ascii_case_insensitive buf BEARER search_from = Ret (Some start)"
      "e = end_from token_end_byte buf (start + 7)" "start + 7 < e"
      "replace_range buf (start + 7) e REDACTED = Ret (splice buf (start + 7) e)"
      "redact_bearer_from (splice buf (start + 7) e) (start + 17) = Ret r"
  | start where "find_ascii_case_insensitive buf BEARER search_from = Ret (Some start)"
      "\<not> start + 7 < end_from token_end_byte buf (start + 7)"
      "redact_bearer_from buf (start + 17) = Ret r"
  using assms
  by (subst (asm) redact_bearer_from.simps)
    (auto simp: Let_def add.assoc split: rust.splits option.splits if_splits dest: replace_range_Ret)

lemma redact_bearer_redacts: "redact_bearer_from buf search_from = Ret r \<Longrightarrow> redacts buf r"
proof (induction buf search_from rule: redact_bearer_from.induct)
  case (1 buf search_from)
  from 1(3) show ?case
  proof (cases rule: bearer_cases)
    case (2 start e)
    then have "redacts (splice buf (start + 7) e) r" using 1(1) by (auto simp: add.assoc)
    with 2 bearer_placed [OF find_occurs [OF 2(1)]] show ?thesis by (auto intro: redacts_step)
  qed (use 1(2) redacts_refl in \<open>auto simp: add.assoc\<close>)
qed

subsection \<open>No token prefix survives\<close>

lemma occurs_at_contains:
  "map lower n = n \<Longrightarrow> contains (to_ascii_lowercase buf) n \<longleftrightarrow> (\<exists>i. occurs_at n buf i)"
proof
  assume n: "map lower n = n" and "contains (to_ascii_lowercase buf) n"
  then obtain u v where uv: "map lower buf = u @ n @ v"
    by (auto simp: contains_iff to_ascii_lowercase_def)
  have "i < length n \<Longrightarrow> lower (buf ! (length u + i)) = n ! i" for i
    using arg_cong [OF uv, of "\<lambda>s. s ! (length u + i)"] arg_cong [OF uv, of length]
    by (simp add: nth_append)
  moreover have "i < length n \<Longrightarrow> lower (n ! i) = n ! i" for i
    using n by (metis nth_map)
  moreover have "length u + length n \<le> length buf"
    using arg_cong [OF uv, of length] by simp
  ultimately have "occurs_at n buf (length u)" by (simp add: occurs_at_def)
  then show "\<exists>i. occurs_at n buf i" ..
next
  assume n: "map lower n = n" and "\<exists>i. occurs_at n buf i"
  then obtain i where "i + length n \<le> length buf" "map lower (take (length n) (drop i buf)) = n"
    by (auto simp: occurs_at_iff eq_ignore_ascii_case_def)
  then have "map lower buf = map lower (take i buf) @ n @ map lower (drop (i + length n) buf)"
    by (metis add.commute append_take_drop_id drop_drop map_append)
  then show "contains (to_ascii_lowercase buf) n"
    by (auto simp: contains_iff to_ascii_lowercase_def)
qed

lemma prefix_splice_cases:
  assumes "redact_prefix_from prefix buf search_from = Ret r" "prefix \<in> set TOKEN_PREFIXES"
  obtains "find_ascii_case_insensitive buf prefix search_from = Ret None" "r = buf"
  | start e where "find_ascii_case_insensitive buf prefix search_from = Ret (Some start)"
      "e = end_from token_end_byte buf start" "start \<le> e" "e \<le> length buf"
      "replace_range buf start e REDACTED = Ret (splice buf start e)"
      "redact_prefix_from prefix (splice buf start e) (start + 10) = Ret r"
  using assms
  by (subst (asm) redact_prefix_from.simps) (auto split: rust.splits option.splits dest: replace_range_Ret)

lemma redact_prefix_removes:
  assumes "redact_prefix_from prefix buf search_from = Ret r" "prefix \<in> set TOKEN_PREFIXES"
    and "\<And>i. i < search_from \<Longrightarrow> \<not> occurs_at prefix buf i"
  shows "\<not> occurs_at prefix r i"
  using assms
proof (induction prefix buf search_from rule: redact_prefix_from.induct)
  case (1 prefix buf search_from)
  from 1(2,3) show ?case
  proof (cases rule: prefix_splice_cases)
    case 1
    then show ?thesis using "1.prems"(3) find_first [OF 1(1), of i] by (cases "i < search_from") auto
  next
    case (2 start e)
    have before: "\<not> occurs_at prefix buf j" if "j < start" for j
      using "1.prems"(3) find_first [OF 2(1), of j] that by (cases "j < search_from") auto
    have "\<not> occurs_at prefix (splice buf start e) j" if "j < start + 10" for j
      using occurs_at_splice [of prefix start e buf j] "1.prems"(2) 2(3,4) before [of j] that
        unmade_needles(2) [OF "1.prems"(2)]
      by (cases prefix) (auto simp: unmade_def)
    with 1(1) "1.prems"(2) 2 show ?thesis by auto
  qed
qed

lemma redact_prefix_redacts: "redact_prefix_from prefix buf search_from = Ret r \<Longrightarrow> redacts buf r"
proof (induction prefix buf search_from rule: redact_prefix_from.induct)
  case (1 prefix buf search_from)
  show ?case
  proof (cases "prefix \<in> set TOKEN_PREFIXES")
    case False
    with 1(2) show ?thesis by (simp add: redact_prefix_from.simps redacts_refl)
  next
    case True
    with 1(2) show ?thesis
    proof (cases rule: prefix_splice_cases)
      case (2 start e)
      then have "redacts (splice buf start e) r" using 1(1) True by auto
      with 2 prefix_placed [OF find_occurs [OF 2(1)] True] show ?thesis by (auto intro: redacts_step)
    qed (simp add: redacts_refl)
  qed
qed

lemma redacts_keeps_absent:
  "redacts buf r \<Longrightarrow> unmade n \<Longrightarrow> (\<And>i. \<not> occurs_at n buf i) \<Longrightarrow> \<not> occurs_at n r i"
proof (induction rule: redacts.induct)
  case (redacts_step buf a b r)
  have "\<not> occurs_at n (splice buf a b) j" for j
    using occurs_at_splice [of n a b buf j] redacts_step by (auto simp: well_placed_def)
  with redacts_step show ?case by blast
qed blast

lemma redact_assignments_redacts: "redact_assignments ks buf = Ret r \<Longrightarrow> redacts buf r"
  by (induction ks arbitrary: buf)
    (auto simp: rust_bind_Ret redact_assignment_def intro: redacts_refl
      dest!: redact_assignment_redacts intro: redacts_trans)

lemma redact_prefixes_redacts: "redact_prefixes ps buf = Ret r \<Longrightarrow> redacts buf r"
  by (induction ps arbitrary: buf)
    (auto simp: rust_bind_Ret intro: redacts_refl dest!: redact_prefix_redacts intro: redacts_trans)

lemma redact_prefixes_remove:
  "redact_prefixes ps buf = Ret r \<Longrightarrow> set ps \<subseteq> set TOKEN_PREFIXES \<Longrightarrow> p \<in> set ps \<Longrightarrow> \<not> occurs_at p r i"
proof (induction ps arbitrary: buf)
  case (Cons q ps)
  from Cons.prems(1) obtain b where b: "redact_prefix_from q buf 0 = Ret b" "redact_prefixes ps b = Ret r"
    by (auto simp: rust_bind_Ret)
  show ?case
  proof (cases "p \<in> set ps")
    case True
    with Cons b show ?thesis by auto
  next
    case False
    with Cons.prems have p: "p = q" "p \<in> set TOKEN_PREFIXES" by auto
    have "\<not> occurs_at p b j" for j
      using redact_prefix_removes [OF b(1), of j] p by auto
    with redacts_keeps_absent [OF redact_prefixes_redacts [OF b(2)], of p i] p show ?thesis by auto
  qed
qed simp

lemma token_prefixes_lower: "p \<in> set TOKEN_PREFIXES \<Longrightarrow> map lower p = p"
proof -
  have "list_all (\<lambda>p. map lower p = p) TOKEN_PREFIXES" by code_simp
  then show "p \<in> set TOKEN_PREFIXES \<Longrightarrow> map lower p = p" by (auto simp: list_all_iff)
qed

lemma redact_line_Ret:
  "redact_line line = Ret r \<longleftrightarrow>
     (\<exists>b c. redact_assignments SENSITIVE_KEYS line = Ret b \<and> redact_bearer_tokens b = Ret c
        \<and> redact_prefixes TOKEN_PREFIXES c = Ret r)"
  by (auto simp: redact_line_def rust_bind_Ret redact_prefixed_tokens_def)

lemma redact_line_redacts: "redact_line line = Ret r \<Longrightarrow> redacts line r"
  by (auto simp: redact_line_Ret redact_bearer_tokens_def
      intro: redacts_trans dest!: redact_assignments_redacts redact_bearer_redacts redact_prefixes_redacts)

lemma redact_line_token_prefix:
  assumes "redact_line line = Ret r" and "p \<in> set TOKEN_PREFIXES"
  shows "\<not> contains (to_ascii_lowercase r) p"
proof -
  from assms(1) obtain c where "redact_prefixes TOKEN_PREFIXES c = Ret r"
    by (auto simp: redact_line_Ret)
  from redact_prefixes_remove [OF this] assms(2) token_prefixes_lower [of p] show ?thesis
    by (auto simp: occurs_at_contains)
qed

text \<open>C9: a line the redactor returns contains none of the GitHub token prefixes, in any letter case.\<close>

theorem redact_line_no_token_prefix:
  assumes "redact_line line = Ret r" and "p \<in> set TOKEN_PREFIXES"
  shows "\<not> contains (to_ascii_lowercase r) p"
  using assms by (rule redact_line_token_prefix)

theorem redact_line_no_token_prefix_witness:
  "redact_line ''clone GHP_abc,ok'' = Ret ''clone [REDACTED],ok''
   \<and> \<not> contains (to_ascii_lowercase ''clone [REDACTED],ok'') ''ghp_''"
proof -
  have r: "redact_line ''clone GHP_abc,ok'' = Ret ''clone [REDACTED],ok''" by code_simp
  from redact_line_no_token_prefix [OF r, of "''ghp_''"] r show ?thesis by (simp add: TOKEN_PREFIXES_def)
qed


subsection \<open>No panic\<close>

lemma stop_byte_ascii: "stop_byte b \<Longrightarrow> byte b < 128"
  by (auto simp: stop_byte_def is_ascii_whitespace_def is_quote_def)

lemma stop_byte_not_letter: "stop_byte b \<Longrightarrow> \<not> is_ascii_lowercase (lower b)"
  by (auto simp: stop_byte_def is_ascii_whitespace_def is_quote_def lower_def is_ascii_uppercase_def
      is_ascii_lowercase_def)

lemma sep_byte_ascii: "sep_byte b \<Longrightarrow> byte b < 128"
  by (auto simp: sep_byte_def is_ascii_whitespace_def is_quote_def)

lemma lower_g: "lower b = CHR ''g'' \<Longrightarrow> byte b < 128"
  by (auto simp: lower_def is_ascii_uppercase_def split: if_splits)

lemma well_placed_boundary:
  assumes "guarded buf" "well_placed buf a b"
  shows "is_char_boundary buf a" "is_char_boundary buf b" "guarded (splice buf a b)"
proof -
  show "is_char_boundary buf b"
    using assms(2) stop_byte_ascii [of "buf ! b"]
    by (auto simp: well_placed_def is_char_boundary_def is_cont_def)
  show "is_char_boundary buf a"
    using assms(2) guarded_drop_hd [OF assms(1), of a] sep_byte_ascii [of "buf ! (a - 1)"]
      lower_g [of "buf ! a"]
    by (auto simp: well_placed_def is_char_boundary_def is_cont_def)
  have "guarded (take a buf @ drop a buf)" "guarded (take b buf @ drop b buf)"
    using assms(1) by simp_all
  then have g: "guarded (take a buf)" "guarded_from True (drop b buf)"
    by (simp_all only: guarded_append) (cases "drop b buf"; auto split: if_splits)
  have "drop b buf = [] \<or> byte (hd (drop b buf)) < 128"
    using assms(2) stop_byte_ascii [of "buf ! b"]
    by (cases "b < length buf") (auto simp: well_placed_def hd_drop_conv_nth)
  with g(2) have "guarded_from False (drop b buf)"
    by (cases "drop b buf") (auto simp: is_cont_def)
  with g(1) show "guarded (splice buf a b)"
    by (simp add: splice_def guarded_append guarded_from_append REDACTED_def is_cont_def)
qed

lemma redacts_guarded: "redacts buf r \<Longrightarrow> guarded buf \<Longrightarrow> guarded r"
  by (induction rule: redacts.induct) (auto dest: well_placed_boundary(3))

lemma redacts_utf8_valid: "redacts buf r \<Longrightarrow> utf8_valid buf \<Longrightarrow> utf8_valid r"
proof (induction rule: redacts.induct)
  case (redacts_step buf a b r)
  note bd = well_placed_boundary [OF utf8_valid_guarded [OF redacts_step(4)] redacts_step(1)]
  have "utf8_valid REDACTED" by code_simp
  then have "utf8_valid (splice buf a b)"
    unfolding splice_def
    using utf8_valid_take [OF redacts_step(4) bd(1)] utf8_valid_take [OF redacts_step(4) bd(2)]
    by (simp add: utf8_valid_append)
  then show ?case by (rule redacts_step(3))
qed

lemma replace_range_placed:
  "guarded buf \<Longrightarrow> well_placed buf a b \<Longrightarrow> replace_range buf a b REDACTED = Ret (splice buf a b)"
  using well_placed_boundary [of buf a b] by (simp add: replace_range_def splice_def well_placed_def)

lemma find_no_panic: "n \<noteq> [] \<Longrightarrow> from \<le> length buf \<Longrightarrow> find_ascii_case_insensitive buf n from \<noteq> Panic"
  by (simp add: find_ascii_case_insensitive_def)

lemma redact_assignment_returns:
  assumes "guarded buf" "key \<noteq> []" "search_from \<le> length buf"
  shows "redact_assignment_from key buf search_from \<noteq> Panic"
  using assms
proof (induction key buf search_from rule: redact_assignment_from.induct)
  case (1 key buf search_from)
  have f: "find_ascii_case_insensitive buf key search_from \<noteq> Panic"
    using 1 by (simp add: find_no_panic)
  show ?case
  proof (cases "find_ascii_case_insensitive buf key search_from")
    case (Ret x)
    show ?thesis
    proof (cases x)
      case (Some start)
      with Ret have fs: "find_ascii_case_insensitive buf key search_from = Ret (Some start)" by simp
      note b = find_SomeD [OF fs]
      show ?thesis
      proof (cases "assignment_range key buf start")
        case (Inl j)
        with 1 fs b assignment_range_Inl [OF Inl] show ?thesis
          by (subst redact_assignment_from.simps) simp
      next
        case (Inr ce)
        obtain c e where ce: "ce = (c, e)" by (cases ce)
        with Inr have r: "assignment_range key buf start = Inr (c, e)" by simp
        note bounds = assignment_range_Inr [OF r b(3)]
        note placed = assignment_range_placed [OF r b(3)]
        note sp = replace_range_placed [OF "1.prems"(1) placed]
        have "c + 10 \<le> length (splice buf c e)" using bounds by (simp add: nth_splice)
        with 1 fs r sp well_placed_boundary(3) [OF "1.prems"(1) placed] bounds show ?thesis
          by (subst redact_assignment_from.simps) auto
      qed
    qed (simp add: redact_assignment_from.simps Ret)
  qed (use f in simp)
qed

lemma redact_prefix_returns:
  assumes "guarded buf" "search_from \<le> length buf"
  shows "redact_prefix_from prefix buf search_from \<noteq> Panic"
  using assms
proof (induction prefix buf search_from rule: redact_prefix_from.induct)
  case (1 prefix buf search_from)
  show ?case
  proof (cases "prefix \<in> set TOKEN_PREFIXES")
    case False
    then show ?thesis by (simp add: redact_prefix_from.simps)
  next
    case True
    then have "prefix \<noteq> []" using unmade_needles(2) unmade_def by blast
    with 1 have f: "find_ascii_case_insensitive buf prefix search_from \<noteq> Panic"
      by (simp add: find_no_panic)
    show ?thesis
    proof (cases "find_ascii_case_insensitive buf prefix search_from")
      case (Ret x)
      show ?thesis
      proof (cases x)
        case (Some start)
        with Ret have fs: "find_ascii_case_insensitive buf prefix search_from = Ret (Some start)" by simp
        note placed = prefix_placed [OF find_occurs [OF fs] True]
        note sp = replace_range_placed [OF "1.prems"(1) placed]
        have "start + 10 \<le> length (splice buf start (end_from token_end_byte buf start))"
          using placed by (auto simp: well_placed_def splice_def min_absorb2)
        with 1 fs sp well_placed_boundary(3) [OF "1.prems"(1) placed] True show ?thesis
          by (subst redact_prefix_from.simps) auto
      qed (simp add: redact_prefix_from.simps Ret)
    qed (use f in simp)
  qed
qed

lemma redact_assignments_return:
  "guarded buf \<Longrightarrow> [] \<notin> set ks \<Longrightarrow> redact_assignments ks buf \<noteq> Panic"
proof (induction ks arbitrary: buf)
  case (Cons k ks)
  then obtain b where b: "redact_assignment buf k = Ret b"
    using redact_assignment_returns [of buf k 0]
    by (cases "redact_assignment buf k") (auto simp: redact_assignment_def)
  then have "guarded b"
    using Cons.prems(1) by (auto simp: redact_assignment_def dest: redact_assignment_redacts redacts_guarded)
  with Cons b show ?case by simp
qed simp

lemma redact_prefixes_return: "guarded buf \<Longrightarrow> redact_prefixes ps buf \<noteq> Panic"
proof (induction ps arbitrary: buf)
  case (Cons p ps)
  then obtain b where b: "redact_prefix_from p buf 0 = Ret b"
    using redact_prefix_returns [of buf 0 p] by (cases "redact_prefix_from p buf 0") auto
  then have "guarded b" using Cons.prems(1) by (auto dest: redact_prefix_redacts redacts_guarded)
  with Cons b show ?case by simp
qed simp

lemma sensitive_keys_nonempty: "[] \<notin> set SENSITIVE_KEYS"
  by (simp add: SENSITIVE_KEYS_def)

text \<open>A valid UTF-8 line that does not contain \<open>bearer \<close> (in any letter case) is always returned:
  no slice is out of range and no replacement is off a character boundary, whatever the line holds.\<close>

theorem redact_line_no_panic:
  assumes "utf8_valid line" and "\<not> contains (to_ascii_lowercase line) BEARER"
  shows "redact_line line \<noteq> Panic"
proof -
  have g: "guarded line" using assms(1) by (rule utf8_valid_guarded)
  then obtain b where b: "redact_assignments SENSITIVE_KEYS line = Ret b"
    using redact_assignments_return [OF g sensitive_keys_nonempty]
    by (cases "redact_assignments SENSITIVE_KEYS line") auto
  note rd = redact_assignments_redacts [OF b]
  have "map lower BEARER = BEARER" by code_simp
  with assms(2) have "\<not> occurs_at BEARER line i" for i by (auto simp: occurs_at_contains)
  then have nb: "\<not> occurs_at BEARER b i" for i using redacts_keeps_absent [OF rd] by simp
  have "redact_bearer_tokens b = Ret b"
    using nb find_occurs [of b BEARER 0] find_no_panic [of BEARER 0 b]
    by (auto simp: redact_bearer_tokens_def redact_bearer_from.simps split: rust.splits option.splits)
  with b redact_prefixes_return [OF redacts_guarded [OF rd g]] show ?thesis
    by (simp add: redact_line_def redact_prefixed_tokens_def)
qed

theorem redact_line_no_panic_witness:
  "utf8_valid ''password: ghp_x'' \<and> redact_line ''password: ghp_x'' \<noteq> Panic"
proof -
  have u: "utf8_valid ''password: ghp_x''" by code_simp
  have n: "\<not> contains (to_ascii_lowercase ''password: ghp_x'') BEARER" by code_simp
  from u redact_line_no_panic [OF u n] show ?thesis by simp
qed


subsection \<open>Every sensitive assignment is redacted\<close>

text \<open>The specification, on what follows an occurrence of a key: \<open>assigned\<close> reads the delimiter and
  returns the opening quote, if any, and the text from the value on. An assignment is \<open>exposed\<close> when
  its value is not empty and does not start with \<open>[REDACTED]\<close>.\<close>

definition assigned :: "string \<Rightarrow> (char option \<times> string) option" where
  "assigned rest =
     (case dropWhile (\<lambda>b. is_ascii_whitespace b \<or> is_quote b) rest of
        [] \<Rightarrow> None
      | d # after \<Rightarrow>
          if d = CHR ''='' \<or> d = CHR '':'' then
            (case dropWhile is_ascii_whitespace after of
               [] \<Rightarrow> Some (None, [])
             | q # v \<Rightarrow> if is_quote q then Some (Some q, v) else Some (None, q # v))
          else None)"

definition value_end :: "char option \<Rightarrow> char \<Rightarrow> bool" where
  "value_end q b =
     (case q of Some q \<Rightarrow> b = q | None \<Rightarrow> is_ascii_whitespace b \<or> b = CHR '','' \<or> b = CHR '';'')"

definition exposed :: "string \<Rightarrow> bool" where
  "exposed rest =
     (case assigned rest of
        None \<Rightarrow> False
      | Some (q, v) \<Rightarrow> v \<noteq> [] \<and> \<not> value_end q (hd v) \<and> \<not> starts_with v REDACTED)"

definition word_byte :: "char \<Rightarrow> bool" where
  "word_byte b \<longleftrightarrow> is_ascii_alphanumeric b \<or> b = CHR ''_''"

definition leaks_at :: "string \<Rightarrow> string \<Rightarrow> nat \<Rightarrow> bool" where
  "leaks_at key buf i \<longleftrightarrow>
     occurs_at key buf i \<and> (i = 0 \<or> \<not> word_byte (buf ! (i - 1))) \<and> exposed (drop (i + length key) buf)"

lemma drop_skip_while: "drop (skip_while P buf i) buf = dropWhile P (drop i buf)"
  by (simp add: skip_while_def dropWhile_eq_drop add.commute)

lemma drop_cases: "drop i xs = (if i < length xs then xs ! i # drop (Suc i) xs else [])"
  by (simp add: Cons_nth_drop_Suc)

lemma assignment_range_assigned:
  assumes "start = 0 \<or> \<not> word_byte (buf ! (start - 1))"
  shows "case assigned (drop (start + length key) buf) of
           None \<Rightarrow> assignment_range key buf start = Inl (start + length key)
         | Some (q, v) \<Rightarrow> (\<exists>c. assignment_range key buf start = Inr (c, assignment_end key buf q c) \<and> drop c buf = v)"
proof -
  define c where "c = skip_while (\<lambda>b. is_ascii_whitespace b \<or> is_quote b) buf (start + length key)"
  define d where "d = skip_while is_ascii_whitespace buf (Suc c)"
  define delim where "delim \<longleftrightarrow> c < length buf \<and> (buf ! c = CHR ''='' \<or> buf ! c = CHR '':'')"
  define q where "q = (if d < length buf \<and> is_quote (buf ! d) then Some (buf ! d) else None)"
  define c' where "c' = (if q \<noteq> None then Suc d else d)"
  have r1: "dropWhile (\<lambda>b. is_ascii_whitespace b \<or> is_quote b) (drop (start + length key) buf) = drop c buf"
    and r2: "dropWhile is_ascii_whitespace (drop (Suc c) buf) = drop d buf"
    by (simp_all only: drop_skip_while c_def d_def)
  have range: "assignment_range key buf start =
      (if delim then Inr (c', assignment_end key buf q c') else Inl (start + length key))"
    using assms unfolding assignment_range_def Let_def delim_def q_def c'_def d_def c_def word_byte_def
    by (auto simp: word_byte_def)
  have "assigned (drop (start + length key) buf) = (if delim then Some (q, drop c' buf) else None)"
    unfolding assigned_def r1 delim_def q_def c'_def
    by (auto simp: drop_cases [of c] r2 drop_cases [of d])
  with range show ?thesis by auto
qed

lemma value_end_stop: "value_end q b \<Longrightarrow> (\<And>c. q = Some c \<Longrightarrow> is_quote c) \<Longrightarrow> stop_byte b"
  by (cases q) (auto simp: value_end_def stop_byte_def)

lemma value_end_range:
  assumes v: "drop c buf = v" and c: "c \<le> length buf"
    and q: "\<And>b. q = Some b \<Longrightarrow> is_quote b"
  shows "c < assignment_end key buf q c \<longleftrightarrow> v \<noteq> [] \<and> \<not> value_end q (hd v)"
proof (cases "key = ''authorization'' \<and> 7 \<le> length v \<and> eq_ignore_ascii_case (take 7 v) BEARER")
  case True
  then obtain b bs where b: "v = b # bs" "lower b = CHR ''b''"
    by (cases v) (auto simp: eq_ignore_ascii_case_def BEARER_def lower_def [of "CHR ''b''"] is_ascii_uppercase_def)
  have "\<not> value_end q b"
  proof
    assume "value_end q b"
    then have "stop_byte b" using value_end_stop q by blast
    with stop_byte_not_letter [OF this] b(2) show False by (simp add: is_ascii_lowercase_def)
  qed
  moreover have "c < assignment_end key buf q c"
    using True v c end_from_bounds [of "c + 7" buf token_end_byte] by (fastforce simp: assignment_end_def)
  ultimately show ?thesis using b by simp
next
  case False
  then have e: "assignment_end key buf q c = end_from (value_end q) buf c"
    using v by (auto simp: assignment_end_def value_end_def [abs_def])
  show ?thesis
  proof (cases v)
    case Nil
    with v e c end_from_bounds [OF c, of "value_end q"] show ?thesis by (simp add: end_from_def)
  next
    case (Cons b bs)
    with v have "c < length buf" by (metis drop_all leI list.distinct(1))
    with e v Cons show ?thesis by (auto simp: end_from_def split: option.splits)
  qed
qed


text \<open>What a splice leaves exposed starts before it.\<close>

lemma REDACTED_Cons: "REDACTED = CHR ''['' # tl REDACTED"
  by (simp add: REDACTED_def)

lemma bracket_byte [simp]: "\<not> is_ascii_whitespace CHR ''[''" "\<not> is_quote CHR ''[''"
  by (simp_all add: is_ascii_whitespace_def is_quote_def)

lemma not_exposed_REDACTED [simp]: "\<not> exposed (REDACTED @ z)"
  by (subst REDACTED_Cons) (simp add: exposed_def assigned_def)

lemma starts_with_REDACTED_hd: "starts_with v REDACTED \<Longrightarrow> hd v = CHR ''[''"
  by (subst (asm) REDACTED_Cons) (auto simp: starts_with_iff)

definition at_value :: "char option \<Rightarrow> string \<Rightarrow> string \<Rightarrow> bool" where
  "at_value q x w \<longleftrightarrow> w \<noteq> [] \<and> (\<exists>u. x = u @ w) \<and> (\<forall>y. assigned (x @ y) = Some (q, w @ y))"

lemma dropWhile_span:
  obtains u v where "xs = u @ v" "\<And>y. dropWhile P (xs @ y) = (if v = [] then dropWhile P y else v @ y)"
proof -
  have "dropWhile P (xs @ y) = (if dropWhile P xs = [] then dropWhile P y else dropWhile P xs @ y)" for y
    by (induction xs) auto
  then show ?thesis
    using that [of "takeWhile P xs" "dropWhile P xs"] by simp
qed

lemma exposed_before_splice:
  assumes "exposed (x @ REDACTED @ z)"
  obtains q w where "at_value q x w" "\<not> value_end q (hd w)" "\<not> starts_with (w @ REDACTED @ z) REDACTED"
proof -
  let ?s = "\<lambda>b. is_ascii_whitespace b \<or> is_quote b"
  obtain R where R: "REDACTED = CHR ''['' # R" using REDACTED_Cons ..
  obtain x0 x1 where x: "x = x0 @ x1"
    and dw: "\<And>y. dropWhile ?s (x @ y) = (if x1 = [] then dropWhile ?s y else x1 @ y)"
    by (rule dropWhile_span [of x ?s]) blast
  have "x1 \<noteq> []"
  proof
    assume "x1 = []"
    then have "dropWhile ?s (x @ REDACTED @ z) = CHR ''['' # R @ z"
      using dw [of "REDACTED @ z"] unfolding R by simp
    with assms show False by (simp add: exposed_def assigned_def)
  qed
  then obtain d x2 where d: "x1 = d # x2" by (cases x1) auto
  obtain x3 x4 where y: "x2 = x3 @ x4"
    and dw2: "\<And>y. dropWhile is_ascii_whitespace (x2 @ y)
                = (if x4 = [] then dropWhile is_ascii_whitespace y else x4 @ y)"
    by (rule dropWhile_span [of x2 is_ascii_whitespace]) blast
  have delim: "d = CHR ''='' \<or> d = CHR '':''"
    using assms dw [of "REDACTED @ z"] d by (auto simp: exposed_def assigned_def split: if_splits)
  have as: "assigned (x @ y) = (case dropWhile is_ascii_whitespace (x2 @ y) of
               [] \<Rightarrow> Some (None, [])
             | q # v \<Rightarrow> if is_quote q then Some (Some q, v) else Some (None, q # v))" for y
    using dw [of y] d delim by (auto simp: assigned_def)
  have "x4 \<noteq> []"
    using assms as [of "REDACTED @ z"] dw2 [of "REDACTED @ z"] starts_with_append [of REDACTED z]
    by (auto simp: exposed_def R)
  then obtain q w where qw: "x4 = q # w" by (cases x4) auto
  show thesis
  proof (cases "is_quote q")
    case True
    then have a: "assigned (x @ y) = Some (Some q, w @ y)" for y using as [of y] dw2 [of y] qw by simp
    then have w: "w \<noteq> []" using assms a [of "REDACTED @ z"] by (auto simp: exposed_def)
    moreover have "x = (x0 @ d # x3 @ [q]) @ w" using x d y qw by simp
    ultimately show thesis
      using that [of "Some q" w] a assms by (auto simp: at_value_def exposed_def)
  next
    case False
    then have a: "assigned (x @ y) = Some (None, x4 @ y)" for y using as [of y] dw2 [of y] qw by simp
    moreover have "x = (x0 @ d # x3) @ x4" using x d y by simp
    ultimately show thesis
      using that [of None x4] assms qw by (auto simp: at_value_def exposed_def)
  qed
qed

text \<open>A splice inside what follows a key exposes nothing that was not exposed before.\<close>

lemma exposed_splice:
  assumes e: "exposed (x @ REDACTED @ z)"
    and p: "x = [] \<or> sep_byte (last x) \<or> (y \<noteq> [] \<and> lower (hd y) = CHR ''g'')"
  shows "exposed (x @ y)"
proof -
  from e obtain q w where w: "at_value q x w" "\<not> value_end q (hd w)"
    and s: "\<not> starts_with (w @ REDACTED @ z) REDACTED"
    by (rule exposed_before_splice)
  then obtain u where u: "x = u @ w" and wn: "w \<noteq> []" and a: "assigned (x @ y) = Some (q, w @ y)"
    by (auto simp: at_value_def)
  have "\<not> starts_with (w @ y) REDACTED"
  proof
    assume st: "starts_with (w @ y) REDACTED"
    then have "length w < 10"
      using s by (cases "length w < 10") (auto simp: starts_with_def)
    with st wn obtain y' where r: "REDACTED = w @ y'" "take (length y') y = y'" "y' \<noteq> []"
    proof -
      have eq: "REDACTED = w @ take (10 - length w) y"
        using st \<open>length w < 10\<close> by (simp add: starts_with_def)
      moreover have "length (take (10 - length w) y) = 10 - length w"
        using arg_cong [OF eq, of length] by simp
      ultimately show ?thesis
        using that [of "take (10 - length w) y"] \<open>length w < 10\<close> by fastforce
    qed
    then have "last w \<in> set REDACTED" using wn by (metis Un_iff last_in_set set_append)
    moreover have "y \<noteq> [] \<Longrightarrow> hd y \<in> set REDACTED"
      using r(2,3) unfolding r(1) by (cases y; cases y') auto
    moreover have "last x = last w" "x \<noteq> []" using u wn by auto
    moreover have "list_all (\<lambda>b. \<not> sep_byte b \<and> lower b \<noteq> CHR ''g'') REDACTED" by code_simp
    ultimately show False using p by (auto simp: list_all_iff)
  qed
  with a w wn show ?thesis by (simp add: exposed_def)
qed


lemma drop_take_split: "k \<le> a \<Longrightarrow> a \<le> length xs \<Longrightarrow> drop k xs = drop k (take a xs) @ drop a xs"
  using drop_append [of k "take a xs" "drop a xs"] by (simp add: min_absorb2)

lemma leaks_at_splice:
  assumes n: "unmade key" "key \<noteq> []" "is_ascii_lowercase (lower (hd key))"
    and w: "well_placed buf a b" and l: "leaks_at key (splice buf a b) i"
  shows "(i + length key \<le> a \<and> leaks_at key buf i)
       \<or> (a + 10 < i \<and> leaks_at key buf (b + (i - (a + 10))))"
proof -
  from w have ab: "a \<le> b" "b \<le> length buf" by (auto simp: well_placed_def)
  from l have o: "occurs_at key (splice buf a b) i" by (simp add: leaks_at_def)
  from occurs_at_splice [OF n(1) ab o] show ?thesis
  proof
    assume i: "i + length key \<le> a \<and> occurs_at key buf i"
    let ?x = "drop (i + length key) (take a buf)" and ?z = "drop b buf"
    have rest: "drop (i + length key) (splice buf a b) = ?x @ REDACTED @ ?z"
      "drop (i + length key) buf = ?x @ drop a buf"
      using i ab drop_take_split [of "i + length key" a buf] by (simp_all add: splice_def min_absorb2)
    have "?x = [] \<or> last ?x = buf ! (a - 1)"
      using i ab by (auto simp: last_conv_nth min_absorb2 drop_take)
    then have "exposed (?x @ drop a buf)"
      using l w rest exposed_splice [of ?x ?z "drop a buf"]
      by (auto simp: leaks_at_def well_placed_def hd_drop_conv_nth)
    moreover have "i = 0 \<or> splice buf a b ! (i - 1) = buf ! (i - 1)"
      using nth_splice(1) [OF ab, of "i - 1"] i n(2) by (cases i) auto
    ultimately show ?thesis using l i rest by (auto simp: leaks_at_def)
  next
    assume i: "a + 10 \<le> i \<and> occurs_at key buf (b + (i - (a + 10)))"
    let ?j = "b + (i - (a + 10))"
    have "i \<noteq> a + 10"
    proof
      assume "i = a + 10"
      then have o: "occurs_at key buf b" using i by simp
      then have "b < length buf" "lower (buf ! b) = lower (hd key)"
        using n(2) by (cases key; force simp: occurs_at_def)+
      with w stop_byte_not_letter [of "buf ! b"] n(3) show False by (auto simp: well_placed_def)
    qed
    then have gt: "a + 10 < i" using i by simp
    then have "splice buf a b ! (i - 1) = buf ! (?j - 1)"
      using nth_splice(3) [OF ab, of "i - 1"] by (simp add: diff_diff_add)
    moreover have "drop (i + length key) (splice buf a b) = drop (?j + length key) buf"
      using gt ab by (simp add: splice_def min_absorb2 ac_simps)
    ultimately show ?thesis using l i gt by (auto simp: leaks_at_def)
  qed
qed


lemma sensitive_key_shape:
  assumes "key \<in> set SENSITIVE_KEYS"
  shows "key \<noteq> []" "is_ascii_lowercase (lower (hd key))"
    "0 < d \<Longrightarrow> d < length key \<Longrightarrow> map lower (drop d key) \<noteq> map lower (take (length key - d) key)"
proof -
  have "list_all (\<lambda>key. key \<noteq> [] \<and> is_ascii_lowercase (lower (hd key)) \<and>
     list_all (\<lambda>d. map lower (drop d key) \<noteq> map lower (take (length key - d) key)) [1..<length key]) SENSITIVE_KEYS"
    by code_simp
  with assms show "key \<noteq> []" "is_ascii_lowercase (lower (hd key))"
    "0 < d \<Longrightarrow> d < length key \<Longrightarrow> map lower (drop d key) \<noteq> map lower (take (length key - d) key)"
    by (auto simp: list_all_iff)
qed

lemma occurs_at_overlap:
  assumes "key \<in> set SENSITIVE_KEYS" "occurs_at key buf start" "occurs_at key buf i"
    "start < i"
  shows "start + length key \<le> i"
proof (rule ccontr)
  assume "\<not> start + length key \<le> i"
  then have d: "0 < i - start" "i - start < length key" using assms(4) by auto
  have "lower (key ! (i - start + k)) = lower (key ! k)" if "k < length key - (i - start)" for k
  proof -
    have "i - start + k < length key" using that by linarith
    then have "lower (buf ! (start + (i - start + k))) = lower (key ! (i - start + k))"
      using assms(2) unfolding occurs_at_def by blast
    moreover have "lower (buf ! (i + k)) = lower (key ! k)" using assms(3) that by (simp add: occurs_at_def)
    ultimately show ?thesis using assms(4) by simp
  qed
  then have "map lower (drop (i - start) key) = map lower (take (length key - (i - start)) key)"
    by (simp add: list_eq_iff_nth_eq)
  with sensitive_key_shape(3) [OF assms(1) d] show False by simp
qed

lemma skip_while_range: "i \<le> j \<Longrightarrow> j < skip_while P buf i \<Longrightarrow> P (buf ! j)"
proof -
  assume j: "i \<le> j" "j < skip_while P buf i"
  then have k: "j - i < length (takeWhile P (drop i buf))" by (simp add: skip_while_def)
  then have "takeWhile P (drop i buf) ! (j - i) = drop i buf ! (j - i)" by (rule takeWhile_nth)
  with set_takeWhileD [OF nth_mem [OF k]] j k show ?thesis
    using length_takeWhile_le [of P "drop i buf"] by simp
qed

lemma assignment_range_gap:
  assumes "assignment_range key buf start = Inr (cursor, e)" "start + length key \<le> j" "j < cursor"
  shows "sep_byte (buf ! j)"
proof -
  let ?c = "skip_while (\<lambda>b. is_ascii_whitespace b \<or> is_quote b) buf (start + length key)"
  let ?d = "skip_while is_ascii_whitespace buf (?c + 1)"
  from assms(1) have c: "buf ! ?c = CHR ''='' \<or> buf ! ?c = CHR '':''"
    and cur: "cursor = (if ?d < length buf \<and> is_quote (buf ! ?d) then ?d + 1 else ?d)"
    by (auto simp: assignment_range_def Let_def split: if_splits)
  consider "j < ?c" | "j = ?c" | "?c < j" "j < ?d" | "j = ?d" "is_quote (buf ! ?d)"
    using cur assms(3) by (auto split: if_splits) linarith+
  then show ?thesis
  proof cases
    case 1
    with skip_while_range [OF assms(2) 1] show ?thesis by (auto simp: sep_byte_def)
  next
    case 2
    with c show ?thesis unfolding sep_byte_def by blast
  next
    case 3
    with skip_while_range [of "?c + 1" j is_ascii_whitespace buf] show ?thesis by (auto simp: sep_byte_def)
  next
    case 4
    then show ?thesis by (auto simp: sep_byte_def)
  qed
qed

lemma sep_byte_not_letter: "sep_byte b \<Longrightarrow> \<not> is_ascii_lowercase (lower b)"
  by (auto simp: sep_byte_def is_ascii_whitespace_def is_quote_def lower_def is_ascii_uppercase_def
      is_ascii_lowercase_def)

lemma only_start_before_cursor:
  assumes k: "key \<in> set SENSITIVE_KEYS" and o: "occurs_at key buf start"
    and r: "assignment_range key buf start = Inr (c, e)" and j: "occurs_at key buf j" "j < c" "start \<le> j"
  shows "j = start"
proof (rule ccontr)
  assume "j \<noteq> start"
  then have "start + length key \<le> j" using occurs_at_overlap [OF k o j(1)] j(3) by simp
  then have "\<not> is_ascii_lowercase (lower (buf ! j))"
    using assignment_range_gap [OF r _ j(2)] sep_byte_not_letter by blast
  moreover have "lower (buf ! j) = lower (hd key)"
    using j(1) sensitive_key_shape(1) [OF k] by (auto simp: occurs_at_def hd_conv_nth)
  ultimately show False using sensitive_key_shape(2) [OF k] by simp
qed


lemma assignment_Inr_assigned:
  assumes "assignment_range key buf start = Inr (c, e)"
  obtains q where "assigned (drop (start + length key) buf) = Some (q, drop c buf)"
    "e = assignment_end key buf q c"
proof -
  have "start = 0 \<or> \<not> word_byte (buf ! (start - 1))"
    using assms by (auto simp: assignment_range_def word_byte_def split: if_splits)
  from assignment_range_assigned [OF this, of key] assms that show ?thesis
    by (auto split: option.splits)
qed

lemma assigned_quote: "assigned rest = Some (Some q, v) \<Longrightarrow> is_quote q"
  by (auto simp: assigned_def split: list.splits if_splits)

lemma redact_assignment_step:
  assumes k: "key \<in> set SENSITIVE_KEYS" and o: "occurs_at key buf start"
    and b: "\<And>j. j < start \<Longrightarrow> \<not> leaks_at key buf j"
  shows "assignment_range key buf start = Inl n \<Longrightarrow> j < n \<Longrightarrow> \<not> leaks_at key buf j"
    and "assignment_range key buf start = Inr (c, e) \<Longrightarrow> c < e \<Longrightarrow> j < c + 10 \<Longrightarrow> \<not> leaks_at key (splice buf c e) j"
    and "assignment_range key buf start = Inr (c, e) \<Longrightarrow> \<not> c < e \<Longrightarrow> j < c \<Longrightarrow> \<not> leaks_at key buf j"
proof -
  have len: "start + length key \<le> length buf" using o by (simp add: occurs_at_def)
  {
    assume r: "assignment_range key buf start = Inl n" "j < n"
    have "\<not> leaks_at key buf start"
      using r(1) assignment_range_assigned [of start buf key]
      by (cases "start = 0 \<or> \<not> word_byte (buf ! (start - 1))")
        (auto simp: leaks_at_def exposed_def split: option.splits)
    moreover have "j \<le> start \<or> \<not> occurs_at key buf j"
      using occurs_at_overlap [OF k o, of j] r assignment_range_Inl [OF r(1)] by fastforce
    ultimately show "\<not> leaks_at key buf j" using b by (auto simp: leaks_at_def le_less)
  next
    assume r: "assignment_range key buf start = Inr (c, e)" "c < e" "j < c + 10"
    let ?x = "drop (start + length key) (take c buf)"
    note bd = assignment_range_Inr [OF r(1) len]
    from r(1) obtain q where q: "assigned (drop (start + length key) buf) = Some (q, drop c buf)"
      by (rule assignment_Inr_assigned)
    have rest: "drop (start + length key) (splice buf c e) = ?x @ REDACTED @ drop e buf"
      "drop (start + length key) buf = ?x @ drop c buf"
      using bd drop_take_split [of "start + length key" c buf] by (simp_all add: splice_def min_absorb2)
    have st: "\<not> leaks_at key (splice buf c e) start"
    proof
      assume "leaks_at key (splice buf c e) start"
      then have "exposed (?x @ REDACTED @ drop e buf)" by (simp add: leaks_at_def rest)
      then obtain q' w where "at_value q' ?x w" by (rule exposed_before_splice)
      with q rest show False by (auto simp: at_value_def)
    qed
    show "\<not> leaks_at key (splice buf c e) j"
    proof
      assume l: "leaks_at key (splice buf c e) j"
      from leaks_at_splice [OF _ _ _ assignment_range_placed [OF r(1) len] l] r(3) sensitive_key_shape [OF k] k
      have "j + length key \<le> c" "leaks_at key buf j" by auto
      then have "j = start \<or> j < start"
        using only_start_before_cursor [OF k o r(1), of j] sensitive_key_shape(1) [OF k]
        by (cases key) (auto simp: leaks_at_def)
      with st l b \<open>leaks_at key buf j\<close> show False by auto
    qed
  next
    assume r: "assignment_range key buf start = Inr (c, e)" "\<not> c < e" "j < c"
    from r(1) obtain q where q: "assigned (drop (start + length key) buf) = Some (q, drop c buf)"
      "e = assignment_end key buf q c" by (rule assignment_Inr_assigned)
    have "\<not> exposed (drop (start + length key) buf)"
      using r(2) q value_end_range [of c buf "drop c buf" q key] assigned_quote
        assignment_range_Inr(2,3) [OF r(1) len]
      by (auto simp: exposed_def)
    then show "\<not> leaks_at key buf j"
      using only_start_before_cursor [OF k o r(1) _ r(3)] b
      by (cases "j < start") (auto simp: leaks_at_def)
  }
qed

lemma redact_assignment_clean:
  assumes "redact_assignment_from key buf search_from = Ret r" "key \<in> set SENSITIVE_KEYS"
    and "\<And>i. i < search_from \<Longrightarrow> \<not> leaks_at key buf i"
  shows "\<not> leaks_at key r i"
  using assms
proof (induction key buf search_from rule: redact_assignment_from.induct)
  case (1 key buf search_from)
  have before: "\<not> leaks_at key buf j"
    if "find_ascii_case_insensitive buf key search_from = Ret (Some start)" "j < start" for start j
    using find_first [OF that(1), of j] that(2) "1.prems"(3) by (cases "j < search_from") (auto simp: leaks_at_def)
  note step = redact_assignment_step [OF "1.prems"(2) find_occurs before]
  from "1.prems"(1) show ?case
  proof (cases rule: assignment_cases)
    case 1
    with "1.prems"(3) find_first [OF 1(1), of i] show ?thesis
      by (cases "i < search_from") (auto simp: leaks_at_def)
  next
    case (2 start)
    with 1(1) "1.prems"(2) step(1) [OF 2(1) 2(1) _ 2(2)] show ?thesis by auto
  next
    case (3 start c e)
    with 1(2) "1.prems"(2) step(2) [OF 3(1) 3(1) _ 3(2,3)] show ?thesis by auto
  next
    case (4 start c e)
    with 1(3) "1.prems"(2) step(3) [OF 4(1) 4(1) _ 4(2,3)] show ?thesis by auto
  qed
qed


lemma redacts_keeps_clean:
  assumes "redacts buf r" "key \<in> set SENSITIVE_KEYS" "\<And>i. \<not> leaks_at key buf i"
  shows "\<not> leaks_at key r i"
  using assms
proof (induction rule: redacts.induct)
  case (redacts_step buf a b r)
  have "\<not> leaks_at key (splice buf a b) j" for j
    using leaks_at_splice [of key buf a b j] redacts_step sensitive_key_shape [of key] by auto
  with redacts_step show ?case by blast
qed blast

lemma redact_assignments_clean:
  assumes "redact_assignments ks buf = Ret r" "set ks \<subseteq> set SENSITIVE_KEYS" "key \<in> set ks"
  shows "\<not> leaks_at key r i"
  using assms
proof (induction ks arbitrary: buf)
  case (Cons k ks)
  from Cons.prems(1) obtain b where b: "redact_assignment_from k buf 0 = Ret b" "redact_assignments ks b = Ret r"
    by (auto simp: rust_bind_Ret redact_assignment_def)
  show ?case
  proof (cases "key \<in> set ks")
    case True
    with Cons b show ?thesis by auto
  next
    case False
    with Cons.prems have p: "key = k" "key \<in> set SENSITIVE_KEYS" by auto
    have "\<not> leaks_at key b j" for j
      using redact_assignment_clean [OF b(1), of j] p by auto
    with redacts_keeps_clean [OF redact_assignments_redacts [OF b(2)] p(2), of i] show ?thesis by auto
  qed
qed simp

text \<open>C10: wherever, in a line the redactor returns, a sensitive key stands alone (no letter, digit or
  underscore before it) and an assignment follows it, the assigned value is empty or starts with
  \<open>[REDACTED]\<close>.\<close>

theorem redact_line_no_exposed_assignment:
  assumes "redact_line line = Ret (before @ k @ rest)"
    and "key \<in> set SENSITIVE_KEYS" and "eq_ignore_ascii_case k key"
    and "before = [] \<or> \<not> word_byte (last before)"
  shows "\<not> exposed rest"
proof -
  let ?r = "before @ k @ rest"
  from assms(1) obtain b c where b: "redact_assignments SENSITIVE_KEYS line = Ret b"
    "redact_bearer_from b 0 = Ret c" "redact_prefixes TOKEN_PREFIXES c = Ret ?r"
    by (auto simp: redact_line_Ret redact_bearer_tokens_def)
  have "redacts b ?r"
    using redacts_trans [OF redact_bearer_redacts redact_prefixes_redacts, OF b(2,3)] .
  then have n: "\<not> leaks_at key ?r (length before)"
    using redacts_keeps_clean redact_assignments_clean [OF b(1)] assms(2) by blast
  have l: "length k = length key" using assms(3) by (rule eq_ignore_ascii_case_length)
  have "occurs_at key ?r (length before)"
    using assms(3) l by (simp add: occurs_at_iff)
  moreover have "before = [] \<or> ?r ! (length before - 1) = last before"
    by (cases "before = []") (simp_all add: nth_append last_conv_nth)
  ultimately show ?thesis
    using n assms(4) l by (auto simp: leaks_at_def)
qed

theorem redact_line_no_exposed_assignment_witness:
  "redact_line ''x Password = 'a b' token=t'' = Ret ''x Password = '[REDACTED]' token=[REDACTED]''
   \<and> \<not> exposed '' = '[REDACTED]' token=[REDACTED]''"
proof -
  have r: "redact_line ''x Password = 'a b' token=t''
           = Ret (''x '' @ ''Password'' @ '' = '[REDACTED]' token=[REDACTED]'')" by code_simp
  have "\<not> exposed '' = '[REDACTED]' token=[REDACTED]''"
  proof (rule redact_line_no_exposed_assignment [OF r, of "''password''"])
    show "''password'' \<in> set SENSITIVE_KEYS" by (simp add: SENSITIVE_KEYS_def)
    show "eq_ignore_ascii_case ''Password'' ''password''" by code_simp
    show "''x '' = [] \<or> \<not> word_byte (last ''x '')" by code_simp
  qed
  with r show ?thesis by simp
qed



end
