(* ===== verification/Protocol.thy ===== *)
theory Protocol
  imports Rust_Prelude
begin

text \<open>
  The contract with the control plane, \<^verbatim>\<open>crates/sakala-agent-protocol/src\<close>: the enums are datatypes
  with a prefix per enum (two enums have a \<^verbatim>\<open>Running\<close>), the structs are records with a prefix per
  struct. A \<^verbatim>\<open>serde_json::Value\<close> is a \<open>json\<close>. The serde deserialisers of the payloads are generated code
  and are parameters wherever they are used (the record \<open>codec\<close>); so is the text form of a UUID.

  Also here: the transitions of a command (\<^verbatim>\<open>commands/lifecycle.rs\<close>).
\<close>

subsection \<open>JSON values\<close>

datatype json =
    JNull
  | JBool bool
  | JInt int
  | JFloat string
  | JString string
  | JArray "json list"
  | JObject "(string \<times> json) list"

definition json_get :: "json \<Rightarrow> string \<Rightarrow> json option" where
  "json_get v k = (case v of JObject kvs \<Rightarrow> map_of kvs k | _ \<Rightarrow> None)"

definition as_u64 :: "json \<Rightarrow> nat option" where
  "as_u64 v = (case v of JInt i \<Rightarrow> if 0 \<le> i \<and> i \<le> int u64_max then Some (nat i) else None | _ \<Rightarrow> None)"

definition as_str :: "json \<Rightarrow> string option" where
  "as_str v = (case v of JString s \<Rightarrow> Some s | _ \<Rightarrow> None)"

definition jstr :: "string option \<Rightarrow> json" where
  "jstr s = (case s of None \<Rightarrow> JNull | Some t \<Rightarrow> JString t)"

subsection \<open>Commands\<close>

datatype DesiredWorkloadState = Workload_Running | Workload_Stopped | Workload_Missing

datatype ReconcileWorkloadAction = RestartLogFollower | CleanupFailedCandidate | RestoreRoute

record ReconcileWorkloadPayload =
  rwp_desired_state :: DesiredWorkloadState
  rwp_actions :: "ReconcileWorkloadAction list"

datatype RuntimeCleanupTarget = StaleWorkspaces | StaleImages | StaleRoutes

record CleanupRuntimePayload =
  crp_approved :: bool
  crp_targets :: "RuntimeCleanupTarget list"

datatype CommandType =
    InspectProject | DeployProject | RestartProject | StopProject | SleepProject | WakeProject
  | HealthCheck | RefreshRoute | ReconcileWorkload | CleanupRuntime | DrainNode | ResumeNode

datatype CommandStatus =
    Status_Pending | Status_Claimed | Status_Running | Status_Succeeded | Status_Failed
  | Status_Cancelled | Status_Expired

datatype NodeStatus =
  Node_Ready | Node_Busy | Node_Degraded | Node_Draining | Node_Drained | Node_Maintenance

record AgentCommand =
  cmd_id :: uuid
  cmd_type :: CommandType
  cmd_status :: CommandStatus
  cmd_project_id :: "uuid option"
  cmd_deployment_id :: "uuid option"
  cmd_payload :: json

text \<open>\<^verbatim>\<open>#[serde(rename_all = "PascalCase")]\<close> keeps the names of the variants.\<close>

fun status_text :: "CommandStatus \<Rightarrow> string" where
  "status_text Status_Pending = ''Pending''"
| "status_text Status_Claimed = ''Claimed''"
| "status_text Status_Running = ''Running''"
| "status_text Status_Succeeded = ''Succeeded''"
| "status_text Status_Failed = ''Failed''"
| "status_text Status_Cancelled = ''Cancelled''"
| "status_text Status_Expired = ''Expired''"

subsection \<open>Deployments and inspections\<close>

datatype RepositoryAccess = Public | TemporaryCredential

datatype DeploymentBuilder = Builder_Auto | Builder_Dockerfile | Builder_Railpack

record RuntimeResourceLimits =
  rl_memory_mb :: "u64 option"
  rl_cpu_millis :: "u32 option"
  rl_pids_limit :: "u32 option"

record RuntimeTimeoutLimits =
  tl_build_timeout_seconds :: "u64 option"
  tl_start_timeout_seconds :: "u64 option"
  tl_command_timeout_seconds :: "u64 option"

record LogBounds =
  lb_max_line_length :: "u64 option"
  lb_max_batch_lines :: "u64 option"
  lb_max_total_bytes :: "u64 option"

record AppliedRuntimeResources =
  ar_memory_mb :: u64
  ar_cpu_millis :: u32
  ar_pids_limit :: u32

datatype FinalizationDeferredReason = GraceElapsed | RuntimeError

record DeployProjectResult =
  dpr_requested_resources :: RuntimeResourceLimits
  dpr_applied_resources :: AppliedRuntimeResources
  dpr_finalization_deferred :: bool
  dpr_finalization_deferred_reason :: "FinalizationDeferredReason option"

text \<open>The \<^verbatim>\<open>environment\<close> is a \<^verbatim>\<open>BTreeMap\<close>: its entries in key order.\<close>

record DeployProjectPayload =
  dp_repository_url :: string
  dp_commit_sha :: string
  dp_repository_access :: RepositoryAccess
  dp_domain :: string
  dp_container_port :: u16
  dp_builder :: DeploymentBuilder
  dp_environment :: "(string \<times> string) list"
  dp_resources :: RuntimeResourceLimits
  dp_timeouts :: RuntimeTimeoutLimits
  dp_log_bounds :: LogBounds

record InspectProjectPayload =
  ip_repository_url :: string
  ip_commit_sha :: string
  ip_repository_access :: RepositoryAccess

record ProjectInspection =
  pi_repository_url :: string
  pi_commit_sha :: string
  pi_dockerfile_found :: bool
  pi_env_example_found :: bool
  pi_compose_found :: bool
  pi_manifests :: "string list"
  pi_package_manager :: "string option"
  pi_railpack :: json

subsection \<open>Reports and heartbeats\<close>

datatype DeploymentEventLevel = Level_Info | Level_Warning | Level_Error

record DeploymentEvent =
  ev_event_type :: string
  ev_level :: DeploymentEventLevel
  ev_message :: string
  ev_metadata :: json
  ev_occurred_at :: timestamp

datatype LogStream = Stdout | Stderr | System

record DeploymentLog =
  log_stream :: LogStream
  log_message :: string
  log_recorded_at :: timestamp

record NodeInfo =
  ni_hostname :: string
  ni_runtime_network :: string
  ni_capabilities :: "string list"

datatype DesiredNodeLifecycleState =
  Desired_Active | Desired_Draining | Desired_Drained | Desired_Maintenance

record HeartbeatPayload =
  hb_status :: NodeStatus
  hb_node :: NodeInfo
  hb_metadata :: json
  hb_sent_at :: timestamp

text \<open>The generated deserialisers of the payloads, and the text form of a UUID.\<close>

record codec =
  de_deploy :: "json \<Rightarrow> string + DeployProjectPayload"
  de_inspect :: "json \<Rightarrow> string + InspectProjectPayload"
  de_reconcile :: "json \<Rightarrow> string + ReconcileWorkloadPayload"
  de_cleanup :: "json \<Rightarrow> string + CleanupRuntimePayload"
  uuid_str :: "uuid \<Rightarrow> string"

definition deploy_payload :: "codec \<Rightarrow> AgentCommand \<Rightarrow> string + DeployProjectPayload" where
  "deploy_payload C cmd = de_deploy C (cmd_payload cmd)"

definition inspect_payload :: "codec \<Rightarrow> AgentCommand \<Rightarrow> string + InspectProjectPayload" where
  "inspect_payload C cmd = de_inspect C (cmd_payload cmd)"

definition reconcile_workload_payload :: "codec \<Rightarrow> AgentCommand \<Rightarrow> string + ReconcileWorkloadPayload" where
  "reconcile_workload_payload C cmd = de_reconcile C (cmd_payload cmd)"

definition cleanup_runtime_payload :: "codec \<Rightarrow> AgentCommand \<Rightarrow> string + CleanupRuntimePayload" where
  "cleanup_runtime_payload C cmd = de_cleanup C (cmd_payload cmd)"

subsection \<open>Transitions of a command\<close>

definition can_transition :: "CommandStatus \<Rightarrow> CommandStatus \<Rightarrow> bool" where
  "can_transition from to =
     ((from, to) \<in> {(Status_Pending, Status_Claimed), (Status_Claimed, Status_Running),
        (Status_Running, Status_Succeeded), (Status_Running, Status_Failed),
        (Status_Pending, Status_Cancelled), (Status_Pending, Status_Expired)})"

definition terminal :: "CommandStatus \<Rightarrow> bool" where
  "terminal s \<longleftrightarrow> s \<in> {Status_Succeeded, Status_Failed, Status_Cancelled, Status_Expired}"

fun status_rank :: "CommandStatus \<Rightarrow> nat" where
  "status_rank Status_Pending = 0"
| "status_rank Status_Claimed = 1"
| "status_rank Status_Running = 2"
| "status_rank _ = 3"

lemma can_transition_rank: "can_transition s t \<Longrightarrow> status_rank s < status_rank t"
  by (auto simp: can_transition_def)

lemma can_transition_plus_rank: "can_transition\<^sup>+\<^sup>+ s t \<Longrightarrow> status_rank s < status_rank t"
  by (induction rule: tranclp_induct) (auto dest: can_transition_rank)

text \<open>The life of a command: exactly the terminal states have no successor, no status is reachable
  from itself, and success or failure is only reached through \<open>Claimed\<close> and then \<open>Running\<close>.\<close>

theorem command_lifecycle:
  "(terminal s \<longleftrightarrow> (\<nexists>t. can_transition s t))
   \<and> \<not> can_transition\<^sup>+\<^sup>+ s s
   \<and> ({u. can_transition u Status_Succeeded} = {Status_Running}
      \<and> {u. can_transition u Status_Failed} = {Status_Running}
      \<and> {u. can_transition u Status_Running} = {Status_Claimed}
      \<and> {u. can_transition u Status_Claimed} = {Status_Pending})"
proof (intro conjI)
  show "terminal s \<longleftrightarrow> (\<nexists>t. can_transition s t)"
    by (cases s) (auto simp: terminal_def can_transition_def)
  show "\<not> can_transition\<^sup>+\<^sup>+ s s"
    using can_transition_plus_rank by blast
qed (auto simp: can_transition_def)

end
