(* ===== verification/Core_State.thy ===== *)
theory Core_State
  imports Protocol
begin

text \<open>
  The small shared pieces of \<^verbatim>\<open>sakala-agent-core\<close>: the lifecycle state of the node
  (\<^verbatim>\<open>node_state.rs\<close>), the retry policy (\<^verbatim>\<open>support/retry.rs\<close>), the scheduler counters
  (\<^verbatim>\<open>scheduler/metrics.rs\<close>), the errors (\<^verbatim>\<open>error.rs\<close>, \<^verbatim>\<open>ports/runtime.rs\<close>) and the data of the ports.

  The atomics are plain values: each operation of the source is one load, store or read-modify-write.
  \<^verbatim>\<open>AtomicUsize\<close> counters are 64-bit words, since \<^verbatim>\<open>fetch_sub\<close> wraps.
\<close>

subsection \<open>Lifecycle state of the node\<close>

datatype NodeLifecycleState = Active | Draining | Drained | Maintenance

fun lifecycle_as_u8 :: "NodeLifecycleState \<Rightarrow> 8 word" where
  "lifecycle_as_u8 Active = 0"
| "lifecycle_as_u8 Draining = 1"
| "lifecycle_as_u8 Drained = 2"
| "lifecycle_as_u8 Maintenance = 3"

definition lifecycle_from_u8 :: "8 word \<Rightarrow> NodeLifecycleState" where
  "lifecycle_from_u8 v =
     (if v = 1 then Draining else if v = 2 then Drained else if v = 3 then Maintenance else Active)"

record NodeLifecycle =
  nl_state :: "8 word"

definition lifecycle_with_state :: "NodeLifecycleState \<Rightarrow> NodeLifecycle" where
  "lifecycle_with_state s = \<lparr>nl_state = lifecycle_as_u8 s\<rparr>"

definition lifecycle_new :: NodeLifecycle where
  "lifecycle_new = lifecycle_with_state Active"

definition lifecycle_state :: "NodeLifecycle \<Rightarrow> NodeLifecycleState" where
  "lifecycle_state l = lifecycle_from_u8 (nl_state l)"

definition lifecycle_set :: "NodeLifecycle \<Rightarrow> NodeLifecycleState \<Rightarrow> NodeLifecycle" where
  "lifecycle_set l s = l\<lparr>nl_state := lifecycle_as_u8 s\<rparr>"

definition accepts_workload_commands :: "NodeLifecycle \<Rightarrow> bool" where
  "accepts_workload_commands l \<longleftrightarrow> lifecycle_state l = Active"

fun lifecycle_from_desired :: "DesiredNodeLifecycleState \<Rightarrow> NodeLifecycleState" where
  "lifecycle_from_desired Desired_Active = Active"
| "lifecycle_from_desired Desired_Draining = Draining"
| "lifecycle_from_desired Desired_Drained = Drained"
| "lifecycle_from_desired Desired_Maintenance = Maintenance"

lemma lifecycle_state_with [simp]: "lifecycle_state (lifecycle_with_state s) = s"
  by (cases s) (simp_all add: lifecycle_state_def lifecycle_with_state_def lifecycle_from_u8_def)

lemma lifecycle_state_set [simp]: "lifecycle_state (lifecycle_set l s) = s"
  by (cases s) (simp_all add: lifecycle_state_def lifecycle_set_def lifecycle_from_u8_def)

lemma accepts_set [simp]: "accepts_workload_commands (lifecycle_set l s) \<longleftrightarrow> s = Active"
  by (simp add: accepts_workload_commands_def)

subsection \<open>Retry policy\<close>

record RetryPolicy =
  rp_max_attempts :: u32
  rp_base_delay :: duration
  rp_max_delay :: duration

definition default_retry_policy :: RetryPolicy where
  "default_retry_policy =
     \<lparr>rp_max_attempts = 3, rp_base_delay = from_millis 500, rp_max_delay = from_secs 5\<rparr>"

definition none_retry_policy :: RetryPolicy where
  "none_retry_policy = \<lparr>rp_max_attempts = 1, rp_base_delay = 0, rp_max_delay = 0\<rparr>"

text \<open>\<^verbatim>\<open>u32::saturating_pow\<close>.\<close>

definition saturating_pow :: "nat \<Rightarrow> nat \<Rightarrow> nat" where
  "saturating_pow b e = min (b ^ e) u32_max"

definition exponential_delay :: "nat \<Rightarrow> duration \<Rightarrow> duration \<Rightarrow> duration" where
  "exponential_delay attempt base maximum =
     (let multiplier = saturating_pow 2 (min attempt 16)
      in min (duration_saturating_mul base multiplier) maximum)"

definition delay_after :: "RetryPolicy \<Rightarrow> nat \<Rightarrow> duration" where
  "delay_after p failed_attempt = exponential_delay failed_attempt (rp_base_delay p) (rp_max_delay p)"

lemma saturating_pow_le: "a \<le> b \<Longrightarrow> saturating_pow 2 (min a 16) \<le> saturating_pow 2 (min b 16)"
  by (simp add: saturating_pow_def min_le_iff_disj power_increasing)

text \<open>The back-off never exceeds its maximum, never decreases from one attempt to the next, doubles
  as long as neither the maximum nor the sixteenth attempt is reached, and is constant from then on.\<close>

theorem exponential_delay_bounded:
  "exponential_delay n base maximum \<le> maximum
   \<and> exponential_delay n base maximum \<le> exponential_delay (n + k) base maximum
   \<and> exponential_delay (16 + k) base maximum = exponential_delay 16 base maximum
   \<and> (16 < n \<or> duration_max < base * 2 ^ n \<or> maximum < base * 2 ^ n
      \<or> exponential_delay n base maximum = base * 2 ^ n)"
proof (intro conjI)
  show "exponential_delay n base maximum \<le> exponential_delay (n + k) base maximum"
    using saturating_pow_le [of n "n + k"]
    by (auto simp: exponential_delay_def Let_def duration_saturating_mul_def min_le_iff_disj)
  have "(2::nat) ^ n \<le> u32_max" if "n \<le> 16"
  proof -
    have "(2::nat) ^ n \<le> 2 ^ 16" using that by (rule power_increasing) simp
    then show ?thesis by (simp add: u32_max_def)
  qed
  then show "16 < n \<or> duration_max < base * 2 ^ n \<or> maximum < base * 2 ^ n
      \<or> exponential_delay n base maximum = base * 2 ^ n"
    by (auto simp: exponential_delay_def saturating_pow_def duration_saturating_mul_def min_def Let_def)
qed (simp_all add: exponential_delay_def)

subsection \<open>Scheduler counters\<close>

record SchedulerMetrics =
  sm_active_commands :: u64
  sm_capacity_waiting_commands :: u64

definition metrics_default :: SchedulerMetrics where
  "metrics_default = \<lparr>sm_active_commands = 0, sm_capacity_waiting_commands = 0\<rparr>"

definition command_started :: "SchedulerMetrics \<Rightarrow> SchedulerMetrics" where
  "command_started m = m\<lparr>sm_active_commands := sm_active_commands m + 1\<rparr>"

definition command_finished :: "SchedulerMetrics \<Rightarrow> SchedulerMetrics" where
  "command_finished m = m\<lparr>sm_active_commands := sm_active_commands m - 1\<rparr>"

definition begin_poll :: "SchedulerMetrics \<Rightarrow> SchedulerMetrics" where
  "begin_poll m = m\<lparr>sm_capacity_waiting_commands := 0\<rparr>"

definition command_deferred :: "SchedulerMetrics \<Rightarrow> SchedulerMetrics" where
  "command_deferred m = m\<lparr>sm_capacity_waiting_commands := sm_capacity_waiting_commands m + 1\<rparr>"

definition queued_local_commands :: "SchedulerMetrics \<Rightarrow> nat" where
  "queued_local_commands m = 0"

subsection \<open>Errors\<close>

record RuntimeExecutionError =
  ree_code :: string
  ree_message :: string

definition ree_new :: "string \<Rightarrow> string \<Rightarrow> RuntimeExecutionError" where
  "ree_new code message = \<lparr>ree_code = code, ree_message = message\<rparr>"

definition ree_reporting :: "string \<Rightarrow> RuntimeExecutionError" where
  "ree_reporting message = ree_new ''runtime_reporting_failed'' message"

definition ree_invalid_command :: "string \<Rightarrow> RuntimeExecutionError" where
  "ree_invalid_command message = ree_new ''invalid_runtime_command'' message"

definition ree_unsupported_command :: "string \<Rightarrow> RuntimeExecutionError" where
  "ree_unsupported_command message = ree_new ''unsupported_runtime_command'' message"

text \<open>What the agent asks of a \<^verbatim>\<open>reqwest::Error\<close>: the four kinds it retries, and its text.\<close>

record http_error =
  he_connect :: bool
  he_timeout :: bool
  he_request :: bool
  he_body :: bool
  he_text :: string

datatype CoreError =
    InvalidConfiguration string
  | Api http_error
  | CommandNotClaimable
  | CommandTerminalConflict string
  | ReportRejected nat string
  | InvalidReportAcknowledgement string
  | Runtime RuntimeExecutionError

fun core_error_text :: "CoreError \<Rightarrow> string" where
  "core_error_text (InvalidConfiguration m) = ''invalid agent configuration: '' @ m"
| "core_error_text (Api e) = ''control-plane API request failed: '' @ he_text e"
| "core_error_text CommandNotClaimable = ''control-plane command is no longer claimable''"
| "core_error_text (CommandTerminalConflict m) =
     ''control-plane command already reached incompatible terminal state: '' @ m"
| "core_error_text (ReportRejected status detail) =
     ''control-plane rejected report with HTTP '' @ dec status @ '': '' @ detail"
| "core_error_text (InvalidReportAcknowledgement m) =
     ''control-plane report acknowledgement is invalid: '' @ m"
| "core_error_text (Runtime e) = ''runtime execution failed: '' @ ree_message e"

fun stops_report_delivery :: "CoreError \<Rightarrow> bool" where
  "stops_report_delivery (CommandTerminalConflict _) = True"
| "stops_report_delivery (ReportRejected _ _) = True"
| "stops_report_delivery (InvalidReportAcknowledgement _) = True"
| "stops_report_delivery _ = False"

subsection \<open>Data of the ports\<close>

record RepositoryCredential =
  rc_username :: string
  rc_token :: string

record RuntimeOrphan =
  ro_container_id :: string
  ro_project_id :: "uuid option"
  ro_reason :: string

record RuntimeStaleRoute =
  sr_path :: string
  sr_project_id :: uuid
  sr_deployment_id :: "uuid option"

record RuntimeStaleImage =
  si_image_id :: string
  si_project_id :: "uuid option"
  si_deployment_id :: "uuid option"

record RuntimeCompatibilityIssue =
  ci_container_id :: string
  ci_project_id :: uuid
  ci_deployment_id :: uuid
  ci_reason :: string

record RuntimeWorkload =
  wl_container_id :: string
  wl_project_id :: uuid
  wl_deployment_id :: uuid
  wl_status :: string

record RuntimeHealthSnapshot =
  hs_workload :: RuntimeWorkload
  hs_ready :: bool
  hs_reason :: "string option"

record RuntimeCapacity =
  cap_active_workloads :: "nat option"
  cap_stopped_workloads :: "nat option"
  cap_maximum_active_workloads :: "nat option"
  cap_active_builds :: "nat option"
  cap_maximum_concurrent_builds :: "nat option"

definition available_workload_slots :: "RuntimeCapacity \<Rightarrow> nat option" where
  "available_workload_slots c =
     (case (cap_maximum_active_workloads c, cap_active_workloads c) of
        (Some maximum, Some active) \<Rightarrow> Some (maximum - active)
      | _ \<Rightarrow> None)"

record RuntimeReconciliationReport =
  rr_inspected_containers :: nat
  rr_cleaned_workspaces :: nat
  rr_reclaimed_image_bytes :: nat
  rr_workloads :: "RuntimeWorkload list"
  rr_orphans :: "RuntimeOrphan list"
  rr_stale_routes :: "RuntimeStaleRoute list"
  rr_stale_images :: "RuntimeStaleImage list"
  rr_reattached_log_followers :: nat
  rr_recovered_execution_records :: nat
  rr_compatibility_issues :: "RuntimeCompatibilityIssue list"

record RuntimePreflightCheck =
  pc_name :: string
  pc_fatal :: bool
  pc_ready :: bool
  pc_detail :: string

definition has_fatal_failure :: "RuntimePreflightCheck list \<Rightarrow> bool" where
  "has_fatal_failure checks = list_ex (\<lambda>c. pc_fatal c \<and> \<not> pc_ready c) checks"

end
