(* ===== verification/Api_Client.thy ===== *)
theory Api_Client
  imports Core_State
begin

text \<open>
  The control-plane client, \<^verbatim>\<open>crates/sakala-agent-core/src/api/client.rs\<close> and \<^verbatim>\<open>endpoints.rs\<close>.

  The HTTP library, the server behind it, the clock and the random UUIDs are the parameter \<open>http_env\<close>:
  what a request returns is a function of everything sent and slept before it, so a server may answer
  the same request differently each time. The state \<open>net\<close> is that history and the number of UUIDs
  drawn. The serde decoders of the response bodies are parameters too; a decoder returns the text of
  its error. Tracing is not modelled.
\<close>

subsection \<open>Requests and responses\<close>

datatype http_method = GET | POST

record http_request =
  rq_method :: http_method
  rq_url :: string
  rq_token :: string
  rq_agent_id :: string
  rq_idempotency_key :: "string option"
  rq_body :: "json option"

text \<open>A response has a status and a body whose bytes may fail to arrive.\<close>

record http_response =
  rs_status :: nat
  rs_body :: "http_error + string"

datatype net_event = Sent http_request | Slept duration

record net =
  net_log :: "net_event list"
  net_uuids :: nat

record ReportAcknowledgement =
  ack_accepted_count :: u64
  ack_duplicate_count :: u64
  ack_first_sequence :: u64
  ack_last_sequence :: u64

record TerminalConflictPayload =
  tcp_status :: CommandStatus
  tcp_terminal_at :: "string option"

record ConflictPayload =
  cp_status :: "CommandStatus option"
  cp_terminal_at :: "string option"
  cp_message :: "string option"

record http_env =
  env_send :: "net_event list \<Rightarrow> http_request \<Rightarrow> http_error + http_response"
  env_uuid :: "nat \<Rightarrow> uuid"
  env_uuid_str :: "uuid \<Rightarrow> string"
  env_status_error :: "nat \<Rightarrow> http_error"
  env_decode_error :: "string \<Rightarrow> http_error"
  env_de_ack :: "string \<Rightarrow> string + ReportAcknowledgement"
  env_de_commands :: "string \<Rightarrow> string + AgentCommand list"
  env_de_lifecycle :: "string \<Rightarrow> string + DesiredNodeLifecycleState"
  env_de_terminal :: "string \<Rightarrow> string + TerminalConflictPayload"
  env_de_conflict :: "string \<Rightarrow> string + ConflictPayload"
  env_de_rejection :: "string \<Rightarrow> string + string option"
  env_de_lease :: "string \<Rightarrow> string + string \<times> string"
  env_url_scheme :: "string \<Rightarrow> string + string"
  env_json_of_log :: "DeploymentLog \<Rightarrow> json"
  env_json_of_event :: "DeploymentEvent \<Rightarrow> json"
  env_json_of_heartbeat :: "HeartbeatPayload \<Rightarrow> json"

record ApiClient =
  ac_base_url :: string
  ac_agent_id :: string
  ac_token :: string
  ac_retry :: RetryPolicy

definition MAX_ERROR_CODE_CHARS :: nat where "MAX_ERROR_CODE_CHARS = 64"
definition MAX_ERROR_MESSAGE_CHARS :: nat where "MAX_ERROR_MESSAGE_CHARS = 1000"

definition send :: "http_env \<Rightarrow> http_request \<Rightarrow> net \<Rightarrow> (http_error + http_response) \<times> net" where
  "send E rq n = (env_send E (net_log n) rq, n\<lparr>net_log := net_log n @ [Sent rq]\<rparr>)"

definition sleep :: "duration \<Rightarrow> net \<Rightarrow> net" where
  "sleep d n = n\<lparr>net_log := net_log n @ [Slept d]\<rparr>"

text \<open>\<^verbatim>\<open>Response::error_for_status\<close>: an error exactly for the 4xx and 5xx statuses.\<close>

definition error_for_status :: "http_env \<Rightarrow> http_response \<Rightarrow> CoreError + http_response" where
  "error_for_status E rs =
     (if 400 \<le> rs_status rs \<and> rs_status rs < 600 then Inl (Api (env_status_error E (rs_status rs)))
      else Inr rs)"

text \<open>\<^verbatim>\<open>Response::json\<close>: the bytes, then the decoder.\<close>

definition response_json :: "http_env \<Rightarrow> (string \<Rightarrow> string + 'a) \<Rightarrow> http_response \<Rightarrow> CoreError + 'a" where
  "response_json E de rs =
     (case rs_body rs of
        Inl e \<Rightarrow> Inl (Api e)
      | Inr b \<Rightarrow> (case de b of Inl t \<Rightarrow> Inl (Api (env_decode_error E t)) | Inr x \<Rightarrow> Inr x))"

definition request :: "ApiClient \<Rightarrow> http_method \<Rightarrow> string \<Rightarrow> http_request" where
  "request c m endpoint =
     \<lparr>rq_method = m, rq_url = ac_base_url c @ endpoint, rq_token = ac_token c,
      rq_agent_id = ac_agent_id c, rq_idempotency_key = None, rq_body = None\<rparr>"

definition COMMANDS :: string where "COMMANDS = ''/api/agent/v1/commands''"
definition HEARTBEAT :: string where "HEARTBEAT = ''/api/agent/v1/heartbeat''"
definition NODE_STATE :: string where "NODE_STATE = ''/api/agent/v1/node-state''"

definition endpoint_repository_credential :: "http_env \<Rightarrow> uuid \<Rightarrow> string" where
  "endpoint_repository_credential E command_id =
     ''/api/agent/v1/commands/'' @ env_uuid_str E command_id @ ''/repository-credential''"

definition command_action :: "http_env \<Rightarrow> uuid \<Rightarrow> string \<Rightarrow> string" where
  "command_action E command_id action =
     ''/api/agent/v1/commands/'' @ env_uuid_str E command_id @ ''/'' @ action"

subsection \<open>Construction\<close>

definition client_new :: "http_env \<Rightarrow> string \<Rightarrow> string \<Rightarrow> string \<Rightarrow> CoreError + ApiClient" where
  "client_new E base_url agent_id token =
     (let base_url = trim_end_matches CHR ''/'' base_url
      in case env_url_scheme E base_url of
           Inl error \<Rightarrow> Inl (InvalidConfiguration (''SAKALA_API_URL is invalid: '' @ error))
         | Inr scheme \<Rightarrow>
             if scheme \<noteq> ''http'' \<and> scheme \<noteq> ''https'' then
               Inl (InvalidConfiguration ''SAKALA_API_URL must use http or https'')
             else if trim agent_id = [] \<or> trim token = [] then
               Inl (InvalidConfiguration ''agent id and token must not be empty'')
             else Inr \<lparr>ac_base_url = base_url, ac_agent_id = agent_id, ac_token = token,
                       ac_retry = default_retry_policy\<rparr>)"

definition with_retry_policy :: "ApiClient \<Rightarrow> RetryPolicy \<Rightarrow> ApiClient" where
  "with_retry_policy c p = c\<lparr>ac_retry := p\<rparr>"

subsection \<open>Single requests\<close>

definition poll_commands :: "http_env \<Rightarrow> ApiClient \<Rightarrow> net \<Rightarrow> (CoreError + AgentCommand list) \<times> net" where
  "poll_commands E c n =
     (case send E (request c GET COMMANDS) n of
        (Inl e, n) \<Rightarrow> (Inl (Api e), n)
      | (Inr rs, n) \<Rightarrow> (res_bind (error_for_status E rs) (response_json E (env_de_commands E)), n))"

definition heartbeat :: "http_env \<Rightarrow> ApiClient \<Rightarrow> HeartbeatPayload \<Rightarrow> net \<Rightarrow> (CoreError + unit) \<times> net" where
  "heartbeat E c payload n =
     (case send E ((request c POST HEARTBEAT)\<lparr>rq_body := Some (env_json_of_heartbeat E payload)\<rparr>) n of
        (Inl e, n) \<Rightarrow> (Inl (Api e), n)
      | (Inr rs, n) \<Rightarrow> (res_bind (error_for_status E rs) (\<lambda>_. Inr ()), n))"

definition node_lifecycle :: "http_env \<Rightarrow> ApiClient \<Rightarrow> net \<Rightarrow> (CoreError + DesiredNodeLifecycleState) \<times> net" where
  "node_lifecycle E c n =
     (case send E (request c GET NODE_STATE) n of
        (Inl e, n) \<Rightarrow> (Inl (Api e), n)
      | (Inr rs, n) \<Rightarrow> (res_bind (error_for_status E rs) (response_json E (env_de_lifecycle E)), n))"

definition claim :: "http_env \<Rightarrow> ApiClient \<Rightarrow> uuid \<Rightarrow> net \<Rightarrow> (CoreError + unit) \<times> net" where
  "claim E c command_id n =
     (case send E ((request c POST (command_action E command_id ''claim''))\<lparr>rq_body := Some (JObject [])\<rparr>) n of
        (Inl e, n) \<Rightarrow> (Inl (Api e), n)
      | (Inr rs, n) \<Rightarrow>
          if rs_status rs = 409 then (Inl CommandNotClaimable, n)
          else (res_bind (error_for_status E rs) (\<lambda>_. Inr ()), n))"

definition client_repository_credential ::
    "http_env \<Rightarrow> ApiClient \<Rightarrow> uuid \<Rightarrow> net \<Rightarrow> (CoreError + RepositoryCredential) \<times> net" where
  "client_repository_credential E c command_id n =
     (case send E ((request c POST (endpoint_repository_credential E command_id))\<lparr>rq_body := Some (JObject [])\<rparr>) n of
        (Inl e, n) \<Rightarrow> (Inl (Api e), n)
      | (Inr rs, n) \<Rightarrow>
          (res_bind (res_bind (error_for_status E rs) (response_json E (env_de_lease E)))
             (\<lambda>(username, token).
                if trim username = [] \<or> trim token = [] then
                  Inl (InvalidConfiguration ''repository credential lease is missing username or token'')
                else Inr \<lparr>rc_username = username, rc_token = token\<rparr>), n))"

subsection \<open>Reports under one idempotency key\<close>

definition is_retryable_status :: "nat \<Rightarrow> bool" where
  "is_retryable_status status \<longleftrightarrow> (500 \<le> status \<and> status < 600) \<or> status = 408 \<or> status = 429"

definition is_retryable_transport_error :: "http_error \<Rightarrow> bool" where
  "is_retryable_transport_error e \<longleftrightarrow> he_connect e \<or> he_timeout e \<or> he_request e \<or> he_body e"

definition conflict_detail :: "http_env \<Rightarrow> http_response \<Rightarrow> string" where
  "conflict_detail E rs =
     (case response_json E (env_de_conflict E) rs of
        Inl _ \<Rightarrow> ''command conflict''
      | Inr p \<Rightarrow>
          (case (cp_status p, cp_terminal_at p, cp_message p) of
             (Some status, Some terminal_at, _) \<Rightarrow> ''command is '' @ status_text status @ '' at '' @ terminal_at
           | (Some status, None, _) \<Rightarrow> ''command is '' @ status_text status
           | (None, _, Some message) \<Rightarrow> message
           | (None, _, None) \<Rightarrow> ''command conflict''))"

definition rejection_detail :: "http_env \<Rightarrow> http_response \<Rightarrow> string" where
  "rejection_detail E rs =
     (case response_json E (env_de_rejection E) rs of
        Inr (Some message) \<Rightarrow> message
      | _ \<Rightarrow> ''report rejected by control plane'')"

text \<open>The derived \<^verbatim>\<open>Debug\<close> of an acknowledgement.\<close>

definition ack_debug :: "ReportAcknowledgement \<Rightarrow> string" where
  "ack_debug a =
     ''ReportAcknowledgement { accepted_count: '' @ show_word (ack_accepted_count a)
     @ '', duplicate_count: '' @ show_word (ack_duplicate_count a)
     @ '', first_sequence: '' @ show_word (ack_first_sequence a)
     @ '', last_sequence: '' @ show_word (ack_last_sequence a) @ '' }''"

definition default_acknowledgement :: ReportAcknowledgement where
  "default_acknowledgement =
     \<lparr>ack_accepted_count = 0, ack_duplicate_count = 0, ack_first_sequence = 0, ack_last_sequence = 0\<rparr>"

definition report_outcome :: "http_env \<Rightarrow> http_response \<Rightarrow> nat \<Rightarrow> CoreError + ReportAcknowledgement" where
  "report_outcome E rs item_count =
     (let status = rs_status rs
      in if status = 409 then Inl (ReportRejected status (conflict_detail E rs))
         else if status = 422 \<or> status = 413 then Inl (ReportRejected status (rejection_detail E rs))
         else res_bind (error_for_status E rs) (\<lambda>rs.
           if rs_status rs = 204 then Inr default_acknowledgement
           else if rs_status rs \<noteq> 200 then
             Inl (InvalidReportAcknowledgement (''unexpected HTTP '' @ dec (rs_status rs) @ '' for report''))
           else
             case rs_body rs of
               Inl e \<Rightarrow> Inl (Api e)
             | Inr body \<Rightarrow>
                 (case env_de_ack E body of
                    Inl t \<Rightarrow> Inl (InvalidReportAcknowledgement
                       (''acknowledgement body does not match the contract: '' @ t))
                  | Inr a \<Rightarrow>
                      if unat (ack_accepted_count a) \<noteq> item_count then
                        Inl (InvalidReportAcknowledgement
                          (''acknowledgement accepted '' @ show_word (ack_accepted_count a) @ '' of ''
                           @ dec item_count @ '' items: '' @ ack_debug a))
                      else if ack_accepted_count a < ack_duplicate_count a
                              \<or> ack_last_sequence a < ack_first_sequence a then
                        Inl (InvalidReportAcknowledgement
                          (''acknowledgement counters are inconsistent: '' @ ack_debug a))
                      else Inr a)))"

text \<open>What one pass of the retry loop does with the outcome of a request: it returns, or goes on with
  the text of a transient failure.\<close>

definition report_pass ::
    "http_env \<Rightarrow> nat \<Rightarrow> http_error + http_response \<Rightarrow> (CoreError + ReportAcknowledgement) + string" where
  "report_pass E item_count outcome =
     (case outcome of
        Inr rs \<Rightarrow>
          if is_retryable_status (rs_status rs) then Inr (''HTTP '' @ dec (rs_status rs))
          else (case report_outcome E rs item_count of
                  Inr a \<Rightarrow> Inl (Inr a)
                | Inl (Api e) \<Rightarrow> if is_retryable_transport_error e then Inr (he_text e) else Inl (Inl (Api e))
                | Inl e \<Rightarrow> Inl (Inl e))
      | Inl e \<Rightarrow> if is_retryable_transport_error e then Inr (he_text e) else Inl (Inl (Api e)))"

function report_loop ::
    "http_env \<Rightarrow> RetryPolicy \<Rightarrow> http_request \<Rightarrow> nat \<Rightarrow> nat \<Rightarrow> nat \<Rightarrow> net \<Rightarrow>
     (CoreError + ReportAcknowledgement) \<times> net" where
  "report_loop E p rq item_count attempts attempt n =
     (case send E rq n of (outcome, n) \<Rightarrow>
        (case report_pass E item_count outcome of
           Inl r \<Rightarrow> (r, n)
         | Inr transient \<Rightarrow>
             if attempts \<le> attempt + 1 then
               (Inl (InvalidReportAcknowledgement
                  (''report not acknowledged after '' @ dec attempts @ '' attempts: '' @ transient)), n)
             else report_loop E p rq item_count attempts (attempt + 1) (sleep (delay_after p attempt) n)))"
  by pat_completeness auto
termination
  by (relation "measure (\<lambda>(E, p, rq, i, attempts, attempt, n). attempts - attempt)") auto

declare report_loop.simps [simp del]

definition max_attempts :: "ApiClient \<Rightarrow> nat" where
  "max_attempts c = max (unat (rp_max_attempts (ac_retry c))) 1"

definition report ::
    "http_env \<Rightarrow> ApiClient \<Rightarrow> string \<Rightarrow> json \<Rightarrow> nat \<Rightarrow> net \<Rightarrow> (CoreError + ReportAcknowledgement) \<times> net" where
  "report E c endpoint payload item_count n =
     (let idempotency_key = env_uuid_str E (env_uuid E (net_uuids n));
          rq = (request c POST endpoint)\<lparr>rq_idempotency_key := Some idempotency_key, rq_body := Some payload\<rparr>
      in report_loop E (ac_retry c) rq item_count (max_attempts c) 0 (n\<lparr>net_uuids := net_uuids n + 1\<rparr>))"

definition events ::
    "http_env \<Rightarrow> ApiClient \<Rightarrow> uuid \<Rightarrow> DeploymentEvent list \<Rightarrow> net \<Rightarrow> (CoreError + ReportAcknowledgement) \<times> net" where
  "events E c command_id evs n =
     report E c (command_action E command_id ''events'')
       (JObject [(''events'', JArray (map (env_json_of_event E) evs))]) (length evs) n"

definition event ::
    "http_env \<Rightarrow> ApiClient \<Rightarrow> uuid \<Rightarrow> DeploymentEvent \<Rightarrow> net \<Rightarrow> (CoreError + ReportAcknowledgement) \<times> net" where
  "event E c command_id ev n = events E c command_id [ev] n"

definition logs ::
    "http_env \<Rightarrow> ApiClient \<Rightarrow> uuid \<Rightarrow> DeploymentLog list \<Rightarrow> net \<Rightarrow> (CoreError + ReportAcknowledgement) \<times> net" where
  "logs E c command_id ls n =
     report E c (command_action E command_id ''logs'')
       (JObject [(''logs'', JArray (map (env_json_of_log E) ls))]) (length ls) n"

definition client_log ::
    "http_env \<Rightarrow> ApiClient \<Rightarrow> uuid \<Rightarrow> DeploymentLog \<Rightarrow> net \<Rightarrow> (CoreError + ReportAcknowledgement) \<times> net" where
  "client_log E c command_id l n = logs E c command_id [l] n"

subsection \<open>Terminal transitions\<close>

definition outcome_retryable :: "http_error + http_response \<Rightarrow> bool" where
  "outcome_retryable outcome =
     (case outcome of
        Inr rs \<Rightarrow> is_retryable_status (rs_status rs)
      | Inl e \<Rightarrow> is_retryable_transport_error e)"

function send_loop ::
    "http_env \<Rightarrow> RetryPolicy \<Rightarrow> http_request \<Rightarrow> nat \<Rightarrow> nat \<Rightarrow> net \<Rightarrow> (CoreError + http_response) \<times> net" where
  "send_loop E p rq attempts attempt n =
     (case send E rq n of (outcome, n) \<Rightarrow>
        if \<not> outcome_retryable outcome \<or> attempts \<le> attempt + 1 then
          ((case outcome of Inl e \<Rightarrow> Inl (Api e) | Inr rs \<Rightarrow> Inr rs), n)
        else send_loop E p rq attempts (attempt + 1) (sleep (delay_after p attempt) n))"
  by pat_completeness auto
termination
  by (relation "measure (\<lambda>(E, p, rq, attempts, attempt, n). attempts - attempt)") auto

declare send_loop.simps [simp del]

definition send_with_retry :: "http_env \<Rightarrow> ApiClient \<Rightarrow> http_request \<Rightarrow> net \<Rightarrow> (CoreError + http_response) \<times> net" where
  "send_with_retry E c rq n = send_loop E (ac_retry c) rq (max_attempts c) 0 n"

definition terminal_outcome :: "http_env \<Rightarrow> CommandStatus \<Rightarrow> http_response \<Rightarrow> CoreError + unit" where
  "terminal_outcome E expected rs =
     (if rs_status rs \<noteq> 409 then res_bind (error_for_status E rs) (\<lambda>_. Inr ())
      else res_bind (response_json E (env_de_terminal E) rs) (\<lambda>t.
        if tcp_status t = expected then Inr ()
        else Inl (CommandTerminalConflict
               (case tcp_terminal_at t of
                  Some terminal_at \<Rightarrow> status_text (tcp_status t) @ '' at '' @ terminal_at
                | None \<Rightarrow> status_text (tcp_status t)))))"

definition post_terminal ::
    "http_env \<Rightarrow> ApiClient \<Rightarrow> string \<Rightarrow> json \<Rightarrow> CommandStatus \<Rightarrow> net \<Rightarrow> (CoreError + unit) \<times> net" where
  "post_terminal E c endpoint payload expected n =
     (case send_with_retry E c ((request c POST endpoint)\<lparr>rq_body := Some payload\<rparr>) n of
        (Inl e, n) \<Rightarrow> (Inl e, n)
      | (Inr rs, n) \<Rightarrow> (terminal_outcome E expected rs, n))"

definition complete :: "http_env \<Rightarrow> ApiClient \<Rightarrow> uuid \<Rightarrow> json \<Rightarrow> net \<Rightarrow> (CoreError + unit) \<times> net" where
  "complete E c command_id result n =
     post_terminal E c (command_action E command_id ''complete'') (JObject [(''result'', result)])
       Status_Succeeded n"

text \<open>A character of the code is kept when it is one ASCII byte of the alphabet.\<close>

definition code_char :: "string \<Rightarrow> string" where
  "code_char ch =
     (case ch of
        [b] \<Rightarrow> if is_ascii_alphanumeric b \<or> b = CHR ''.'' \<or> b = CHR ''_'' \<or> b = CHR ''-'' then [b] else ''_''
      | _ \<Rightarrow> ''_'')"

definition sanitize_error_code :: "string \<Rightarrow> string" where
  "sanitize_error_code code =
     (let sanitized = concat (take MAX_ERROR_CODE_CHARS (map code_char (utf8_chunks code)))
      in if sanitized = [] then ''runtime_execution_failed'' else sanitized)"

text \<open>\<^verbatim>\<open>char::is_control\<close>: U+0000 to U+001F and U+007F to U+009F.\<close>

definition is_control :: "string \<Rightarrow> bool" where
  "is_control ch =
     (case map byte ch of
        [a] \<Rightarrow> a < 32 \<or> a = 127
      | [a, b] \<Rightarrow> a = 194 \<and> 128 \<le> b \<and> b \<le> 159
      | _ \<Rightarrow> False)"

definition is_disallowed_message_char :: "string \<Rightarrow> bool" where
  "is_disallowed_message_char ch \<longleftrightarrow>
     is_control ch
     \<or> (case map byte ch of
          [a, b, c] \<Rightarrow>
            (a = 226 \<and> b = 128 \<and> (139 \<le> c \<and> c \<le> 143 \<or> 170 \<le> c \<and> c \<le> 174))
            \<or> (a = 226 \<and> b = 129 \<and> (160 \<le> c \<and> c \<le> 164 \<or> 166 \<le> c \<and> c \<le> 169))
            \<or> (a = 239 \<and> b = 187 \<and> c = 191)
        | _ \<Rightarrow> False)"

definition sanitize_error_message :: "string \<Rightarrow> string" where
  "sanitize_error_message message =
     (let sanitized = concat (take MAX_ERROR_MESSAGE_CHARS
            (filter (\<lambda>ch. \<not> is_disallowed_message_char ch) (utf8_chunks message)));
          trimmed = trim sanitized
      in if trimmed = [] then ''runtime execution failed'' else trimmed)"

definition fail :: "http_env \<Rightarrow> ApiClient \<Rightarrow> uuid \<Rightarrow> string \<Rightarrow> string \<Rightarrow> net \<Rightarrow> (CoreError + unit) \<times> net" where
  "fail E c command_id error_code error_message n =
     post_terminal E c (command_action E command_id ''fail'')
       (JObject [(''error_code'', JString (sanitize_error_code error_code)),
                 (''error_message'', JString (sanitize_error_message error_message))])
       Status_Failed n"

subsection \<open>What the retry loops send\<close>

text \<open>The history of \<open>k + 1\<close> attempts of one request from attempt number \<open>a\<close> on.\<close>

primrec attempt_log :: "RetryPolicy \<Rightarrow> http_request \<Rightarrow> nat \<Rightarrow> nat \<Rightarrow> net_event list" where
  "attempt_log p rq a 0 = [Sent rq]"
| "attempt_log p rq a (Suc k) = Sent rq # Slept (delay_after p a) # attempt_log p rq (a + 1) k"

lemma attempt_log_last: "\<exists>pre. attempt_log p rq a k = pre @ [Sent rq]"
proof (induction k arbitrary: a)
  case (Suc k)
  from Suc [of "a + 1"] obtain pre where "attempt_log p rq (a + 1) k = pre @ [Sent rq]" ..
  then have "attempt_log p rq a (Suc k) = (Sent rq # Slept (delay_after p a) # pre) @ [Sent rq]" by simp
  then show ?case by blast
qed simp

lemma report_loop_log:
  assumes "attempt < attempts" "report_loop E p rq i attempts attempt n = (r, n')"
  shows "\<exists>k. attempt + k < attempts \<and> net_log n' = net_log n @ attempt_log p rq attempt k \<and> net_uuids n' = net_uuids n"
  using assms
proof (induction E p rq i attempts attempt n rule: report_loop.induct)
  case (1 E p rq i attempts attempt n)
  let ?o = "env_send E (net_log n) rq" and ?n = "n\<lparr>net_log := net_log n @ [Sent rq]\<rparr>"
  have s: "send E rq n = (?o, ?n)" by (simp add: send_def)
  show ?case
  proof (cases "\<exists>t. report_pass E i ?o = Inr t \<and> attempt + 1 < attempts")
    case True
    then obtain t where t: "report_pass E i ?o = Inr t" "attempt + 1 < attempts" by blast
    with 1(3) have "report_loop E p rq i attempts (attempt + 1) (sleep (delay_after p attempt) ?n) = (r, n')"
      by (subst (asm) report_loop.simps) (simp add: s)
    from 1(1) [OF s [symmetric] t(1) _ t(2) this] t(2) obtain k where
      "attempt + 1 + k < attempts" "net_log n' = net_log n @ attempt_log p rq attempt (Suc k)"
      "net_uuids n' = net_uuids n"
      by (auto simp: sleep_def)
    then show ?thesis by (intro exI [of _ "Suc k"]) auto
  next
    case False
    with 1(2,3) have "n' = ?n"
      by (subst (asm) report_loop.simps) (auto simp: s split: sum.splits if_splits)
    with 1(2) show ?thesis by (intro exI [of _ 0]) auto
  qed
qed

lemma report_loop_ok:
  assumes "report_loop E p rq i attempts attempt n = (Inr a, n')"
  shows "\<exists>pre rs. net_log n' = pre @ [Sent rq] \<and> env_send E pre rq = Inr rs \<and> report_outcome E rs i = Inr a"
  using assms
proof (induction E p rq i attempts attempt n rule: report_loop.induct)
  case (1 E p rq i attempts attempt n)
  let ?o = "env_send E (net_log n) rq" and ?n = "n\<lparr>net_log := net_log n @ [Sent rq]\<rparr>"
  have s: "send E rq n = (?o, ?n)" by (simp add: send_def)
  show ?case
  proof (cases "report_pass E i ?o")
    case (Inl r)
    with 1(2) have "report_pass E i ?o = Inl (Inr a)" "n' = ?n"
      by (subst (asm) report_loop.simps, simp add: s)+
    then show ?thesis
      by (auto simp: report_pass_def split: sum.splits if_splits CoreError.splits)
  next
    case (Inr t)
    with 1(2) have a: "attempt + 1 < attempts"
      "report_loop E p rq i attempts (attempt + 1) (sleep (delay_after p attempt) ?n) = (Inr a, n')"
      by (subst (asm) report_loop.simps, simp add: s split: if_splits)+
    from 1(1) [OF s [symmetric] Inr _ a(2)] a(1) show ?thesis by auto
  qed
qed

lemma report_outcome_Inr:
  "report_outcome E rs i = Inr a \<longleftrightarrow>
     (rs_status rs = 204 \<and> a = default_acknowledgement)
     \<or> (rs_status rs = 200 \<and> (\<exists>body. rs_body rs = Inr body \<and> env_de_ack E body = Inr a)
        \<and> unat (ack_accepted_count a) = i \<and> ack_duplicate_count a \<le> ack_accepted_count a
        \<and> ack_first_sequence a \<le> ack_last_sequence a)"
  by (auto simp: report_outcome_def Let_def error_for_status_def not_less
      split: sum.splits if_splits)

lemma max_attempts_pos [simp]: "0 < max_attempts c"
  by (simp add: max_attempts_def)

definition logs_request :: "http_env \<Rightarrow> ApiClient \<Rightarrow> uuid \<Rightarrow> DeploymentLog list \<Rightarrow> nat \<Rightarrow> http_request" where
  "logs_request E c command_id ls u =
     (request c POST (command_action E command_id ''logs''))
       \<lparr>rq_idempotency_key := Some (env_uuid_str E (env_uuid E u)),
        rq_body := Some (JObject [(''logs'', JArray (map (env_json_of_log E) ls))])\<rparr>"

lemma logs_loop:
  "logs E c command_id ls n =
     report_loop E (ac_retry c) (logs_request E c command_id ls (net_uuids n)) (length ls) (max_attempts c) 0
       (n\<lparr>net_uuids := net_uuids n + 1\<rparr>)"
  by (simp add: logs_def report_def logs_request_def Let_def)

text \<open>One batch of logs is sent at most \<open>max(1, max_attempts)\<close> times, always as the same request
  under the same idempotency key, and the pauses between the attempts are the back-off of the policy;
  one key is drawn per batch.\<close>

theorem logs_attempts:
  "\<exists>k < max_attempts c.
     net_log (snd (logs E c command_id ls n))
       = net_log n @ attempt_log (ac_retry c) (logs_request E c command_id ls (net_uuids n)) 0 k
     \<and> net_uuids (snd (logs E c command_id ls n)) = net_uuids n + 1"
  using report_loop_log [of 0 "max_attempts c" E "ac_retry c" "logs_request E c command_id ls (net_uuids n)"
      "length ls" "n\<lparr>net_uuids := net_uuids n + 1\<rparr>"]
  by (cases "logs E c command_id ls n") (auto simp: logs_loop)

text \<open>C32: a batch is reported as delivered only when the last request was answered with 204, or with 200
  and an acknowledgement that accepts exactly the items of the batch and whose counters are consistent.\<close>

theorem logs_delivered:
  assumes "logs E c command_id ls n = (Inr a, n')"
  shows "\<exists>rq rs. net_log n' \<noteq> [] \<and> last (net_log n') = Sent rq
      \<and> rq_body rq = Some (JObject [(''logs'', JArray (map (env_json_of_log E) ls))])
      \<and> env_send E (butlast (net_log n')) rq = Inr rs
      \<and> (rs_status rs = 204
         \<or> (rs_status rs = 200 \<and> unat (ack_accepted_count a) = length ls
            \<and> ack_duplicate_count a \<le> ack_accepted_count a \<and> ack_first_sequence a \<le> ack_last_sequence a))"
proof -
  from report_loop_ok [OF assms [unfolded logs_loop]] obtain pre rs where
    l: "net_log n' = pre @ [Sent (logs_request E c command_id ls (net_uuids n))]"
    and o: "env_send E pre (logs_request E c command_id ls (net_uuids n)) = Inr rs"
    and r: "report_outcome E rs (length ls) = Inr a" by blast
  have "rq_body (logs_request E c command_id ls (net_uuids n))
      = Some (JObject [(''logs'', JArray (map (env_json_of_log E) ls))])"
    by (simp add: logs_request_def)
  with r l o show ?thesis
    unfolding report_outcome_Inr by fastforce
qed

text \<open>A concrete environment for the examples: the decoders read nothing, the answers are given.\<close>

definition example_env :: "(net_event list \<Rightarrow> http_request \<Rightarrow> http_error + http_response) \<Rightarrow> http_env" where
  "example_env f =
     \<lparr>env_send = f, env_uuid = of_nat, env_uuid_str = (\<lambda>u. show_word u),
      env_status_error = (\<lambda>s. \<lparr>he_connect = False, he_timeout = False, he_request = False, he_body = False, he_text = dec s\<rparr>),
      env_decode_error = (\<lambda>t. \<lparr>he_connect = False, he_timeout = False, he_request = False, he_body = False, he_text = t\<rparr>),
      env_de_ack = (\<lambda>b. if b = ''ack'' then Inr \<lparr>ack_accepted_count = 1, ack_duplicate_count = 0,
                            ack_first_sequence = 1, ack_last_sequence = 1\<rparr> else Inl ''no''),
      env_de_commands = (\<lambda>_. Inr []), env_de_lifecycle = (\<lambda>_. Inr Desired_Active),
      env_de_terminal = (\<lambda>b. if b = ''ok'' then Inr \<lparr>tcp_status = Status_Succeeded, tcp_terminal_at = None\<rparr> else Inl ''no''),
      env_de_conflict = (\<lambda>_. Inl ''no''), env_de_rejection = (\<lambda>_. Inl ''no''), env_de_lease = (\<lambda>_. Inl ''no''),
      env_url_scheme = (\<lambda>_. Inr ''http''), env_json_of_log = (\<lambda>l. JString (log_message l)),
      env_json_of_event = (\<lambda>e. JString (ev_message e)), env_json_of_heartbeat = (\<lambda>_. JNull)\<rparr>"

definition example_client :: ApiClient where
  "example_client =
     \<lparr>ac_base_url = ''http://localhost:8000'', ac_agent_id = ''a'', ac_token = ''t'', ac_retry = default_retry_policy\<rparr>"

text \<open>The first answer is a 503, every later one a 200 with an acknowledgement.\<close>

definition flaky_env :: http_env where
  "flaky_env = example_env (\<lambda>h _.
     if h = [] then Inr \<lparr>rs_status = 503, rs_body = Inr []\<rparr> else Inr \<lparr>rs_status = 200, rs_body = Inr ''ack''\<rparr>)"

theorem logs_delivered_witness:
  "\<exists>a n'. logs flaky_env example_client 7 [\<lparr>log_stream = Stdout, log_message = ''hi'', log_recorded_at = 0\<rparr>]
        \<lparr>net_log = [], net_uuids = 0\<rparr> = (Inr a, n')
     \<and> length (net_log n') = 3 \<and> (\<exists>rq rs. last (net_log n') = Sent rq \<and> env_send flaky_env (butlast (net_log n')) rq = Inr rs)"
proof -
  let ?l = "[\<lparr>log_stream = Stdout, log_message = ''hi'', log_recorded_at = 0\<rparr>]"
  let ?n = "\<lparr>net_log = [], net_uuids = 0\<rparr>"
  let ?r = "logs flaky_env example_client 7 ?l ?n"
  let ?a = "\<lparr>ack_accepted_count = 1, ack_duplicate_count = 0, ack_first_sequence = 1, ack_last_sequence = 1\<rparr>"
  have e: "fst ?r = Inr ?a \<and> length (net_log (snd ?r)) = 3" by code_simp
  then have l: "?r = (Inr ?a, snd ?r)" by (simp add: prod_eq_iff)
  with e logs_delivered [OF l] show ?thesis by blast
qed

subsection \<open>Terminal transitions\<close>

lemma send_loop_log:
  assumes "attempt < attempts" "send_loop E p rq attempts attempt n = (r, n')"
  shows "\<exists>k. attempt + k < attempts \<and> net_log n' = net_log n @ attempt_log p rq attempt k
     \<and> r = (case env_send E (butlast (net_log n')) rq of Inl e \<Rightarrow> Inl (Api e) | Inr rs \<Rightarrow> Inr rs)"
  using assms
proof (induction E p rq attempts attempt n rule: send_loop.induct)
  case (1 E p rq attempts attempt n)
  let ?o = "env_send E (net_log n) rq" and ?n = "n\<lparr>net_log := net_log n @ [Sent rq]\<rparr>"
  have s: "send E rq n = (?o, ?n)" by (simp add: send_def)
  show ?case
  proof (cases "\<not> outcome_retryable ?o \<or> attempts \<le> attempt + 1")
    case True
    with 1(3) have "n' = ?n" "r = (case ?o of Inl e \<Rightarrow> Inl (Api e) | Inr rs \<Rightarrow> Inr rs)"
      by (subst (asm) send_loop.simps; simp add: s)+
    with 1(2) show ?thesis by (intro exI [of _ 0]) auto
  next
    case False
    with 1(3) have "send_loop E p rq attempts (attempt + 1) (sleep (delay_after p attempt) ?n) = (r, n')"
      by (subst (asm) send_loop.simps) (simp add: s)
    from 1(1) [OF s [symmetric] False _ this] False obtain k where
      "attempt + 1 + k < attempts" "net_log n' = net_log n @ attempt_log p rq attempt (Suc k)"
      "r = (case env_send E (butlast (net_log n')) rq of Inl e \<Rightarrow> Inl (Api e) | Inr rs \<Rightarrow> Inr rs)"
      by (auto simp: sleep_def)
    then show ?thesis by (intro exI [of _ "Suc k"]) auto
  qed
qed


text \<open>The answers the code takes for a finished transition: any status that is not an error, or a conflict
  whose body names the status the transition asked for.\<close>

definition terminal_accepted :: "http_env \<Rightarrow> CommandStatus \<Rightarrow> http_response \<Rightarrow> bool" where
  "terminal_accepted E expected rs \<longleftrightarrow>
     (rs_status rs \<noteq> 409 \<and> \<not> (400 \<le> rs_status rs \<and> rs_status rs < 600))
     \<or> (rs_status rs = 409 \<and>
         (case rs_body rs of
            Inr b \<Rightarrow> (case env_de_terminal E b of Inr t \<Rightarrow> tcp_status t = expected | Inl _ \<Rightarrow> False)
          | Inl _ \<Rightarrow> False))"

lemma terminal_outcome_iff: "terminal_outcome E expected rs = Inr () \<longleftrightarrow> terminal_accepted E expected rs"
  by (auto simp: terminal_outcome_def terminal_accepted_def error_for_status_def response_json_def
      split: sum.splits option.splits)

text \<open>A terminal transition (complete or fail) is sent at most \<open>max(1, max_attempts)\<close> times as the same
  request, and it returns success exactly when the last answer is not an error or is a conflict that
  says the command already has the requested status: repeating a transition is idempotent, and a
  command that ended otherwise is never taken for a success.\<close>

theorem post_terminal_success:
  fixes E :: http_env and c :: ApiClient and endpoint :: string and payload :: json
    and expected :: CommandStatus and n :: net
  defines "rq \<equiv> (request c POST endpoint)\<lparr>rq_body := Some payload\<rparr>"
  defines "res \<equiv> post_terminal E c endpoint payload expected n"
  shows "\<exists>k < max_attempts c. net_log (snd res) = net_log n @ attempt_log (ac_retry c) rq 0 k
     \<and> (fst res = Inr () \<longleftrightarrow>
          (case env_send E (butlast (net_log (snd res))) rq of
             Inr rs \<Rightarrow> terminal_accepted E expected rs | Inl _ \<Rightarrow> False))"
proof -
  obtain r n' where l: "send_loop E (ac_retry c) rq (max_attempts c) 0 n = (r, n')" by fastforce
  from send_loop_log [OF max_attempts_pos l] obtain k where
    k: "k < max_attempts c" "net_log n' = net_log n @ attempt_log (ac_retry c) rq 0 k"
    and r: "r = (case env_send E (butlast (net_log n')) rq of Inl e \<Rightarrow> Inl (Api e) | Inr rs \<Rightarrow> Inr rs)"
    by auto
  have "res = (case r of Inl e \<Rightarrow> (Inl e, n') | Inr rs \<Rightarrow> (terminal_outcome E expected rs, n'))"
    by (simp add: res_def post_terminal_def send_with_retry_def l rq_def [symmetric] split: sum.splits)
  then have "snd res = n'" "fst res = Inr () \<longleftrightarrow>
      (case env_send E (butlast (net_log n')) rq of Inr rs \<Rightarrow> terminal_accepted E expected rs | Inl _ \<Rightarrow> False)"
    by (auto simp: r terminal_outcome_iff split: sum.splits)
  with k show ?thesis by (intro exI [of _ k]) simp
qed

subsection \<open>Sanitised failures\<close>

definition code_byte :: "char \<Rightarrow> bool" where
  "code_byte b \<longleftrightarrow> is_ascii_alphanumeric b \<or> b = CHR ''.'' \<or> b = CHR ''_'' \<or> b = CHR ''-''"

lemma code_char_props: "length (code_char ch) = 1" "list_all code_byte (code_char ch)"
  by (auto simp: code_char_def code_byte_def split: list.splits)

lemma concat_code_chars: "length (concat (map code_char cs)) = length cs" "list_all code_byte (concat (map code_char cs))"
  by (induction cs) (auto simp: code_char_props)

lemma code_byte_ascii: "code_byte b \<Longrightarrow> is_ascii b"
  by (auto simp: code_byte_def is_ascii_def is_ascii_alphanumeric_def is_ascii_digit_def is_ascii_uppercase_def
      is_ascii_lowercase_def)

text \<open>The error code of a failure report is never empty, has at most 64 bytes, all in
  \<open>[A-Za-z0-9._-]\<close>, and a code that already has this form is sent unchanged.\<close>

theorem sanitize_error_code_form:
  "sanitize_error_code code \<noteq> [] \<and> length (sanitize_error_code code) \<le> 64
   \<and> list_all code_byte (sanitize_error_code code)
   \<and> sanitize_error_code (sanitize_error_code code) = sanitize_error_code code"
proof -
  let ?s = "concat (map code_char (take 64 (utf8_chunks code)))"
  have s: "sanitize_error_code code = (if ?s = [] then ''runtime_execution_failed'' else ?s)"
    by (simp add: sanitize_error_code_def Let_def MAX_ERROR_CODE_CHARS_def take_map)
  have "list_all code_byte ''runtime_execution_failed''" by code_simp
  then have form: "sanitize_error_code code \<noteq> []" "length (sanitize_error_code code) \<le> 64"
    "list_all code_byte (sanitize_error_code code)"
    unfolding s by (simp_all add: concat_code_chars)
  have id: "sanitize_error_code d = d" if d: "d \<noteq> []" "length d \<le> 64" "list_all code_byte d" for d
  proof -
    have "utf8_chunks d = map (\<lambda>b. [b]) d"
      using d(3) by (intro utf8_chunks_ascii) (auto simp: list_all_iff code_byte_ascii)
    moreover have "concat (map code_char (map (\<lambda>b. [b]) d)) = d"
      using d(3) by (induction d) (auto simp: code_char_def code_byte_def)
    ultimately show ?thesis
      using d by (simp add: sanitize_error_code_def Let_def MAX_ERROR_CODE_CHARS_def)
  qed
  from form id [OF form] show ?thesis by simp
qed

text \<open>The message of a failure report is never empty, well-formed text, has at most 1000 characters and none of them is
  a control, bidirectional or zero-width character.\<close>

theorem sanitize_error_message_form:
  assumes "utf8_valid message"
  shows "sanitize_error_message message \<noteq> [] \<and> utf8_valid (sanitize_error_message message)
     \<and> length (utf8_chunks (sanitize_error_message message)) \<le> 1000
     \<and> \<not> list_ex is_disallowed_message_char (utf8_chunks (sanitize_error_message message))"
proof -
  let ?cs = "take 1000 (filter (\<lambda>ch. \<not> is_disallowed_message_char ch) (utf8_chunks message))"
  let ?t = "trim (concat ?cs)"
  have s: "sanitize_error_message message = (if ?t = [] then ''runtime execution failed'' else ?t)"
    by (simp add: sanitize_error_message_def Let_def MAX_ERROR_MESSAGE_CHARS_def)
  have "list_all is_chunk ?cs"
    using utf8_valid_chunks [OF assms] by (auto simp: list_all_iff dest: in_set_takeD)
  then have c: "utf8_chunks (concat ?cs) = ?cs" "list_all is_chunk (utf8_chunks (concat ?cs))"
    by (simp_all add: utf8_chunks_concat)
  have "list_all utf8_char ?cs"
    using assms by (auto simp: utf8_valid_iff_chars list_all_iff dest: in_set_takeD)
  then have "utf8_valid ?t"
    unfolding trim_def by (intro utf8_valid_trim_end utf8_valid_trim_start utf8_valid_concat)
  moreover have "length (utf8_chunks ?t) \<le> 1000"
    using length_utf8_chunks_trim [OF c(2)] c(1) by (simp add: min_def split: if_splits)
  moreover have "\<not> list_ex is_disallowed_message_char (utf8_chunks ?t)"
    using utf8_chunks_trim_subset [OF c(2)] c(1) by (auto simp: list_ex_iff dest!: in_set_takeD)
  moreover have "utf8_valid ''runtime execution failed''
      \<and> length (utf8_chunks ''runtime execution failed'') \<le> 1000
      \<and> \<not> list_ex is_disallowed_message_char (utf8_chunks ''runtime execution failed'')"
    by code_simp
  ultimately show ?thesis unfolding s by auto
qed

theorem sanitize_error_message_form_witness:
  "sanitize_error_message (CHR 0x0A # ''git failed'') = ''git failed''
   \<and> \<not> list_ex is_disallowed_message_char (utf8_chunks (sanitize_error_message (CHR 0x0A # ''git failed'')))"
proof -
  have v: "utf8_valid (CHR 0x0A # ''git failed'')" by code_simp
  have e: "sanitize_error_message (CHR 0x0A # ''git failed'') = ''git failed''" by code_simp
  from sanitize_error_message_form [OF v] e show ?thesis by simp
qed

end
