(* ===== verification/Reporter.thy ===== *)
theory Reporter
  imports Redactor Api_Client "HOL-Library.Sublist"
begin

text \<open>
  The runtime reporter, \<^verbatim>\<open>crates/sakala-agent-core/src/reporting/runtime.rs\<close>: log lines are redacted and
  bounded when they are queued, and sent in bounded batches.

  The critical sections of the source (what runs under the \<^verbatim>\<open>state\<close> lock) are one definition each:
  \<open>accept_log\<close>, \<open>take_batch\<close>, \<open>stop_delivery\<close>. They are composed twice: \<open>flush_pending\<close>,
  \<open>reporter_log\<close> and \<open>reporter_flush\<close> run without interleaving and thread the network state; the step
  relation \<open>rstep\<close> interleaves any number of callers, the flush timers and a caller that is dropped
  while it waits for the network. The laws of the queue are the locale \<open>fifo_buffer\<close>, interpreted on
  \<open>accept_log\<close>'s push and \<open>take_batch\<close>.
\<close>

definition DEFAULT_BATCH_LINES :: nat where "DEFAULT_BATCH_LINES = 100"
definition MAX_BATCH_BYTES :: nat where "MAX_BATCH_BYTES = 512 * 1024"
definition FLUSH_INTERVAL :: duration where "FLUSH_INTERVAL = from_millis 200"

record LogState =
  ls_pending :: "DeploymentLog list"
  ls_pending_bytes :: nat
  ls_bytes_sent :: nat
  ls_delivery_stopped :: "string option"

definition log_state_default :: LogState where
  "log_state_default =
     \<lparr>ls_pending = [], ls_pending_bytes = 0, ls_bytes_sent = 0, ls_delivery_stopped = None\<rparr>"

text \<open>The fields of \<^verbatim>\<open>ReporterInner\<close> that never change, and those that do. A \<^verbatim>\<open>tokio::spawn\<close> of the
  flush timer is one more element of \<open>rs_timers\<close>.\<close>

record ReporterInner =
  ri_client :: ApiClient
  ri_command_id :: uuid
  ri_log_bounds :: LogBounds
  ri_batch_max_lines :: nat
  ri_flush_interval :: duration

record ReporterState =
  rs_state :: LogState
  rs_flush_scheduled :: bool
  rs_timers :: nat
  rs_deployment_committed :: bool
  rs_committed_output :: "json option"

definition with_flush_interval :: "ApiClient \<Rightarrow> uuid \<Rightarrow> LogBounds \<Rightarrow> duration \<Rightarrow> ReporterInner" where
  "with_flush_interval client command_id log_bounds flush_interval =
     \<lparr>ri_client = client, ri_command_id = command_id, ri_log_bounds = log_bounds,
      ri_batch_max_lines =
        max 1 (case lb_max_batch_lines log_bounds of
                 None \<Rightarrow> DEFAULT_BATCH_LINES
               | Some m \<Rightarrow> min (unat m) DEFAULT_BATCH_LINES),
      ri_flush_interval = flush_interval\<rparr>"

definition reporter_new :: "ApiClient \<Rightarrow> uuid \<Rightarrow> LogBounds \<Rightarrow> ReporterInner" where
  "reporter_new client command_id log_bounds =
     with_flush_interval client command_id log_bounds FLUSH_INTERVAL"

definition reporter_init :: ReporterState where
  "reporter_init =
     \<lparr>rs_state = log_state_default, rs_flush_scheduled = False, rs_timers = 0,
      rs_deployment_committed = False, rs_committed_output = None\<rparr>"

subsection \<open>Bounding one line\<close>

definition sanitise_line :: "string \<Rightarrow> string" where
  "sanitise_line s = trim_end (map (\<lambda>b. if b = CHR 0x0D \<or> b = CHR 0x0A then CHR '' '' else b) s)"

definition truncate_utf8 :: "string \<Rightarrow> nat option \<Rightarrow> string" where
  "truncate_utf8 s maximum =
     (case maximum of
        None \<Rightarrow> s
      | Some m \<Rightarrow> if length s \<le> m then s else take (floor_boundary s m) s)"

definition bounded_log :: "DeploymentLog \<Rightarrow> LogBounds \<Rightarrow> nat \<Rightarrow> DeploymentLog option rust" where
  "bounded_log log bounds sent =
     (if lb_max_batch_lines bounds = Some 0 then Ret None
      else rust_bind (redact_line (log_message log)) (\<lambda>redacted.
        let message = truncate_utf8 (sanitise_line redacted) (map_option unat (lb_max_line_length bounds))
        in case lb_max_total_bytes bounds of
             None \<Rightarrow> Ret (if message \<noteq> [] then Some (log\<lparr>log_message := message\<rparr>) else None)
           | Some maximum \<Rightarrow>
               if unat maximum \<le> sent then Ret None
               else
                 let message = truncate_utf8 message (Some (unat maximum - sent))
                 in Ret (if message \<noteq> [] then Some (log\<lparr>log_message := message\<rparr>) else None)))"

subsection \<open>The critical sections\<close>

definition stopped_error :: "string \<Rightarrow> RuntimeExecutionError" where
  "stopped_error reason = ree_reporting (''log delivery stopped: '' @ reason)"

fun batch_count :: "nat \<Rightarrow> DeploymentLog list \<Rightarrow> nat \<Rightarrow> nat \<Rightarrow> nat \<times> nat" where
  "batch_count max_lines [] count bytes = (count, bytes)"
| "batch_count max_lines (l # ls) count bytes =
     (if 0 < count \<and> (max_lines \<le> count \<or> MAX_BATCH_BYTES < bytes + length (log_message l))
      then (count, bytes)
      else batch_count max_lines ls (count + 1) (bytes + length (log_message l)))"

definition take_batch :: "nat \<Rightarrow> LogState \<Rightarrow> DeploymentLog list \<times> LogState" where
  "take_batch max_lines st =
     (let (count, bytes) = batch_count max_lines (ls_pending st) 0 0
      in (take count (ls_pending st),
          st\<lparr>ls_pending := drop count (ls_pending st), ls_pending_bytes := ls_pending_bytes st - bytes\<rparr>))"

definition stop_delivery :: "string \<Rightarrow> LogState \<Rightarrow> LogState" where
  "stop_delivery reason st =
     st\<lparr>ls_pending := [], ls_pending_bytes := 0, ls_delivery_stopped := Some reason\<rparr>"

definition push_log :: "DeploymentLog \<Rightarrow> LogState \<Rightarrow> LogState" where
  "push_log l st =
     st\<lparr>ls_bytes_sent := ls_bytes_sent st + length (log_message l),
        ls_pending_bytes := ls_pending_bytes st + length (log_message l),
        ls_pending := ls_pending st @ [l]\<rparr>"

text \<open>What \<^verbatim>\<open>log\<close> does under the lock: an error when delivery stopped, nothing for a line that is
  dropped, otherwise the line is queued and the result says whether to flush now.\<close>

datatype accepted = Rejected string | Dropped | Queued bool

definition accept_log :: "ReporterInner \<Rightarrow> DeploymentLog \<Rightarrow> LogState \<Rightarrow> (accepted \<times> LogState) rust" where
  "accept_log r log st =
     (case ls_delivery_stopped st of
        Some reason \<Rightarrow> Ret (Rejected reason, st)
      | None \<Rightarrow>
          rust_bind (bounded_log log (ri_log_bounds r) (ls_bytes_sent st)) (\<lambda>bounded.
            case bounded of
              None \<Rightarrow> Ret (Dropped, st)
            | Some l \<Rightarrow>
                let st = push_log l st
                in Ret (Queued (ri_batch_max_lines r \<le> length (ls_pending st)
                                \<or> MAX_BATCH_BYTES \<le> ls_pending_bytes st), st)))"

fun log_bytes :: "DeploymentLog list \<Rightarrow> nat" where
  "log_bytes [] = 0"
| "log_bytes (l # ls) = length (log_message l) + log_bytes ls"

lemma log_bytes_append [simp]: "log_bytes (xs @ ys) = log_bytes xs + log_bytes ys"
  by (induction xs) auto

lemma batch_count_bounds:
  assumes "batch_count m ls c b = (c', b')"
  shows "c \<le> c' \<and> c' \<le> c + length ls \<and> b' = b + log_bytes (take (c' - c) ls)
     \<and> (ls \<noteq> [] \<longrightarrow> 0 < c')"
  using assms
proof (induction m ls c b rule: batch_count.induct)
  case (2 m l ls c b)
  show ?case
  proof (cases "0 < c \<and> (m \<le> c \<or> MAX_BATCH_BYTES < b + length (log_message l))")
    case True
    with 2(2) show ?thesis by auto
  next
    case False
    with 2 have "c + 1 \<le> c' \<and> c' \<le> c + 1 + length ls
        \<and> b' = b + length (log_message l) + log_bytes (take (c' - (c + 1)) ls)"
      by auto
    moreover from this have "c' - c = Suc (c' - (c + 1))" by arith
    ultimately show ?thesis by auto
  qed
qed auto

lemma batch_count_limits:
  assumes "batch_count m ls c b = (c', b')" "1 \<le> m" "c \<le> m" "c \<le> 1 \<or> b \<le> MAX_BATCH_BYTES"
  shows "c' \<le> m \<and> (c' \<le> 1 \<or> b' \<le> MAX_BATCH_BYTES)"
  using assms
proof (induction m ls c b rule: batch_count.induct)
  case (2 m l ls c b)
  then show ?case by (cases "c = 0") (auto split: if_splits)
qed auto

lemma take_batch_split:
  assumes "take_batch m st = (batch, st')"
  shows "ls_pending st = batch @ ls_pending st'" "ls_pending st \<noteq> [] \<Longrightarrow> batch \<noteq> []"
    "ls_pending_bytes st' = ls_pending_bytes st - log_bytes batch"
    "ls_bytes_sent st' = ls_bytes_sent st" "ls_delivery_stopped st' = ls_delivery_stopped st"
proof -
  obtain c b where cb: "batch_count m (ls_pending st) 0 0 = (c, b)" by fastforce
  with assms have t: "batch = take c (ls_pending st)"
    "st' = st\<lparr>ls_pending := drop c (ls_pending st), ls_pending_bytes := ls_pending_bytes st - b\<rparr>"
    by (auto simp: take_batch_def)
  from batch_count_bounds [OF cb] t
  show "ls_pending st = batch @ ls_pending st'" "ls_pending st \<noteq> [] \<Longrightarrow> batch \<noteq> []"
    "ls_pending_bytes st' = ls_pending_bytes st - log_bytes batch"
    "ls_bytes_sent st' = ls_bytes_sent st" "ls_delivery_stopped st' = ls_delivery_stopped st"
    by auto
qed


lemma take_batch_limits:
  assumes "take_batch m st = (batch, st')" "1 \<le> m"
  shows "length batch \<le> m" "length batch \<le> 1 \<or> log_bytes batch \<le> MAX_BATCH_BYTES"
proof -
  obtain c b where cb: "batch_count m (ls_pending st) 0 0 = (c, b)" by fastforce
  with assms(1) have "batch = take c (ls_pending st)" by (auto simp: take_batch_def)
  with batch_count_limits [OF cb assms(2)] batch_count_bounds [OF cb]
  show "length batch \<le> m" "length batch \<le> 1 \<or> log_bytes batch \<le> MAX_BATCH_BYTES" by auto
qed

subsection \<open>The operations, run without interleaving\<close>

text \<open>The loop of \<^verbatim>\<open>flush_pending\<close>. It ends because every pass takes at least one line.\<close>

function flush_pending ::
    "http_env \<Rightarrow> ReporterInner \<Rightarrow> LogState \<Rightarrow> net \<Rightarrow> (RuntimeExecutionError + unit) \<times> LogState \<times> net" where
  "flush_pending E r st n =
     (case ls_delivery_stopped st of
        Some reason \<Rightarrow> (Inl (stopped_error reason), st, n)
      | None \<Rightarrow>
          if ls_pending st = [] then (Inr (), st, n)
          else
            (case take_batch (ri_batch_max_lines r) st of (batch, st) \<Rightarrow>
               (case logs E (ri_client r) (ri_command_id r) batch n of
                  (Inl error, n) \<Rightarrow>
                    (Inl (stopped_error (core_error_text error)), stop_delivery (core_error_text error) st, n)
                | (Inr _, n) \<Rightarrow> flush_pending E r st n)))"
  by pat_completeness auto
termination
proof (relation "measure (\<lambda>(E, r, st, n). length (ls_pending st))", goal_cases)
  case (2 E r st n batch st' res n')
  then have "take_batch (ri_batch_max_lines r) st = (batch, st')" by simp
  from take_batch_split(1,2) [OF this] 2 show ?case by auto
qed simp

declare flush_pending.simps [simp del]

definition schedule_flush :: "ReporterState \<Rightarrow> ReporterState" where
  "schedule_flush s =
     (if rs_flush_scheduled s then s
      else s\<lparr>rs_flush_scheduled := True, rs_timers := rs_timers s + 1\<rparr>)"

definition reporter_log ::
    "http_env \<Rightarrow> ReporterInner \<Rightarrow> DeploymentLog \<Rightarrow> ReporterState \<Rightarrow> net \<Rightarrow>
     ((RuntimeExecutionError + unit) \<times> ReporterState \<times> net) rust" where
  "reporter_log E r log s n =
     rust_bind (accept_log r log (rs_state s)) (\<lambda>(a, st).
       let s = s\<lparr>rs_state := st\<rparr>
       in case a of
            Rejected reason \<Rightarrow> Ret (Inl (stopped_error reason), s, n)
          | Dropped \<Rightarrow> Ret (Inr (), s, n)
          | Queued flush_now \<Rightarrow>
              if flush_now then
                (case flush_pending E r st n of (res, st, n) \<Rightarrow> Ret (res, s\<lparr>rs_state := st\<rparr>, n))
              else Ret (Inr (), schedule_flush s, n))"

definition reporter_flush ::
    "http_env \<Rightarrow> ReporterInner \<Rightarrow> ReporterState \<Rightarrow> net \<Rightarrow> (RuntimeExecutionError + unit) \<times> ReporterState \<times> net" where
  "reporter_flush E r s n =
     (case flush_pending E r (rs_state s) n of (res, st, n) \<Rightarrow> (res, s\<lparr>rs_state := st\<rparr>, n))"

text \<open>The body of the spawned timer after its sleep.\<close>

definition timer_fires :: "http_env \<Rightarrow> ReporterInner \<Rightarrow> ReporterState \<Rightarrow> net \<Rightarrow> ReporterState \<times> net" where
  "timer_fires E r s n =
     (case reporter_flush E r (s\<lparr>rs_timers := rs_timers s - 1, rs_flush_scheduled := False\<rparr>) n of
        (_, s, n) \<Rightarrow> (s, n))"

definition reporter_event ::
    "http_env \<Rightarrow> ReporterInner \<Rightarrow> DeploymentEvent \<Rightarrow> net \<Rightarrow> (RuntimeExecutionError + unit) \<times> net" where
  "reporter_event E r ev n =
     (case event E (ri_client r) (ri_command_id r) ev n of
        (Inr _, n) \<Rightarrow> (Inr (), n)
      | (Inl error, n) \<Rightarrow> (Inl (ree_reporting (core_error_text error)), n))"

definition mark_deployment_committed :: "json \<Rightarrow> ReporterState \<Rightarrow> ReporterState" where
  "mark_deployment_committed output s =
     s\<lparr>rs_committed_output := Some output, rs_deployment_committed := True\<rparr>"

definition deployment_committed :: "ReporterState \<Rightarrow> bool" where
  "deployment_committed s = rs_deployment_committed s"

definition committed_output :: "ReporterState \<Rightarrow> json option" where
  "committed_output s = (if \<not> deployment_committed s then None else rs_committed_output s)"


subsection \<open>Bounded lines\<close>

lemma trim_end_prefix: "\<exists>t. s = trim_end s @ t"
proof -
  let ?d = "dropWhile is_whitespace (rev (utf8_chunks s))" and ?t = "takeWhile is_whitespace (rev (utf8_chunks s))"
  have "concat (utf8_chunks s) = concat (rev ?d) @ concat (rev ?t)"
    by (metis concat_append rev_append rev_rev_ident takeWhile_dropWhile_id)
  then show ?thesis by (metis concat_utf8_chunks trim_end_def)
qed

lemma truncate_prefix: "\<exists>t. s = truncate_utf8 s m @ t"
proof (cases m)
  case (Some k)
  then show ?thesis
    by (auto simp: truncate_utf8_def intro: exI [of _ "drop (floor_boundary s k) s"])
qed (simp add: truncate_utf8_def)

lemma truncate_length: "length (truncate_utf8 s (Some m)) \<le> m"
  using floor_boundary_le [of s m] by (auto simp: truncate_utf8_def min_def)

lemma bounded_log_cases:
  assumes "bounded_log log bounds sent = Ret (Some l)"
  obtains redacted m where "redact_line (log_message log) = Ret redacted"
    "log_message l = truncate_utf8 (truncate_utf8 (sanitise_line redacted) (map_option unat (lb_max_line_length bounds))) m"
    "log_message l \<noteq> []" "l = log\<lparr>log_message := log_message l\<rparr>"
    "case lb_max_total_bytes bounds of None \<Rightarrow> m = None | Some t \<Rightarrow> sent < unat t \<and> m = Some (unat t - sent)"
    "lb_max_batch_lines bounds \<noteq> Some 0"
proof -
  from assms obtain red where r: "redact_line (log_message log) = Ret red" and b: "lb_max_batch_lines bounds \<noteq> Some 0"
    by (auto simp: bounded_log_def rust_bind_Ret split: if_splits)
  let ?m = "case lb_max_total_bytes bounds of None \<Rightarrow> None | Some t \<Rightarrow> Some (unat t - sent)"
  show ?thesis
  proof (rule that [of red ?m])
    show "log_message l = truncate_utf8 (truncate_utf8 (sanitise_line red) (map_option unat (lb_max_line_length bounds))) ?m"
      and "log_message l \<noteq> []" "l = log\<lparr>log_message := log_message l\<rparr>"
      and "case lb_max_total_bytes bounds of None \<Rightarrow> ?m = None | Some t \<Rightarrow> sent < unat t \<and> ?m = Some (unat t - sent)"
      using assms r b
      by (auto simp: bounded_log_def Let_def truncate_utf8_def [of _ None] split: option.splits if_splits)
  qed (use r b in auto)
qed

lemma bounded_log_prefix:
  assumes "bounded_log log bounds sent = Ret (Some l)"
  obtains redacted t where "redact_line (log_message log) = Ret redacted"
    "map (\<lambda>b. if b = CHR 0x0D \<or> b = CHR 0x0A then CHR '' '' else b) redacted = log_message l @ t"
proof -
  from assms obtain red m where r: "redact_line (log_message log) = Ret red"
    and l: "log_message l = truncate_utf8 (truncate_utf8 (sanitise_line red) (map_option unat (lb_max_line_length bounds))) m"
    by (rule bounded_log_cases) blast
  let ?a = "sanitise_line red" and ?b = "truncate_utf8 (sanitise_line red) (map_option unat (lb_max_line_length bounds))"
  obtain t1 where "map (\<lambda>b. if b = CHR 0x0D \<or> b = CHR 0x0A then CHR '' '' else b) red = ?a @ t1"
    unfolding sanitise_line_def using trim_end_prefix by blast
  moreover obtain t2 where "?a = ?b @ t2" using truncate_prefix by blast
  moreover obtain t3 where "?b = log_message l @ t3" unfolding l using truncate_prefix by blast
  ultimately have "map (\<lambda>b. if b = CHR 0x0D \<or> b = CHR 0x0A then CHR '' '' else b) red = log_message l @ (t3 @ t2 @ t1)"
    by (metis append_assoc)
  with r that show ?thesis by blast
qed

text \<open>A line the reporter queues is one non-empty line within every bound of the policy: no carriage
  return or line feed, at most \<open>max_line_length\<close> bytes, and it fits in what is left of
  \<open>max_total_bytes\<close>; under a zero-line policy nothing is queued.\<close>

theorem bounded_log_bounds:
  assumes "bounded_log log bounds sent = Ret (Some l)"
  shows "log_message l \<noteq> [] \<and> CHR 0x0D \<notin> set (log_message l) \<and> CHR 0x0A \<notin> set (log_message l)
     \<and> (case lb_max_line_length bounds of None \<Rightarrow> True | Some m \<Rightarrow> length (log_message l) \<le> unat m)
     \<and> (case lb_max_total_bytes bounds of None \<Rightarrow> True | Some m \<Rightarrow> sent + length (log_message l) \<le> unat m)
     \<and> lb_max_batch_lines bounds \<noteq> Some 0
     \<and> log_stream l = log_stream log \<and> log_recorded_at l = log_recorded_at log"
proof -
  from assms obtain red m where
    l: "log_message l = truncate_utf8 (truncate_utf8 (sanitise_line red) (map_option unat (lb_max_line_length bounds))) m"
    and ne: "log_message l \<noteq> []" and le: "l = log\<lparr>log_message := log_message l\<rparr>"
    and m: "case lb_max_total_bytes bounds of None \<Rightarrow> m = None | Some t \<Rightarrow> sent < unat t \<and> m = Some (unat t - sent)"
    and b: "lb_max_batch_lines bounds \<noteq> Some 0"
    by (rule bounded_log_cases) blast
  let ?b = "truncate_utf8 (sanitise_line red) (map_option unat (lb_max_line_length bounds))"
  have "length (log_message l) \<le> length ?b"
    using truncate_prefix [of ?b m] l by (metis length_append le_add1)
  moreover have "lb_max_line_length bounds = Some k \<Longrightarrow> length ?b \<le> unat k" for k
    using truncate_length by simp
  moreover have "lb_max_total_bytes bounds = Some k \<Longrightarrow> length (log_message l) \<le> unat k - sent \<and> sent < unat k" for k
    using m l truncate_length by auto
  moreover have "CHR 0x0D \<notin> set (log_message l)" "CHR 0x0A \<notin> set (log_message l)"
  proof -
    from assms obtain red t where
      "map (\<lambda>b. if b = CHR 0x0D \<or> b = CHR 0x0A then CHR '' '' else b) red = log_message l @ t"
      by (rule bounded_log_prefix)
    then have "set (log_message l) \<subseteq> (\<lambda>b. if b = CHR 0x0D \<or> b = CHR 0x0A then CHR '' '' else b) ` set red"
      by (metis set_map set_append Un_upper1)
    then show "CHR 0x0D \<notin> set (log_message l)" "CHR 0x0A \<notin> set (log_message l)"
      by (auto split: if_splits)
  qed
  moreover have "log_stream l = log_stream log" "log_recorded_at l = log_recorded_at log"
    using arg_cong [OF le, of log_stream] arg_cong [OF le, of log_recorded_at] by simp_all
  ultimately show ?thesis using ne b by (fastforce split: option.splits)
qed

text \<open>Well-formed text stays well-formed: redaction, the folding of line breaks and both truncations
  change a line at character boundaries only.\<close>

lemma sanitise_line_utf8: "utf8_valid s \<Longrightarrow> utf8_valid (sanitise_line s)"
  unfolding sanitise_line_def
  by (intro utf8_valid_trim_end utf8_valid_map_ascii) (auto split: if_splits)

lemma truncate_utf8_valid: "utf8_valid s \<Longrightarrow> utf8_valid (truncate_utf8 s m)"
  using utf8_valid_take floor_boundary_max by (simp add: truncate_utf8_def split: option.splits)

lemma bounded_log_utf8:
  assumes "bounded_log log bounds sent = Ret (Some l)" "utf8_valid (log_message log)"
  shows "utf8_valid (log_message l)"
proof -
  from assms(1) obtain red m where r: "redact_line (log_message log) = Ret red"
    and l: "log_message l = truncate_utf8 (truncate_utf8 (sanitise_line red) (map_option unat (lb_max_line_length bounds))) m"
    by (rule bounded_log_cases) blast
  have "utf8_valid red" using redacts_utf8_valid [OF redact_line_redacts [OF r] assms(2)] .
  then show ?thesis unfolding l by (intro truncate_utf8_valid sanitise_line_utf8)
qed

definition example_log :: "string \<Rightarrow> DeploymentLog" where
  "example_log m = \<lparr>log_stream = Stdout, log_message = m, log_recorded_at = 0\<rparr>"

definition example_bounds :: LogBounds where
  "example_bounds = \<lparr>lb_max_line_length = Some 8, lb_max_batch_lines = Some 2, lb_max_total_bytes = Some 10\<rparr>"

theorem bounded_log_bounds_witness:
  "bounded_log (example_log ''hello world'') example_bounds 4 = Ret (Some (example_log ''hello ''))
   \<and> 4 + length (log_message (example_log ''hello '')) \<le> 10"
proof -
  have b: "bounded_log (example_log ''hello world'') example_bounds 4 = Ret (Some (example_log ''hello ''))"
    by code_simp
  from bounded_log_bounds [OF b] b show ?thesis by (simp add: example_bounds_def)
qed

text \<open>No line the reporter queues contains a GitHub token prefix, in any letter case: redaction
  survives the later folding of line breaks and the truncations.\<close>

theorem bounded_log_no_token_prefix:
  assumes "bounded_log log bounds sent = Ret (Some l)" and "p \<in> set TOKEN_PREFIXES"
  shows "\<not> contains (to_ascii_lowercase (log_message l)) p"
proof
  let ?f = "\<lambda>b. if b = CHR 0x0D \<or> b = CHR 0x0A then CHR '' '' else b"
  assume "contains (to_ascii_lowercase (log_message l)) p"
  then obtain i where i: "occurs_at p (log_message l) i"
    using token_prefixes_lower [OF assms(2)] by (auto simp: occurs_at_contains)
  from assms(1) obtain red t where r: "redact_line (log_message log) = Ret red"
    and m: "map ?f red = log_message l @ t" by (rule bounded_log_prefix)
  have "lower CHR '' '' \<notin> set (map lower p)"
  proof -
    have "list_all (\<lambda>p. lower CHR '' '' \<notin> set (map lower p)) TOKEN_PREFIXES" by code_simp
    then show ?thesis using assms(2) by (simp add: list_all_iff)
  qed
  moreover have "lower (red ! (i + k)) = lower (p ! k) \<or> lower (p ! k) = lower CHR '' ''" if "k < length p" for k
  proof -
    have "i + k < length (log_message l)" using i that by (auto simp: occurs_at_def)
    moreover from this have "log_message l ! (i + k) = ?f (red ! (i + k))"
      using arg_cong [OF m, of "\<lambda>s. s ! (i + k)"] arg_cong [OF m, of length] by (simp add: nth_append)
    ultimately show ?thesis using i that by (auto simp: occurs_at_def split: if_splits)
  qed
  moreover have "i + length p \<le> length red"
    using i arg_cong [OF m, of length] by (simp add: occurs_at_def)
  ultimately have "occurs_at p red i"
    by (auto simp: occurs_at_def) (metis nth_mem image_eqI)
  then have "contains (to_ascii_lowercase red) p"
    using token_prefixes_lower [OF assms(2)] by (auto simp: occurs_at_contains)
  moreover have "\<not> contains (to_ascii_lowercase red) p"
    using redact_line_token_prefix [OF r assms(2)] .
  ultimately show False by simp
qed

theorem bounded_log_no_token_prefix_witness:
  "bounded_log (example_log ''a ghp_SECRET'') (example_bounds\<lparr>lb_max_total_bytes := None\<rparr>) 0 = Ret (Some (example_log ''a [REDAC''))
   \<and> \<not> contains (to_ascii_lowercase ''a [REDAC'') ''ghp_''"
proof -
  have b: "bounded_log (example_log ''a ghp_SECRET'') (example_bounds\<lparr>lb_max_total_bytes := None\<rparr>) 0
           = Ret (Some (example_log ''a [REDAC''))"
    by code_simp
  from bounded_log_no_token_prefix [OF b, of "''ghp_''"] b show ?thesis
    by (simp add: TOKEN_PREFIXES_def example_log_def)
qed

text \<open>Truncating to a byte limit never cuts a character and never gives up more than the three
  bytes a cut character could have needed: the result is a prefix of the line, well-formed, within the
  limit, and at most three bytes shorter than the line and the limit allow.\<close>

theorem truncate_utf8_tight:
  assumes "utf8_valid s"
  shows "prefix (truncate_utf8 s (Some m)) s \<and> utf8_valid (truncate_utf8 s (Some m))
     \<and> length (truncate_utf8 s (Some m)) \<le> m
     \<and> min (length s) m \<le> length (truncate_utf8 s (Some m)) + 3"
proof (intro conjI)
  show "prefix (truncate_utf8 s (Some m)) s"
    using truncate_prefix [of s "Some m"] by (auto simp: prefix_def)
  show "min (length s) m \<le> length (truncate_utf8 s (Some m)) + 3"
  proof (cases "length s \<le> m")
    case False
    then obtain j where "j \<le> m" "m \<le> j + 3" "is_char_boundary s j"
      using utf8_boundary_near [OF assms, of m] by auto
    moreover from this have "j \<le> floor_boundary s m"
      using floor_boundary_max [of s m] not_le by blast
    ultimately show ?thesis
      using False floor_boundary_le [of s m] by (simp add: truncate_utf8_def min_def)
  qed (simp add: truncate_utf8_def)
qed (rule truncate_utf8_valid [OF assms] truncate_length)+

theorem truncate_utf8_tight_witness:
  "truncate_utf8 [CHR ''a'', CHR 0xC3, CHR 0xA9] (Some 2) = ''a''
   \<and> utf8_valid (truncate_utf8 [CHR ''a'', CHR 0xC3, CHR 0xA9] (Some 2))"
proof -
  have v: "utf8_valid [CHR ''a'', CHR 0xC3, CHR 0xA9]" by code_simp
  have e: "truncate_utf8 [CHR ''a'', CHR 0xC3, CHR 0xA9] (Some 2) = ''a''" by code_simp
  from truncate_utf8_tight [OF v, of 2] e show ?thesis by simp
qed



subsection \<open>The queue as an interface\<close>

text \<open>A buffer that is pushed at one end and drained in batches at the other. A script is a list of
  pushes (\<open>Some x\<close>) and drains (\<open>None\<close>); \<open>buffer_run\<close> collects what the drains return.\<close>

fun buffer_run :: "('a \<Rightarrow> 's \<Rightarrow> 's) \<Rightarrow> ('s \<Rightarrow> 'a list \<times> 's) \<Rightarrow> 'a option list \<Rightarrow> 's \<Rightarrow> 'a list \<times> 's" where
  "buffer_run push pop [] s = ([], s)"
| "buffer_run push pop (Some x # ops) s = buffer_run push pop ops (push x s)"
| "buffer_run push pop (None # ops) s =
     (case pop s of (b, s) \<Rightarrow> (case buffer_run push pop ops s of (out, s) \<Rightarrow> (b @ out, s)))"

fun pushed :: "'a option list \<Rightarrow> 'a list" where
  "pushed [] = []"
| "pushed (Some x # ops) = x # pushed ops"
| "pushed (None # ops) = pushed ops"

locale fifo_buffer =
  fixes contents :: "'s \<Rightarrow> 'a list"
    and push :: "'a \<Rightarrow> 's \<Rightarrow> 's"
    and pop :: "'s \<Rightarrow> 'a list \<times> 's"
  assumes contents_push: "contents (push x s) = contents s @ [x]"
    and contents_pop: "pop s = (b, s') \<Longrightarrow> contents s = b @ contents s'"
    and pop_progress: "contents s \<noteq> [] \<Longrightarrow> fst (pop s) \<noteq> []"
begin

lemma fifo:
  "buffer_run push pop ops s = (out, s') \<Longrightarrow> contents s @ pushed ops = out @ contents s'"
proof (induction ops arbitrary: s out s')
  case (Cons op ops)
  show ?case
  proof (cases op)
    case None
    obtain b t where p: "pop s = (b, t)" by fastforce
    obtain o' u where r: "buffer_run push pop ops t = (o', u)" by fastforce
    from Cons.prems None p r have "out = b @ o'" "s' = u" by simp_all
    with Cons.IH [OF r] contents_pop [OF p] None show ?thesis by simp
  next
    case (Some x)
    with Cons.prems Cons.IH [of "push x s" out s'] show ?thesis by (simp add: contents_push)
  qed
qed simp

lemma drained:
  "length (contents s) \<le> k \<Longrightarrow> contents (snd (buffer_run push pop (replicate k None) s)) = []"
proof (induction k arbitrary: s)
  case (Suc k)
  obtain b t where p: "pop s = (b, t)" by fastforce
  have "length (contents t) \<le> k"
    using contents_pop [OF p] pop_progress [of s] Suc.prems p by (cases "contents s = []"; cases b) auto
  with Suc.IH [of t] p show ?case by (auto split: prod.splits)
qed simp

end

interpretation rq: fifo_buffer ls_pending push_log "take_batch m" for m
proof
  show "ls_pending (push_log x s) = ls_pending s @ [x]" for x s by (simp add: push_log_def)
  show "take_batch m s = (b, s') \<Longrightarrow> ls_pending s = b @ ls_pending s'" for s b s'
    by (rule take_batch_split(1))
  show "ls_pending s \<noteq> [] \<Longrightarrow> fst (take_batch m s) \<noteq> []" for s
    using take_batch_split(2) [of m s] by (cases "take_batch m s") auto
qed

text \<open>Whatever the interleaving of queued lines and batches, the batches are the queued lines in order,
  each exactly once, followed by what is still pending; draining as many times as there are pending
  lines leaves nothing.\<close>

theorem pending_is_fifo:
  "ls_pending st @ pushed ops
     = fst (buffer_run push_log (take_batch m) ops st) @ ls_pending (snd (buffer_run push_log (take_batch m) ops st))
   \<and> ls_pending (snd (buffer_run push_log (take_batch m) (replicate (length (ls_pending st)) None) st)) = []"
  using rq.fifo [of m ops st "fst (buffer_run push_log (take_batch m) ops st)"
      "snd (buffer_run push_log (take_batch m) ops st)"] rq.drained [of st "length (ls_pending st)" m]
  by simp

subsection \<open>A whole flush\<close>

definition batch_ok :: "nat \<Rightarrow> DeploymentLog list \<Rightarrow> bool" where
  "batch_ok m b \<longleftrightarrow> 1 \<le> length b \<and> length b \<le> m \<and> (length b = 1 \<or> log_bytes b \<le> MAX_BATCH_BYTES)"

text \<open>Reporting a list of batches one after the other, as long as each is acknowledged.\<close>

fun send_all :: "http_env \<Rightarrow> ReporterInner \<Rightarrow> DeploymentLog list list \<Rightarrow> net \<Rightarrow> net option" where
  "send_all E r [] n = Some n"
| "send_all E r (b # bs) n =
     (case logs E (ri_client r) (ri_command_id r) b n of
        (Inl _, _) \<Rightarrow> None
      | (Inr _, n) \<Rightarrow> send_all E r bs n)"

definition flushed :: "http_env \<Rightarrow> ReporterInner \<Rightarrow> DeploymentLog list \<Rightarrow> net \<Rightarrow>
    (RuntimeExecutionError + unit) \<times> LogState \<times> net \<Rightarrow> bool" where
  "flushed E r pending n result =
     (case result of
        (Inr _, st', n') \<Rightarrow>
          ls_pending st' = [] \<and> ls_delivery_stopped st' = None
          \<and> (\<exists>bs. concat bs = pending \<and> list_all (batch_ok (ri_batch_max_lines r)) bs \<and> send_all E r bs n = Some n')
      | (Inl _, st', n') \<Rightarrow> ls_pending st' = [] \<and> ls_delivery_stopped st' \<noteq> None)"

lemma flush_pending_flushed:
  assumes "ls_delivery_stopped st = None" "1 \<le> ri_batch_max_lines r"
  shows "flushed E r (ls_pending st) n (flush_pending E r st n)"
  using assms
proof (induction E r st n rule: flush_pending.induct)
  case (1 E r st n)
  show ?case
  proof (cases "ls_pending st = []")
    case True
    with 1 show ?thesis
      by (subst flush_pending.simps) (auto simp: flushed_def intro!: exI [of _ "[]"])
  next
    case False
    obtain b st1 where tb: "take_batch (ri_batch_max_lines r) st = (b, st1)" by fastforce
    note sp = take_batch_split [OF tb] and lim = take_batch_limits [OF tb 1(3)]
    have ok: "batch_ok (ri_batch_max_lines r) b"
      using sp(2) [OF False] lim by (cases b) (auto simp: batch_ok_def)
    obtain res n1 where lg: "logs E (ri_client r) (ri_command_id r) b n = (res, n1)" by fastforce
    show ?thesis
    proof (cases res)
      case (Inl e)
      with 1(2) False tb lg show ?thesis
        by (subst flush_pending.simps) (simp add: flushed_def stop_delivery_def)
    next
      case (Inr a)
      have step: "flush_pending E r st n = flush_pending E r st1 n1"
        using 1(2) False tb lg Inr by (subst flush_pending.simps) simp
      have "flushed E r (ls_pending st1) n1 (flush_pending E r st1 n1)"
        using 1(1) [OF 1(2) False tb [symmetric] lg [symmetric] Inr] 1(2,3) sp(5) by simp
      moreover have "\<exists>cs. concat cs = ls_pending st \<and> list_all (batch_ok (ri_batch_max_lines r)) cs
          \<and> send_all E r cs n = Some n'"
        if "concat bs = ls_pending st1" "list_all (batch_ok (ri_batch_max_lines r)) bs" "send_all E r bs n1 = Some n'"
        for bs n'
        using that ok lg Inr sp(1) by (intro exI [of _ "b # bs"]) simp
      ultimately show ?thesis
        unfolding step by (fastforce simp: flushed_def split: prod.splits sum.splits)
    qed
  qed
qed


lemma batch_max_lines_range:
  "1 \<le> ri_batch_max_lines (with_flush_interval c u b d) \<and> ri_batch_max_lines (with_flush_interval c u b d) \<le> 100"
  by (auto simp: with_flush_interval_def DEFAULT_BATCH_LINES_def split: option.splits)

text \<open>A flush of a reporter whose delivery is not stopped always ends with an empty queue. When it
  succeeds, the queued lines were sent in order as batches of at least one and at most
  \<open>min(100, max_batch_lines)\<close> lines and at most 512 KiB (unless a single line is longer), each
  acknowledged before the next; when it fails, delivery is stopped.\<close>

theorem flush_delivers_all:
  assumes "r = with_flush_interval client command_id bounds interval" and "ls_delivery_stopped st = None"
  shows "case flush_pending E r st n of
      (Inr _, st', n') \<Rightarrow>
          ls_pending st' = [] \<and> ls_delivery_stopped st' = None
          \<and> (\<exists>bs. concat bs = ls_pending st \<and> list_all (batch_ok (ri_batch_max_lines r)) bs
                \<and> send_all E r bs n = Some n')
    | (Inl _, st', n') \<Rightarrow> ls_pending st' = [] \<and> ls_delivery_stopped st' \<noteq> None"
  using flush_pending_flushed [OF assms(2), of r E n] batch_max_lines_range [of client command_id bounds interval] assms(1)
  unfolding flushed_def by simp

definition example_reporter :: ReporterInner where
  "example_reporter = with_flush_interval example_client 7 example_bounds 0"

definition two_lines :: LogState where
  "two_lines = push_log (example_log ''b'') (push_log (example_log ''a'') log_state_default)"

theorem flush_delivers_all_witness:
  "ls_delivery_stopped two_lines = None
   \<and> (case flush_pending flaky_env example_reporter two_lines \<lparr>net_log = [], net_uuids = 0\<rparr> of
        (_, st', n') \<Rightarrow> ls_pending st' = [])"
proof -
  have s: "ls_delivery_stopped two_lines = None"
    by (simp add: two_lines_def push_log_def log_state_default_def)
  from flush_delivers_all [OF example_reporter_def s, of flaky_env "\<lparr>net_log = [], net_uuids = 0\<rparr>"] s
  show ?thesis by (auto split: prod.splits sum.splits)
qed

text \<open>Once delivery stopped it stays stopped: further lines and flushes fail with the stored reason and
  neither send a request nor change the queue.\<close>

theorem delivery_latch:
  assumes "ls_delivery_stopped (rs_state s) = Some reason"
  shows "reporter_log E r log s n = Ret (Inl (stopped_error reason), s, n)
     \<and> reporter_flush E r s n = (Inl (stopped_error reason), s, n)"
  using assms by (simp add: reporter_log_def accept_log_def reporter_flush_def flush_pending.simps)

theorem delivery_latch_witness:
  "reporter_flush flaky_env example_reporter (reporter_init\<lparr>rs_state := stop_delivery ''x'' two_lines\<rparr>) \<lparr>net_log = [], net_uuids = 0\<rparr>
   = (Inl (stopped_error ''x''), reporter_init\<lparr>rs_state := stop_delivery ''x'' two_lines\<rparr>, \<lparr>net_log = [], net_uuids = 0\<rparr>)"
  by (rule delivery_latch [THEN conjunct2]) (simp add: stop_delivery_def)

subsection \<open>Interleaved callers\<close>

text \<open>Between its critical sections a caller of \<^verbatim>\<open>log\<close> is about to schedule a timer (\<open>rw_schedulers\<close>) or
  waits for the flush lock (\<open>rw_flushers\<close>, also the timers and explicit flushes); the task that holds
  the lock looks at the queue or waits for the answer to a batch. The histories record the lines
  queued, taken from the queue, and acknowledged.\<close>

datatype lock_holder = Idle | Looking | Sending "DeploymentLog list"

record rworld =
  rw_rep :: ReporterState
  rw_schedulers :: nat
  rw_flushers :: nat
  rw_holder :: lock_holder
  rw_accepted :: "DeploymentLog list"
  rw_drained :: "DeploymentLog list"
  rw_delivered :: "DeploymentLog list"

datatype raction =
    ALog DeploymentLog | ASchedule | ATimer | AFlush | ALock | ALook | AAcknowledged | AFailed string
  | ADropSending | ADropWaiting

definition rinit :: rworld where
  "rinit = \<lparr>rw_rep = reporter_init, rw_schedulers = 0, rw_flushers = 0, rw_holder = Idle,
            rw_accepted = [], rw_drained = [], rw_delivered = []\<rparr>"

definition rw_set_state :: "LogState \<Rightarrow> rworld \<Rightarrow> rworld" where
  "rw_set_state st w = w\<lparr>rw_rep := (rw_rep w)\<lparr>rs_state := st\<rparr>\<rparr>"

fun raction_step :: "ReporterInner \<Rightarrow> raction \<Rightarrow> rworld \<Rightarrow> rworld option" where
  "raction_step r (ALog log) w =
     (case accept_log r log (rs_state (rw_rep w)) of
        Ret (Queued flush_now, st) \<Rightarrow>
          let w = (rw_set_state st w)\<lparr>rw_accepted := rw_accepted w @ [last (ls_pending st)]\<rparr>
          in Some (if flush_now then w\<lparr>rw_flushers := rw_flushers w + 1\<rparr>
                   else w\<lparr>rw_schedulers := rw_schedulers w + 1\<rparr>)
      | _ \<Rightarrow> None)"
| "raction_step r ASchedule w =
     (if 0 < rw_schedulers w then
        Some (w\<lparr>rw_schedulers := rw_schedulers w - 1, rw_rep := schedule_flush (rw_rep w)\<rparr>)
      else None)"
| "raction_step r ATimer w =
     (if 0 < rs_timers (rw_rep w) then
        Some (w\<lparr>rw_rep := (rw_rep w)\<lparr>rs_timers := rs_timers (rw_rep w) - 1, rs_flush_scheduled := False\<rparr>,
                rw_flushers := rw_flushers w + 1\<rparr>)
      else None)"
| "raction_step r AFlush w = Some (w\<lparr>rw_flushers := rw_flushers w + 1\<rparr>)"
| "raction_step r ALock w =
     (if 0 < rw_flushers w \<and> rw_holder w = Idle then
        Some (w\<lparr>rw_flushers := rw_flushers w - 1, rw_holder := Looking\<rparr>)
      else None)"
| "raction_step r ALook w =
     (if rw_holder w = Looking then
        let st = rs_state (rw_rep w)
        in if ls_delivery_stopped st \<noteq> None \<or> ls_pending st = [] then Some (w\<lparr>rw_holder := Idle\<rparr>)
           else (case take_batch (ri_batch_max_lines r) st of (b, st) \<Rightarrow>
                   Some ((rw_set_state st w)\<lparr>rw_holder := Sending b, rw_drained := rw_drained w @ b\<rparr>))
      else None)"
| "raction_step r AAcknowledged w =
     (case rw_holder w of
        Sending b \<Rightarrow> Some (w\<lparr>rw_holder := Looking, rw_delivered := rw_delivered w @ b\<rparr>)
      | _ \<Rightarrow> None)"
| "raction_step r (AFailed reason) w =
     (case rw_holder w of
        Sending b \<Rightarrow> Some ((rw_set_state (stop_delivery reason (rs_state (rw_rep w))) w)\<lparr>rw_holder := Idle\<rparr>)
      | _ \<Rightarrow> None)"
| "raction_step r ADropSending w =
     (case rw_holder w of Sending b \<Rightarrow> Some (w\<lparr>rw_holder := Idle\<rparr>) | _ \<Rightarrow> None)"
| "raction_step r ADropWaiting w =
     (if 0 < rw_flushers w then Some (w\<lparr>rw_flushers := rw_flushers w - 1\<rparr>) else None)"

definition is_drop :: "raction \<Rightarrow> bool" where
  "is_drop a \<longleftrightarrow> a = ADropSending \<or> a = ADropWaiting"

inductive reachable :: "ReporterInner \<Rightarrow> bool \<Rightarrow> rworld \<Rightarrow> bool" for r drops where
  reach_init: "reachable r drops rinit"
| reach_step: "reachable r drops w \<Longrightarrow> raction_step r a w = Some w' \<Longrightarrow> drops \<or> \<not> is_drop a
    \<Longrightarrow> reachable r drops w'"

text \<open>What holds in every reachable state.\<close>

fun holder_ok :: "lock_holder \<Rightarrow> DeploymentLog list \<Rightarrow> DeploymentLog list \<Rightarrow> bool" where
  "holder_ok (Sending b) drained delivered = (b \<noteq> [] \<and> (\<exists>d. drained = d @ b \<and> subseq delivered d))"
| "holder_ok _ drained delivered = subseq delivered drained"

fun within_budget :: "u64 option \<Rightarrow> nat \<Rightarrow> bool" where
  "within_budget None sent = True"
| "within_budget (Some m) sent = (sent \<le> unat m)"

fun accounted :: "string option \<Rightarrow> DeploymentLog list \<Rightarrow> DeploymentLog list \<Rightarrow> DeploymentLog list \<Rightarrow> bool" where
  "accounted None accepted drained pending = (accepted = drained @ pending)"
| "accounted (Some _) accepted drained pending = (pending = [] \<and> prefix drained accepted)"

definition rinv :: "ReporterInner \<Rightarrow> rworld \<Rightarrow> bool" where
  "rinv r w \<longleftrightarrow>
     (let st = rs_state (rw_rep w) in
        ls_pending_bytes st = log_bytes (ls_pending st)
      \<and> ls_bytes_sent st = log_bytes (rw_accepted w)
      \<and> within_budget (lb_max_total_bytes (ri_log_bounds r)) (log_bytes (rw_accepted w))
      \<and> accounted (ls_delivery_stopped st) (rw_accepted w) (rw_drained w) (ls_pending st)
      \<and> holder_ok (rw_holder w) (rw_drained w) (rw_delivered w)
      \<and> rs_timers (rw_rep w) = of_bool (rs_flush_scheduled (rw_rep w)))"

text \<open>What holds as long as no caller is dropped: nothing is lost between the queue and the control
  plane, and somebody is on the way to flush whenever lines wait.\<close>

definition rlive :: "rworld \<Rightarrow> bool" where
  "rlive w \<longleftrightarrow>
     (let st = rs_state (rw_rep w) in
        ls_delivery_stopped st = None \<longrightarrow>
          rw_drained w = rw_delivered w @ (case rw_holder w of Sending b \<Rightarrow> b | _ \<Rightarrow> [])
        \<and> (ls_pending st \<noteq> [] \<longrightarrow>
             0 < rw_schedulers w + rw_flushers w + rs_timers (rw_rep w) \<or> rw_holder w \<noteq> Idle))"


lemma accept_log_Queued:
  assumes "accept_log r log st = Ret (Queued f, st')"
  obtains l where "bounded_log log (ri_log_bounds r) (ls_bytes_sent st) = Ret (Some l)"
    "st' = push_log l st" "ls_delivery_stopped st = None"
  using assms by (auto simp: accept_log_def rust_bind_Ret Let_def split: option.splits)

lemma bounded_log_budget:
  assumes "bounded_log log bounds sent = Ret (Some l)" "lb_max_total_bytes bounds = Some t"
  shows "sent + length (log_message l) \<le> unat t"
proof -
  from assms(1) obtain s m where l: "log_message l = truncate_utf8 s m"
    and m: "case lb_max_total_bytes bounds of None \<Rightarrow> m = None | Some t \<Rightarrow> sent < unat t \<and> m = Some (unat t - sent)"
    by (rule bounded_log_cases) blast
  from m assms(2) have "sent < unat t" "length (log_message l) \<le> unat t - sent"
    unfolding l by (auto intro: truncate_length)
  then show ?thesis by simp
qed

lemma log_action_cases:
  assumes "raction_step r (ALog log) w = Some w'"
  obtains l where "bounded_log log (ri_log_bounds r) (ls_bytes_sent (rs_state (rw_rep w))) = Ret (Some l)"
    "ls_delivery_stopped (rs_state (rw_rep w)) = None"
    "rs_state (rw_rep w') = push_log l (rs_state (rw_rep w))" "rw_accepted w' = rw_accepted w @ [l]"
    "rw_drained w' = rw_drained w" "rw_delivered w' = rw_delivered w" "rw_holder w' = rw_holder w"
    "rs_timers (rw_rep w') = rs_timers (rw_rep w)"
    "rs_flush_scheduled (rw_rep w') = rs_flush_scheduled (rw_rep w)"
    "0 < rw_schedulers w' + rw_flushers w'"
proof -
  from assms obtain f st where a: "accept_log r log (rs_state (rw_rep w)) = Ret (Queued f, st)"
    by (auto split: rust.splits prod.splits accepted.splits)
  from a obtain l where l: "bounded_log log (ri_log_bounds r) (ls_bytes_sent (rs_state (rw_rep w))) = Ret (Some l)"
    "st = push_log l (rs_state (rw_rep w))" "ls_delivery_stopped (rs_state (rw_rep w)) = None"
    by (rule accept_log_Queued)
  show ?thesis
    by (rule that [of l]; use assms a l in \<open>auto simp: Let_def rw_set_state_def push_log_def split: if_splits\<close>)
qed

lemma rinv_log:
  assumes "rinv r w" "raction_step r (ALog log) w = Some w'"
  shows "rinv r w'"
proof -
  from assms(2) obtain l where
    b: "bounded_log log (ri_log_bounds r) (ls_bytes_sent (rs_state (rw_rep w))) = Ret (Some l)" and
    s: "ls_delivery_stopped (rs_state (rw_rep w)) = None"
      "rs_state (rw_rep w') = push_log l (rs_state (rw_rep w))" "rw_accepted w' = rw_accepted w @ [l]"
      "rw_drained w' = rw_drained w" "rw_delivered w' = rw_delivered w" "rw_holder w' = rw_holder w"
      "rs_timers (rw_rep w') = rs_timers (rw_rep w)"
      "rs_flush_scheduled (rw_rep w') = rs_flush_scheduled (rw_rep w)"
    by (rule log_action_cases)
  have "within_budget (lb_max_total_bytes (ri_log_bounds r))
      (ls_bytes_sent (rs_state (rw_rep w)) + length (log_message l))"
    using bounded_log_budget [OF b] by (cases "lb_max_total_bytes (ri_log_bounds r)") simp_all
  with assms(1) s show ?thesis by (clarsimp simp: rinv_def Let_def push_log_def add.assoc)
qed

lemma rinv_look:
  assumes "rinv r w" "raction_step r ALook w = Some w'"
  shows "rinv r w'"
proof (cases "ls_delivery_stopped (rs_state (rw_rep w)) \<noteq> None \<or> ls_pending (rs_state (rw_rep w)) = []")
  case True
  with assms(2) have "w' = w\<lparr>rw_holder := Idle\<rparr>" "rw_holder w = Looking"
    by (simp_all add: Let_def split: if_splits)
  with assms(1) show ?thesis by (clarsimp simp: rinv_def Let_def)
next
  case False
  obtain b st where tb: "take_batch (ri_batch_max_lines r) (rs_state (rw_rep w)) = (b, st)" by fastforce
  note sp = take_batch_split [OF tb]
  have "log_bytes (ls_pending (rs_state (rw_rep w))) = log_bytes b + log_bytes (ls_pending st)"
    using arg_cong [OF sp(1), of log_bytes] by simp
  moreover from False assms(2) tb
  have w': "w' = (rw_set_state st w)\<lparr>rw_holder := Sending b, rw_drained := rw_drained w @ b\<rparr>" "rw_holder w = Looking"
    by (simp_all add: Let_def split: if_splits)
  moreover have "b \<noteq> []" using sp(2) False by blast
  ultimately show ?thesis
    using assms(1) False sp(1,3,4,5) by (clarsimp simp: rinv_def Let_def rw_set_state_def)
qed

lemma rinv_sending:
  assumes "rinv r w" "rw_holder w = Sending b"
  shows "rinv r (w\<lparr>rw_holder := Looking, rw_delivered := rw_delivered w @ b\<rparr>)"
    "rinv r (w\<lparr>rw_holder := Idle\<rparr>)"
    "rinv r ((rw_set_state (stop_delivery reason (rs_state (rw_rep w))) w)\<lparr>rw_holder := Idle\<rparr>)"
proof -
  from assms obtain d where d: "rw_drained w = d @ b" "subseq (rw_delivered w) d"
    by (auto simp: rinv_def Let_def)
  have s: "subseq (rw_delivered w) (rw_drained w)" "subseq (rw_delivered w @ b) (rw_drained w)"
    using d by (simp_all add: subseq_rev_drop_many list_emb_append_mono)
  have p: "prefix (rw_drained w) (rw_accepted w)"
    using assms(1) by (cases "ls_delivery_stopped (rs_state (rw_rep w))") (auto simp: rinv_def Let_def)
  from assms(1) s show "rinv r (w\<lparr>rw_holder := Looking, rw_delivered := rw_delivered w @ b\<rparr>)"
    "rinv r (w\<lparr>rw_holder := Idle\<rparr>)"
    by (auto simp: rinv_def Let_def)
  from assms(1) s p
  show "rinv r ((rw_set_state (stop_delivery reason (rs_state (rw_rep w))) w)\<lparr>rw_holder := Idle\<rparr>)"
    by (clarsimp simp: rinv_def Let_def rw_set_state_def stop_delivery_def)
qed

lemma rinv_step:
  assumes "rinv r w" "raction_step r a w = Some w'"
  shows "rinv r w'"
proof (cases a)
  case (ALog log)
  with assms show ?thesis by (blast intro: rinv_log)
next
  case ASchedule
  with assms show ?thesis
    by (cases "rs_flush_scheduled (rw_rep w)")
      (auto simp: rinv_def Let_def schedule_flush_def split: if_splits)
next
  case ALook
  with assms show ?thesis by (blast intro: rinv_look)
next
  case ALock
  with assms have "w' = w\<lparr>rw_flushers := rw_flushers w - 1, rw_holder := Looking\<rparr>" "rw_holder w = Idle"
    by (simp_all split: if_splits)
  with assms(1) show ?thesis by (clarsimp simp: rinv_def Let_def)
next
  case ATimer
  with assms have "w' = w\<lparr>rw_rep := (rw_rep w)\<lparr>rs_timers := rs_timers (rw_rep w) - 1, rs_flush_scheduled := False\<rparr>,
                rw_flushers := rw_flushers w + 1\<rparr>"
    by (simp split: if_splits)
  with assms(1) show ?thesis by (clarsimp simp: rinv_def Let_def)
next
  case AFlush
  with assms show ?thesis by (auto simp: rinv_def Let_def)
next
  case ADropWaiting
  with assms have "w' = w\<lparr>rw_flushers := rw_flushers w - 1\<rparr>" by (simp split: if_splits)
  with assms(1) show ?thesis by (clarsimp simp: rinv_def Let_def)
qed (use assms rinv_sending [OF assms(1)] in \<open>auto split: lock_holder.splits\<close>)

lemma reachable_rinv: "reachable r drops w \<Longrightarrow> rinv r w"
proof (induction rule: reachable.induct)
  case reach_init
  show ?case
    by (cases "lb_max_total_bytes (ri_log_bounds r)")
      (auto simp: rinv_def rinit_def reporter_init_def log_state_default_def)
next
  case (reach_step w a w')
  then show ?case by (blast intro: rinv_step)
qed

lemma rlive_step:
  assumes "rlive w" "raction_step r a w = Some w'" "\<not> is_drop a" "rinv r w"
  shows "rlive w'"
proof (cases a)
  case (ALog log)
  with assms(2) obtain l where
    s: "ls_delivery_stopped (rs_state (rw_rep w)) = None"
      "rs_state (rw_rep w') = push_log l (rs_state (rw_rep w))"
      "rw_drained w' = rw_drained w" "rw_delivered w' = rw_delivered w" "rw_holder w' = rw_holder w"
      "0 < rw_schedulers w' + rw_flushers w'"
    by (auto elim: log_action_cases simp del: raction_step.simps)
  with assms(1) show ?thesis by (auto simp: rlive_def Let_def push_log_def)
next
  case ASchedule
  with assms show ?thesis
    by (auto simp: rlive_def rinv_def Let_def schedule_flush_def split: if_splits)
next
  case ALook
  obtain b st where tb: "take_batch (ri_batch_max_lines r) (rs_state (rw_rep w)) = (b, st)" by fastforce
  from ALook assms tb take_batch_split(5) [OF tb] show ?thesis
    by (auto simp: rlive_def Let_def rw_set_state_def split: if_splits)
next
  case (AFailed reason)
  with assms show ?thesis
    by (auto simp: rlive_def Let_def rw_set_state_def stop_delivery_def split: lock_holder.splits)
next
  case AAcknowledged
  with assms show ?thesis by (auto simp: rlive_def Let_def split: lock_holder.splits)
qed (use assms in \<open>auto simp: rlive_def Let_def is_drop_def split: if_splits lock_holder.splits\<close>)

lemma reachable_rlive: "reachable r drops w \<Longrightarrow> \<not> drops \<Longrightarrow> rlive w"
proof (induction rule: reachable.induct)
  case reach_init
  show ?case by (simp add: rlive_def rinit_def reporter_init_def log_state_default_def)
next
  case (reach_step w a w')
  then show ?case by (blast intro: rlive_step reachable_rinv)
qed

lemma delivered_subseq:
  assumes i: "rinv r w"
  shows "subseq (rw_delivered w) (rw_accepted w)"
proof -
  have "subseq (rw_delivered w) (rw_drained w)"
    using i by (cases "rw_holder w") (auto simp: rinv_def Let_def intro: subseq_rev_drop_many)
  moreover have "prefix (rw_drained w) (rw_accepted w)"
    using i by (cases "ls_delivery_stopped (rs_state (rw_rep w))") (auto simp: rinv_def Let_def)
  ultimately show ?thesis
    by (auto simp: prefix_def intro: subseq_rev_drop_many)
qed

text \<open>C12: for every interleaving of callers, timers, flushes and dropped callers: the acknowledged lines are
  a subsequence of the queued lines (never reordered, never duplicated); as long as delivery is not
  stopped, the queued lines are exactly those taken into batches followed by those still pending; the
  bytes accepted never exceed the total budget; at most one flush timer runs.\<close>

theorem reporter_ordered_within_budget:
  assumes "reachable r drops w"
  shows "subseq (rw_delivered w) (rw_accepted w)
     \<and> (ls_delivery_stopped (rs_state (rw_rep w)) \<noteq> None
        \<or> rw_accepted w = rw_drained w @ ls_pending (rs_state (rw_rep w)))
     \<and> (case lb_max_total_bytes (ri_log_bounds r) of None \<Rightarrow> True | Some m \<Rightarrow> log_bytes (rw_accepted w) \<le> unat m)
     \<and> rs_timers (rw_rep w) \<le> 1"
proof -
  from reachable_rinv [OF assms] have i: "rinv r w" .
  note delivered_subseq [OF i]
  with i show ?thesis
    by (cases "lb_max_total_bytes (ri_log_bounds r)"; cases "ls_delivery_stopped (rs_state (rw_rep w))")
      (auto simp: rinv_def Let_def)
qed

text \<open>C11: as long as no caller is dropped while it waits, no line is lost: when nobody is flushing or about
  to flush, either delivery was stopped or every queued line has been acknowledged, exactly once and
  in order. In particular lines never wait without a timer or a flush that will send them.\<close>

theorem reporter_quiescent_delivered:
  assumes "reachable r False w"
    and "rw_schedulers w = 0" "rw_flushers w = 0" "rs_timers (rw_rep w) = 0" "rw_holder w = Idle"
  shows "ls_delivery_stopped (rs_state (rw_rep w)) \<noteq> None \<or> rw_delivered w = rw_accepted w"
  using reachable_rlive [OF assms(1)] reachable_rinv [OF assms(1)] assms(2-)
  by (cases "ls_delivery_stopped (rs_state (rw_rep w))") (auto simp: rlive_def rinv_def Let_def)

fun run_actions :: "ReporterInner \<Rightarrow> raction list \<Rightarrow> rworld \<Rightarrow> rworld option" where
  "run_actions r [] w = Some w"
| "run_actions r (a # as) w = (case raction_step r a w of None \<Rightarrow> None | Some w \<Rightarrow> run_actions r as w)"

lemma run_actions_reachable:
  "reachable r drops w \<Longrightarrow> run_actions r as w = Some w' \<Longrightarrow> drops \<or> \<not> list_ex is_drop as \<Longrightarrow> reachable r drops w'"
  by (induction as arbitrary: w) (auto split: option.splits intro: reach_step)

definition example_script :: "raction list" where
  "example_script = [ALog (example_log ''a''), ASchedule, ATimer, ALock, ALook, AAcknowledged, ALook]"

definition example_end :: rworld where
  "example_end = the (run_actions example_reporter example_script rinit)"

lemma example_eval:
  "case run_actions example_reporter example_script rinit of
     None \<Rightarrow> False
   | Some w \<Rightarrow> rw_delivered w = [example_log ''a''] \<and> rw_schedulers w = 0
       \<and> rw_flushers w = 0 \<and> rs_timers (rw_rep w) = 0 \<and> rw_holder w = Idle
       \<and> ls_delivery_stopped (rs_state (rw_rep w)) = None"
  by code_simp

lemma example_run:
  "run_actions example_reporter example_script rinit = Some example_end
   \<and> rw_delivered example_end = [example_log ''a''] \<and> rw_schedulers example_end = 0
   \<and> rw_flushers example_end = 0 \<and> rs_timers (rw_rep example_end) = 0 \<and> rw_holder example_end = Idle
   \<and> ls_delivery_stopped (rs_state (rw_rep example_end)) = None"
  using example_eval unfolding example_end_def by (simp split: option.splits)

lemma example_reachable: "reachable example_reporter False example_end"
  by (rule run_actions_reachable [OF reach_init, where as = example_script])
    (use example_run in \<open>simp_all add: example_script_def is_drop_def\<close>)

theorem reporter_ordered_within_budget_witness:
  "reachable example_reporter False example_end \<and> subseq (rw_delivered example_end) (rw_accepted example_end)"
  using reporter_ordered_within_budget [OF example_reachable] example_reachable by simp

theorem reporter_quiescent_delivered_witness:
  "reachable example_reporter False example_end \<and> rw_accepted example_end = [example_log ''a'']"
  using reporter_quiescent_delivered [OF example_reachable] example_run example_reachable by simp


subsection \<open>The text of the queued lines\<close>

lemma run_actions_accepted:
  assumes "run_actions r as w = Some w'"
    and "\<And>log sent l. ALog log \<in> set as \<Longrightarrow> bounded_log log (ri_log_bounds r) sent = Ret (Some l) \<Longrightarrow> P l"
    and "list_all P (rw_accepted w)"
  shows "list_all P (rw_accepted w')"
  using assms
proof (induction as arbitrary: w)
  case (Cons a as)
  from Cons.prems(1) obtain v where v: "raction_step r a w = Some v" "run_actions r as v = Some w'"
    by (auto split: option.splits simp del: raction_step.simps)
  have "list_all P (rw_accepted v)"
  proof (cases a)
    case (ALog log)
    with v(1) obtain l where "bounded_log log (ri_log_bounds r) (ls_bytes_sent (rs_state (rw_rep w))) = Ret (Some l)"
      "rw_accepted v = rw_accepted w @ [l]"
      by (auto elim: log_action_cases simp del: raction_step.simps)
    with Cons.prems(2) [of log] Cons.prems(3) ALog show ?thesis by auto
  qed (use v(1) Cons.prems(3) in
      \<open>auto simp: Let_def rw_set_state_def split: if_splits prod.splits lock_holder.splits\<close>)
  with Cons.IH [OF v(2)] Cons.prems(2) show ?case by auto
qed simp

text \<open>What every line is that leaves the node: one line of well-formed UTF-8 within the policy's byte limit, in which no
  GitHub token prefix occurs in any letter case.\<close>

definition deliverable :: "LogBounds \<Rightarrow> DeploymentLog \<Rightarrow> bool" where
  "deliverable bounds l \<longleftrightarrow>
     utf8_valid (log_message l) \<and> log_message l \<noteq> [] \<and> CHR 0x0D \<notin> set (log_message l) \<and> CHR 0x0A \<notin> set (log_message l)
     \<and> (case lb_max_line_length bounds of None \<Rightarrow> True | Some m \<Rightarrow> length (log_message l) \<le> unat m)
     \<and> list_all (\<lambda>p. \<not> contains (to_ascii_lowercase (log_message l)) p) TOKEN_PREFIXES"

lemma bounded_log_deliverable:
  assumes "bounded_log log bounds sent = Ret (Some l)" "utf8_valid (log_message log)"
  shows "deliverable bounds l"
  using bounded_log_bounds [OF assms(1)] bounded_log_utf8 [OF assms] bounded_log_no_token_prefix [OF assms(1)]
  by (simp add: deliverable_def list_all_iff)

text \<open>C33: when every line handed to the reporter is well-formed UTF-8, every line it queues and every line the
  control plane acknowledges is deliverable: well-formed UTF-8, not empty, without line breaks, no longer than the
  policy allows (which counts bytes) and free of token prefixes, whatever the interleaving and the redactions.\<close>

theorem reporter_lines_well_formed:
  assumes "run_actions r as rinit = Some w"
    and "\<And>log. ALog log \<in> set as \<Longrightarrow> utf8_valid (log_message log)"
  shows "list_all (deliverable (ri_log_bounds r)) (rw_accepted w)
     \<and> list_all (deliverable (ri_log_bounds r)) (rw_delivered w)"
proof -
  have a: "list_all (deliverable (ri_log_bounds r)) (rw_accepted w)"
    by (rule run_actions_accepted [OF assms(1)]) (auto intro: bounded_log_deliverable assms(2) simp: rinit_def)
  have "reachable r True w"
    by (rule run_actions_reachable [OF reach_init assms(1)]) simp
  from delivered_subseq [OF reachable_rinv [OF this]] a show ?thesis
    by (auto simp: list_all_iff dest: list_emb_set)
qed

definition accent_log :: DeploymentLog where
  "accent_log = example_log (''caf'' @ [CHR 0xC3, CHR 0xA9] @ '' ol'' @ [CHR 0xC3, CHR 0xA9])"

definition accent_script :: "raction list" where
  "accent_script = [ALog accent_log, ASchedule, ATimer, ALock, ALook, AAcknowledged, ALook]"

lemma accent_eval:
  "map_option (map log_message \<circ> rw_delivered) (run_actions example_reporter accent_script rinit)
   = Some [''caf'' @ [CHR 0xC3, CHR 0xA9] @ '' ol'']"
  by code_simp

theorem reporter_lines_well_formed_witness:
  "case run_actions example_reporter accent_script rinit of
     None \<Rightarrow> False
   | Some w \<Rightarrow> map log_message (rw_delivered w) = [''caf'' @ [CHR 0xC3, CHR 0xA9] @ '' ol'']
       \<and> list_all (deliverable (ri_log_bounds example_reporter)) (rw_delivered w)"
proof -
  obtain w where w: "run_actions example_reporter accent_script rinit = Some w"
    "map log_message (rw_delivered w) = [''caf'' @ [CHR 0xC3, CHR 0xA9] @ '' ol'']"
    using accent_eval by (auto simp del: run_actions.simps)
  have "utf8_valid (log_message accent_log)" by code_simp
  then have "utf8_valid (log_message log)" if "ALog log \<in> set accent_script" for log
    using that by (auto simp: accent_script_def)
  from reporter_lines_well_formed [OF w(1) this] w show ?thesis by simp
qed

end
