(* ===== verification/Dispatcher.thy ===== *)
theory Dispatcher
  imports Reporter
begin

text \<open>
  The command dispatcher and its handlers: \<^verbatim>\<open>commands/dispatcher.rs\<close>, \<^verbatim>\<open>commands/handlers\<close>,
  \<^verbatim>\<open>repositories.rs\<close>, \<^verbatim>\<open>ports/repository.rs\<close> and the port \<^verbatim>\<open>RuntimeExecutor\<close> of \<^verbatim>\<open>ports/runtime.rs\<close>.

  An executor is a record of functions, one per method of the trait; each gets the request and the
  world it may change: the network, the reporter of the command and its own runtime state \<open>'rt\<close>. The
  node lifecycle is not reachable from the runtime and is passed separately. Cancellation is not an
  argument: when it happens is part of the timing in \<open>Processor\<close>.
\<close>

record InspectProjectRequest =
  ipr_command_id :: uuid
  ipr_payload :: InspectProjectPayload
  ipr_repository_credential :: "RepositoryCredential option"

record DeployProjectRequest =
  dpq_command_id :: uuid
  dpq_project_id :: uuid
  dpq_deployment_id :: uuid
  dpq_payload :: DeployProjectPayload
  dpq_repository_credential :: "RepositoryCredential option"

record WorkloadLifecycleRequest =
  wlr_command_id :: uuid
  wlr_project_id :: uuid
  wlr_deployment_id :: uuid

record ReconcileWorkloadRequest =
  rwr_project_id :: uuid
  rwr_deployment_id :: uuid
  rwr_desired_state :: DesiredWorkloadState
  rwr_actions :: "ReconcileWorkloadAction list"
  rwr_has_reporter_factory :: bool

record CleanupRuntimeRequest =
  crr_command_id :: uuid
  crr_approved :: bool
  crr_targets :: "RuntimeCleanupTarget list"

record 'rt eworld =
  ew_net :: net
  ew_rep :: ReporterState
  ew_rt :: 'rt

type_synonym ('rt, 'a) rt_op = "'rt eworld \<Rightarrow> (RuntimeExecutionError + 'a) \<times> 'rt eworld"

record 'rt executor =
  ex_preflight :: "('rt, RuntimePreflightCheck list) rt_op"
  ex_capacity :: "('rt, RuntimeCapacity) rt_op"
  ex_inspect_project :: "InspectProjectRequest \<Rightarrow> ('rt, json) rt_op"
  ex_deploy_project :: "DeployProjectRequest \<Rightarrow> ('rt, json) rt_op"
  ex_restart_project :: "WorkloadLifecycleRequest \<Rightarrow> ('rt, json) rt_op"
  ex_stop_project :: "WorkloadLifecycleRequest \<Rightarrow> ('rt, json) rt_op"
  ex_sleep_project :: "WorkloadLifecycleRequest \<Rightarrow> ('rt, json) rt_op"
  ex_wake_project :: "WorkloadLifecycleRequest \<Rightarrow> ('rt, json) rt_op"
  ex_health_check :: "WorkloadLifecycleRequest \<Rightarrow> ('rt, json) rt_op"
  ex_refresh_route :: "WorkloadLifecycleRequest \<Rightarrow> ('rt, json) rt_op"
  ex_reconcile_workload :: "ReconcileWorkloadRequest \<Rightarrow> ('rt, json) rt_op"
  ex_cleanup_runtime :: "CleanupRuntimeRequest \<Rightarrow> ('rt, json) rt_op"

text \<open>The default methods of the trait.\<close>

definition unsupported :: "string \<Rightarrow> ('rt, 'a) rt_op" where
  "unsupported message w = (Inl (ree_unsupported_command message), w)"

definition default_executor :: "'rt executor" where
  "default_executor =
     \<lparr>ex_preflight = (\<lambda>w. (Inr [], w)),
      ex_capacity = (\<lambda>w. (Inr \<lparr>cap_active_workloads = None, cap_stopped_workloads = None,
         cap_maximum_active_workloads = None, cap_active_builds = None, cap_maximum_concurrent_builds = None\<rparr>, w)),
      ex_inspect_project = (\<lambda>_. unsupported ''runtime does not support project inspection''),
      ex_deploy_project = (\<lambda>_. unsupported ''runtime does not support project deployment''),
      ex_restart_project = (\<lambda>_. unsupported ''runtime does not support project restart''),
      ex_stop_project = (\<lambda>_. unsupported ''runtime does not support project stop''),
      ex_sleep_project = (\<lambda>_. unsupported ''runtime does not support project sleep''),
      ex_wake_project = (\<lambda>_. unsupported ''runtime does not support project wake''),
      ex_health_check = (\<lambda>_. unsupported ''runtime does not support explicit health checks''),
      ex_refresh_route = (\<lambda>_. unsupported ''runtime does not support route refresh''),
      ex_reconcile_workload = (\<lambda>_. unsupported ''runtime does not support workload reconciliation''),
      ex_cleanup_runtime = (\<lambda>_. unsupported ''runtime does not support approved cleanup'')\<rparr>"

subsection \<open>Repository credentials\<close>

type_synonym 'rt credential_provider =
  "uuid \<Rightarrow> RepositoryAccess \<Rightarrow> ('rt, RepositoryCredential option) rt_op"

fun unavailable_credential :: "'rt credential_provider" where
  "unavailable_credential command_id Public w = (Inr None, w)"
| "unavailable_credential command_id TemporaryCredential w =
     (Inl (ree_new ''repository_credential_unavailable''
        ''private repository checkout requires a connected control-plane credential lease''), w)"

fun api_credential :: "http_env \<Rightarrow> ApiClient \<Rightarrow> 'rt credential_provider" where
  "api_credential E c command_id Public w = (Inr None, w)"
| "api_credential E c command_id TemporaryCredential w =
     (case client_repository_credential E c command_id (ew_net w) of
        (Inr credential, n) \<Rightarrow> (Inr (Some credential), w\<lparr>ew_net := n\<rparr>)
      | (Inl error, n) \<Rightarrow>
          (Inl (ree_new ''repository_credential_unavailable''
             (''could not obtain temporary repository credential: '' @ core_error_text error)),
           w\<lparr>ew_net := n\<rparr>))"

subsection \<open>Handlers\<close>

record 'rt dispatcher =
  di_executor :: "'rt executor"
  di_credentials :: "'rt credential_provider"
  di_has_reporter_factory :: bool

definition invalid :: "string \<Rightarrow> ('rt, 'a) rt_op" where
  "invalid message w = (Inl (ree_invalid_command message), w)"

definition handle_inspect_project :: "codec \<Rightarrow> 'rt dispatcher \<Rightarrow> AgentCommand \<Rightarrow> ('rt, json) rt_op" where
  "handle_inspect_project C d command w =
     (case inspect_payload C command of
        Inl error \<Rightarrow> invalid (''InspectProject payload is invalid: '' @ error) w
      | Inr payload \<Rightarrow>
          (case di_credentials d (cmd_id command) (ip_repository_access payload) w of
             (Inl e, w) \<Rightarrow> (Inl e, w)
           | (Inr credential, w) \<Rightarrow>
               ex_inspect_project (di_executor d)
                 \<lparr>ipr_command_id = cmd_id command, ipr_payload = payload, ipr_repository_credential = credential\<rparr> w))"

definition handle_deploy_project :: "codec \<Rightarrow> 'rt dispatcher \<Rightarrow> AgentCommand \<Rightarrow> ('rt, json) rt_op" where
  "handle_deploy_project C d command w =
     (case cmd_project_id command of
        None \<Rightarrow> invalid ''DeployProject requires project_id'' w
      | Some project_id \<Rightarrow>
          (case cmd_deployment_id command of
             None \<Rightarrow> invalid ''DeployProject requires deployment_id'' w
           | Some deployment_id \<Rightarrow>
               (case deploy_payload C command of
                  Inl error \<Rightarrow> invalid (''DeployProject payload is invalid: '' @ error) w
                | Inr payload \<Rightarrow>
                    (case di_credentials d (cmd_id command) (dp_repository_access payload) w of
                       (Inl e, w) \<Rightarrow> (Inl e, w)
                     | (Inr credential, w) \<Rightarrow>
                         ex_deploy_project (di_executor d)
                           \<lparr>dpq_command_id = cmd_id command, dpq_project_id = project_id,
                            dpq_deployment_id = deployment_id, dpq_payload = payload,
                            dpq_repository_credential = credential\<rparr> w))))"

definition lifecycle_request :: "AgentCommand \<Rightarrow> RuntimeExecutionError + WorkloadLifecycleRequest" where
  "lifecycle_request command =
     (case cmd_project_id command of
        None \<Rightarrow> Inl (ree_invalid_command ''lifecycle command requires project_id'')
      | Some project_id \<Rightarrow>
          (case cmd_deployment_id command of
             None \<Rightarrow> Inl (ree_invalid_command ''lifecycle command requires deployment_id'')
           | Some deployment_id \<Rightarrow>
               Inr \<lparr>wlr_command_id = cmd_id command, wlr_project_id = project_id, wlr_deployment_id = deployment_id\<rparr>))"

definition with_lifecycle :: "AgentCommand \<Rightarrow> (WorkloadLifecycleRequest \<Rightarrow> ('rt, json) rt_op) \<Rightarrow> ('rt, json) rt_op" where
  "with_lifecycle command f w =
     (case lifecycle_request command of Inl e \<Rightarrow> (Inl e, w) | Inr lifecycle \<Rightarrow> f lifecycle w)"

definition jnat :: "nat option \<Rightarrow> json" where
  "jnat n = (case n of None \<Rightarrow> JNull | Some k \<Rightarrow> JInt (int k))"

definition capacity_json :: "RuntimeCapacity \<Rightarrow> json" where
  "capacity_json c = JObject
     [(''active_workloads'', jnat (cap_active_workloads c)),
      (''maximum_active_workloads'', jnat (cap_maximum_active_workloads c)),
      (''available_workload_slots'', jnat (available_workload_slots c))]"

definition reporter_event_w :: "http_env \<Rightarrow> ReporterInner \<Rightarrow> DeploymentEvent \<Rightarrow> ('rt, unit) rt_op" where
  "reporter_event_w E r ev w =
     (case reporter_event E r ev (ew_net w) of (res, n) \<Rightarrow> (res, w\<lparr>ew_net := n\<rparr>))"

definition handle_drain_node ::
    "http_env \<Rightarrow> ReporterInner \<Rightarrow> timestamp \<Rightarrow> NodeLifecycle \<Rightarrow> 'rt eworld \<Rightarrow>
     (RuntimeExecutionError + json) \<times> NodeLifecycle \<times> 'rt eworld" where
  "handle_drain_node E r now l w =
     (let l = lifecycle_set l Draining
      in case reporter_event_w E r
             \<lparr>ev_event_type = ''node.drain.started'', ev_level = Level_Info,
              ev_message = ''Node stopped accepting new workload commands.'',
              ev_metadata = JObject [], ev_occurred_at = now\<rparr> w of
           (Inl e, w) \<Rightarrow> (Inl e, l, w)
         | (Inr _, w) \<Rightarrow> (Inr (JObject [(''state'', JString ''draining'')]), l, w))"

definition handle_resume_node ::
    "http_env \<Rightarrow> 'rt dispatcher \<Rightarrow> ReporterInner \<Rightarrow> timestamp \<Rightarrow> NodeLifecycle \<Rightarrow> 'rt eworld \<Rightarrow>
     (RuntimeExecutionError + json) \<times> NodeLifecycle \<times> 'rt eworld" where
  "handle_resume_node E d r now l w =
     (case ex_preflight (di_executor d) w of
        (Inl e, w) \<Rightarrow> (Inl e, l, w)
      | (Inr preflight, w) \<Rightarrow>
          if has_fatal_failure preflight then
            (Inl (ree_new ''runtime_preflight_failed''
               ''node cannot resume because runtime preflight has fatal failures''), l, w)
          else
            (case ex_capacity (di_executor d) w of
               (Inl e, w) \<Rightarrow> (Inl e, l, w)
             | (Inr capacity, w) \<Rightarrow>
                 let l = lifecycle_set l Active
                 in case reporter_event_w E r
                        \<lparr>ev_event_type = ''node.resume.completed'', ev_level = Level_Info,
                         ev_message = ''Node preflight passed and workload command processing resumed.'',
                         ev_metadata = capacity_json capacity, ev_occurred_at = now\<rparr> w of
                      (Inl e, w) \<Rightarrow> (Inl e, l, w)
                    | (Inr _, w) \<Rightarrow>
                        (Inr (JObject [(''state'', JString ''active''), (''capacity'', capacity_json capacity)]), l, w)))"

definition handle_cleanup_runtime :: "codec \<Rightarrow> 'rt dispatcher \<Rightarrow> AgentCommand \<Rightarrow> ('rt, json) rt_op" where
  "handle_cleanup_runtime C d command w =
     (case cleanup_runtime_payload C command of
        Inl error \<Rightarrow> invalid (''CleanupRuntime payload is invalid: '' @ error) w
      | Inr payload \<Rightarrow>
          if \<not> crp_approved payload then invalid ''CleanupRuntime requires approved=true'' w
          else if crp_targets payload = [] then invalid ''CleanupRuntime requires at least one target'' w
          else ex_cleanup_runtime (di_executor d)
                 \<lparr>crr_command_id = cmd_id command, crr_approved = crp_approved payload,
                  crr_targets = crp_targets payload\<rparr> w)"

definition handle_reconcile_workload :: "codec \<Rightarrow> 'rt dispatcher \<Rightarrow> AgentCommand \<Rightarrow> ('rt, json) rt_op" where
  "handle_reconcile_workload C d command w =
     (case lifecycle_request command of
        Inl e \<Rightarrow> (Inl e, w)
      | Inr lifecycle \<Rightarrow>
          (case reconcile_workload_payload C command of
             Inl error \<Rightarrow> invalid (''ReconcileWorkload payload is invalid: '' @ error) w
           | Inr payload \<Rightarrow>
               ex_reconcile_workload (di_executor d)
                 \<lparr>rwr_project_id = wlr_project_id lifecycle, rwr_deployment_id = wlr_deployment_id lifecycle,
                  rwr_desired_state = rwp_desired_state payload, rwr_actions = rwp_actions payload,
                  rwr_has_reporter_factory = di_has_reporter_factory d\<rparr> w))"

definition keep_lifecycle ::
    "NodeLifecycle \<Rightarrow> (RuntimeExecutionError + json) \<times> 'rt eworld \<Rightarrow>
     (RuntimeExecutionError + json) \<times> NodeLifecycle \<times> 'rt eworld" where
  "keep_lifecycle l rw = (fst rw, l, snd rw)"

definition dispatch ::
    "codec \<Rightarrow> http_env \<Rightarrow> 'rt dispatcher \<Rightarrow> ReporterInner \<Rightarrow> timestamp \<Rightarrow> AgentCommand \<Rightarrow> NodeLifecycle \<Rightarrow>
     'rt eworld \<Rightarrow> (RuntimeExecutionError + json) \<times> NodeLifecycle \<times> 'rt eworld" where
  "dispatch C E d r now command l w =
     (case cmd_type command of
        InspectProject \<Rightarrow> keep_lifecycle l (handle_inspect_project C d command w)
      | DeployProject \<Rightarrow> keep_lifecycle l (handle_deploy_project C d command w)
      | RestartProject \<Rightarrow> keep_lifecycle l (with_lifecycle command (ex_restart_project (di_executor d)) w)
      | StopProject \<Rightarrow> keep_lifecycle l (with_lifecycle command (ex_stop_project (di_executor d)) w)
      | SleepProject \<Rightarrow> keep_lifecycle l (with_lifecycle command (ex_sleep_project (di_executor d)) w)
      | WakeProject \<Rightarrow> keep_lifecycle l (with_lifecycle command (ex_wake_project (di_executor d)) w)
      | HealthCheck \<Rightarrow> keep_lifecycle l (with_lifecycle command (ex_health_check (di_executor d)) w)
      | RefreshRoute \<Rightarrow> keep_lifecycle l (with_lifecycle command (ex_refresh_route (di_executor d)) w)
      | ReconcileWorkload \<Rightarrow> keep_lifecycle l (handle_reconcile_workload C d command w)
      | CleanupRuntime \<Rightarrow> keep_lifecycle l (handle_cleanup_runtime C d command w)
      | DrainNode \<Rightarrow> handle_drain_node E r now l w
      | ResumeNode \<Rightarrow> handle_resume_node E d r now l w)"

subsection \<open>Guards\<close>

text \<open>The commands that address one deployment.\<close>

definition needs_ids :: "CommandType \<Rightarrow> bool" where
  "needs_ids t \<longleftrightarrow> t \<in> {DeployProject, RestartProject, StopProject, SleepProject, WakeProject, HealthCheck,
     RefreshRoute, ReconcileWorkload}"

text \<open>C34: a command that addresses a deployment but lacks its project or deployment id, and a cleanup that
  is not approved or has no target, is refused as an invalid command without any effect: neither the
  runtime nor the network nor the reporter nor the lifecycle changes, whatever the runtime does.\<close>

theorem invalid_commands_have_no_effect:
  assumes "(needs_ids (cmd_type command) \<and> (cmd_project_id command = None \<or> cmd_deployment_id command = None))
     \<or> (cmd_type command = CleanupRuntime \<and>
          (case cleanup_runtime_payload C command of
             Inl _ \<Rightarrow> True | Inr p \<Rightarrow> \<not> crp_approved p \<or> crp_targets p = []))"
  shows "\<exists>message. dispatch C E d r now command l w = (Inl (ree_invalid_command message), l, w)"
  using assms
  by (cases "cmd_type command")
    (auto simp: needs_ids_def dispatch_def keep_lifecycle_def handle_deploy_project_def with_lifecycle_def
      lifecycle_request_def handle_reconcile_workload_def handle_cleanup_runtime_def invalid_def
      split: option.splits sum.splits)

definition example_codec :: codec where
  "example_codec =
     \<lparr>de_deploy = (\<lambda>_. Inl ''x''), de_inspect = (\<lambda>_. Inl ''x''), de_reconcile = (\<lambda>_. Inl ''x''),
      de_cleanup = (\<lambda>_. Inr \<lparr>crp_approved = False, crp_targets = [StaleImages]\<rparr>), uuid_str = (\<lambda>u. show_word u)\<rparr>"

definition example_dispatcher :: "nat dispatcher" where
  "example_dispatcher = \<lparr>di_executor = default_executor, di_credentials = unavailable_credential, di_has_reporter_factory = True\<rparr>"

definition example_command :: "CommandType \<Rightarrow> AgentCommand" where
  "example_command t =
     \<lparr>cmd_id = 7, cmd_type = t, cmd_status = Status_Pending, cmd_project_id = None, cmd_deployment_id = None, cmd_payload = JNull\<rparr>"

theorem invalid_commands_have_no_effect_witness:
  "\<exists>message. dispatch example_codec flaky_env example_dispatcher example_reporter 0 (example_command CleanupRuntime)
       lifecycle_new \<lparr>ew_net = \<lparr>net_log = [], net_uuids = 0\<rparr>, ew_rep = reporter_init, ew_rt = 0\<rparr>
     = (Inl (ree_invalid_command message), lifecycle_new, \<lparr>ew_net = \<lparr>net_log = [], net_uuids = 0\<rparr>, ew_rep = reporter_init, ew_rt = 0\<rparr>)"
  by (rule invalid_commands_have_no_effect)
    (simp add: example_command_def cleanup_runtime_payload_def example_codec_def)

text \<open>Dispatching changes the node lifecycle in two ways only: \<open>DrainNode\<close> sets \<open>Draining\<close>, and
  \<open>ResumeNode\<close> sets \<open>Active\<close>, after the runtime's preflight reported no fatal failure and its capacity
  could be read; a failed preflight or capacity leaves the state as it was.\<close>

theorem dispatch_lifecycle:
  "lifecycle_state (fst (snd (dispatch C E d r now command l w))) =
     (if cmd_type command = DrainNode then Draining
      else if cmd_type command = ResumeNode
              \<and> (case ex_preflight (di_executor d) w of
                   (Inr checks, w') \<Rightarrow> \<not> has_fatal_failure checks \<and> \<not> is_err (fst (ex_capacity (di_executor d) w'))
                 | (Inl _, _) \<Rightarrow> False)
      then Active else lifecycle_state l)"
  by (cases "cmd_type command")
    (auto simp: dispatch_def keep_lifecycle_def handle_drain_node_def handle_resume_node_def Let_def
      split: prod.splits sum.splits)

end
