(* ===== verification/Processor.thy ===== *)
theory Processor
  imports Dispatcher
begin

text \<open>
  The command processor, \<^verbatim>\<open>commands/processor.rs\<close>: claim, execute under a deadline, flush the logs,
  report the outcome.

  The race between the execution and the deadline is a value of \<open>execution\<close>: the execution ends in
  time; or the deadline passes first, in some world, and then the execution either ends within the
  window the code grants (the grace after a cutover, one second otherwise) or is dropped at its end.
  \<open>process\<close> takes as an argument how the execution of the command runs (a function of the reporter, the
  deadline and the world); every theorem holds for all of them. \<open>runs_dispatch\<close> says that an execution
  that ends in time is a dispatch.
\<close>

definition POST_COMMIT_FINALIZATION_GRACE :: duration where
  "POST_COMMIT_FINALIZATION_GRACE = from_secs 30"

record CommandProcessor =
  pr_client :: ApiClient
  pr_command_timeout :: duration
  pr_post_commit_finalization_grace :: duration

definition processor_new :: "ApiClient \<Rightarrow> duration \<Rightarrow> CommandProcessor" where
  "processor_new client command_timeout =
     \<lparr>pr_client = client, pr_command_timeout = command_timeout,
      pr_post_commit_finalization_grace = POST_COMMIT_FINALIZATION_GRACE\<rparr>"

definition default_log_bounds :: LogBounds where
  "default_log_bounds = \<lparr>lb_max_line_length = None, lb_max_batch_lines = None, lb_max_total_bytes = None\<rparr>"

definition command_policy ::
    "codec \<Rightarrow> CommandProcessor \<Rightarrow> AgentCommand \<Rightarrow> RuntimeExecutionError + duration \<times> LogBounds" where
  "command_policy C p command =
     (if cmd_type command \<noteq> DeployProject then Inr (pr_command_timeout p, default_log_bounds)
      else case deploy_payload C command of
        Inl error \<Rightarrow> Inl (ree_invalid_command (''invalid DeployProject payload: '' @ error))
      | Inr payload \<Rightarrow>
          let maximum = as_secs (pr_command_timeout p);
              requested = (case tl_command_timeout_seconds (dp_timeouts payload) of None \<Rightarrow> maximum | Some s \<Rightarrow> s)
          in if requested = 0 \<or> maximum < requested then
               Inl (ree_invalid_command
                 (''command_timeout_seconds ('' @ show_word requested @ ''s) exceeds the node maximum of ''
                  @ show_word maximum @ ''s''))
             else Inr (from_secs requested, dp_log_bounds payload))"

datatype 'w after_deadline =
    Ends "RuntimeExecutionError + json" 'w
  | Elapses 'w

datatype 'w execution =
    InTime "RuntimeExecutionError + json" 'w
  | Late 'w "'w after_deadline"

fun reason_text :: "FinalizationDeferredReason \<Rightarrow> string" where
  "reason_text GraceElapsed = ''grace_elapsed''"
| "reason_text RuntimeError = ''runtime_error''"

text \<open>\<^verbatim>\<open>Map::insert\<close>; the order of the entries carries no meaning.\<close>

fun json_insert :: "string \<Rightarrow> json \<Rightarrow> (string \<times> json) list \<Rightarrow> (string \<times> json) list" where
  "json_insert k v [] = [(k, v)]"
| "json_insert k v ((k', v') # kvs) = (if k = k' then (k, v) # kvs else (k', v') # json_insert k v kvs)"

definition deferred_committed_output :: "ReporterState \<Rightarrow> FinalizationDeferredReason \<Rightarrow> json" where
  "deferred_committed_output rep reason =
     (let result = (case committed_output rep of None \<Rightarrow> JNull | Some output \<Rightarrow> output)
      in case result of
           JObject kvs \<Rightarrow>
             JObject (json_insert ''finalization_deferred_reason'' (JString (reason_text reason))
               (json_insert ''finalization_deferred'' (JBool True) kvs))
         | _ \<Rightarrow>
             JObject [(''committed_result'', result), (''finalization_deferred'', JBool True),
                      (''finalization_deferred_reason'', JString (reason_text reason))])"

definition runtime_timeout_error :: "duration \<Rightarrow> RuntimeExecutionError" where
  "runtime_timeout_error d =
     ree_new ''runtime_timeout'' (''command execution exceeded its '' @ show_word (as_secs d) @ ''s timeout'')"

text \<open>The \<^verbatim>\<open>select!\<close> and the match after it: the outcome that will be reported.\<close>

definition await_execution ::
    "duration \<Rightarrow> 'rt eworld execution \<Rightarrow> (RuntimeExecutionError + json) \<times> 'rt eworld" where
  "await_execution deadline x =
     (case x of
        InTime res w \<Rightarrow> (res, w)
      | Late w rest \<Rightarrow>
          if deployment_committed (ew_rep w) then
            (case rest of
               Ends (Inr output) w \<Rightarrow> (Inr output, w)
             | Ends (Inl error) w \<Rightarrow> (Inr (deferred_committed_output (ew_rep w) RuntimeError), w)
             | Elapses w \<Rightarrow> (Inr (deferred_committed_output (ew_rep w) GraceElapsed), w))
          else
            (Inl (runtime_timeout_error deadline), (case rest of Ends _ w \<Rightarrow> w | Elapses w \<Rightarrow> w)))"

definition settle ::
    "duration \<Rightarrow> 'rt eworld execution \<Rightarrow> (RuntimeExecutionError + json) \<times> 'rt eworld" where
  "settle deadline x =
     (case await_execution deadline x of
        (Inl error, w) \<Rightarrow>
          if deployment_committed (ew_rep w) then (Inr (deferred_committed_output (ew_rep w) RuntimeError), w)
          else (Inl error, w)
      | (Inr output, w) \<Rightarrow> (Inr output, w))"

definition claimed_event :: "timestamp \<Rightarrow> DeploymentEvent" where
  "claimed_event now =
     \<lparr>ev_event_type = ''command.claimed'', ev_level = Level_Info, ev_message = ''Agent claimed command.'',
      ev_metadata = JObject [], ev_occurred_at = now\<rparr>"

definition flush_w :: "http_env \<Rightarrow> ReporterInner \<Rightarrow> 'rt eworld \<Rightarrow> 'rt eworld" where
  "flush_w E r w =
     (case reporter_flush E r (ew_rep w) (ew_net w) of (_, rep, n) \<Rightarrow> w\<lparr>ew_rep := rep, ew_net := n\<rparr>)"

text \<open>The terminal transition for an outcome.\<close>

definition finish ::
    "http_env \<Rightarrow> CommandProcessor \<Rightarrow> AgentCommand \<Rightarrow> RuntimeExecutionError + json \<Rightarrow> net \<Rightarrow> (CoreError + unit) \<times> net" where
  "finish E p command outcome n =
     (case outcome of
        Inr output \<Rightarrow> complete E (pr_client p) (cmd_id command) output n
      | Inl error \<Rightarrow>
          (case fail E (pr_client p) (cmd_id command) (ree_code error) (ree_message error) n of
             (Inl e, n) \<Rightarrow> (Inl e, n)
           | (Inr _, n) \<Rightarrow> (Inl (Runtime error), n)))"

definition process ::
    "codec \<Rightarrow> http_env \<Rightarrow> CommandProcessor \<Rightarrow> (ReporterInner \<Rightarrow> duration \<Rightarrow> 'rt eworld \<Rightarrow> 'rt eworld execution) \<Rightarrow>
     timestamp \<Rightarrow> AgentCommand \<Rightarrow> 'rt eworld \<Rightarrow> (CoreError + unit) \<times> 'rt eworld" where
  "process C E p run now command w =
     (case claim E (pr_client p) (cmd_id command) (ew_net w) of
        (Inl CommandNotClaimable, n) \<Rightarrow> (Inr (), w\<lparr>ew_net := n\<rparr>)
      | (Inl error, n) \<Rightarrow> (Inl error, w\<lparr>ew_net := n\<rparr>)
      | (Inr _, n) \<Rightarrow>
          (case event E (pr_client p) (cmd_id command) (claimed_event now) n of
             (Inl error, n) \<Rightarrow> (Inl error, w\<lparr>ew_net := n\<rparr>)
           | (Inr _, n) \<Rightarrow>
               (case command_policy C p command of
                  Inl error \<Rightarrow>
                    (case finish E p command (Inl error) n of (res, n) \<Rightarrow> (res, w\<lparr>ew_net := n\<rparr>))
                | Inr (deadline, log_bounds) \<Rightarrow>
                    let r = reporter_new (pr_client p) (cmd_id command) log_bounds
                    in case settle deadline (run r deadline (w\<lparr>ew_net := n, ew_rep := reporter_init\<rparr>)) of
                         (outcome, w) \<Rightarrow>
                           let w = flush_w E r w
                           in case finish E p command outcome (ew_net w) of (res, n) \<Rightarrow> (res, w\<lparr>ew_net := n\<rparr>))))"

text \<open>An execution that ends in time is a dispatch of the command.\<close>

definition runs_dispatch ::
    "codec \<Rightarrow> http_env \<Rightarrow> 'rt dispatcher \<Rightarrow> timestamp \<Rightarrow> AgentCommand \<Rightarrow> NodeLifecycle \<Rightarrow>
     ReporterInner \<Rightarrow> duration \<Rightarrow> 'rt eworld \<Rightarrow> 'rt eworld execution" where
  "runs_dispatch C E d now command l r deadline w =
     (case dispatch C E d r now command l w of (res, _, w) \<Rightarrow> InTime res w)"

subsection \<open>The deadline of a command\<close>

text \<open>The deadline of a command is positive and never longer than the node's command timeout, whatever
  the control plane asks for; a deployment that asks for zero or for more is refused.\<close>

theorem command_policy_bounded:
  assumes "command_policy C p command = Inr (deadline, bounds)"
    and "pr_command_timeout p = from_secs s" "s \<noteq> 0"
  shows "0 < deadline \<and> deadline \<le> pr_command_timeout p"
proof (cases "cmd_type command = DeployProject")
  case False
  with assms have "deadline = from_secs s" by (simp add: command_policy_def)
  with assms(2,3) from_secs_eq_0 [of s] show ?thesis by (simp flip: neq0_conv)
next
  case True
  with assms(1) obtain payload k where "k \<noteq> 0" "k \<le> as_secs (pr_command_timeout p)" "deadline = from_secs k"
    by (auto simp: command_policy_def Let_def not_less split: sum.splits if_splits option.splits)
  moreover from this assms(2) have "from_secs k \<le> from_secs s" by simp
  ultimately show ?thesis
    using assms(2) from_secs_eq_0 [of k] by (simp flip: neq0_conv)
qed

definition example_processor :: CommandProcessor where
  "example_processor = processor_new example_client (from_secs 900)"

theorem command_policy_bounded_witness:
  "command_policy example_codec example_processor (example_command HealthCheck) = Inr (from_secs 900, default_log_bounds)
   \<and> 0 < from_secs 900 \<and> from_secs 900 \<le> pr_command_timeout example_processor"
proof -
  have c: "command_policy example_codec example_processor (example_command HealthCheck) = Inr (from_secs 900, default_log_bounds)"
    by (simp add: command_policy_def example_command_def example_processor_def processor_new_def)
  have t: "pr_command_timeout example_processor = from_secs 900" "(900 :: u64) \<noteq> 0"
    by (simp_all add: example_processor_def processor_new_def)
  from command_policy_bounded [OF c t] c show ?thesis by simp
qed

subsection \<open>Outcomes\<close>

text \<open>C15: the reported outcome of an execution. If the deployment was committed by the end, the command
  completes, never fails, whatever error, deadline or dropped finalization came after the cutover. If
  not, it fails exactly when the execution failed in time or missed its deadline, and then with
  \<open>runtime_timeout\<close> in the second case.\<close>

theorem settle_outcome:
  "(deployment_committed (ew_rep (snd (settle deadline x))) \<and> \<not> is_err (fst (settle deadline x)))
   \<or> (\<not> deployment_committed (ew_rep (snd (settle deadline x)))
      \<and> (case x of
           InTime res w \<Rightarrow> settle deadline x = (res, w)
         | Late w rest \<Rightarrow>
             fst (settle deadline x) = Inl (runtime_timeout_error deadline) \<or> deployment_committed (ew_rep w)))"
  by (cases x)
    (auto simp: settle_def await_execution_def split: after_deadline.splits sum.splits prod.splits)

lemma lookup_json_insert: "map_of (json_insert k v kvs) k' = (if k' = k then Some v else map_of kvs k')"
  by (induction kvs) auto

text \<open>An outcome built from the output saved at the cutover says so: it is an object with
  \<open>finalization_deferred\<close> true and the reason, and it keeps the saved output (its other fields when it is
  an object, the whole value under \<open>committed_result\<close> otherwise).\<close>

theorem deferred_output_marked:
  "json_get (deferred_committed_output rep reason) ''finalization_deferred'' = Some (JBool True)
   \<and> json_get (deferred_committed_output rep reason) ''finalization_deferred_reason'' = Some (JString (reason_text reason))
   \<and> (case committed_output rep of
        Some (JObject kvs) \<Rightarrow>
          list_all (\<lambda>k. k = ''finalization_deferred'' \<or> k = ''finalization_deferred_reason''
                 \<or> json_get (deferred_committed_output rep reason) k = map_of kvs k) (map fst kvs)
      | Some output \<Rightarrow> json_get (deferred_committed_output rep reason) ''committed_result'' = Some output
      | None \<Rightarrow> json_get (deferred_committed_output rep reason) ''committed_result'' = Some JNull)"
  by (cases "committed_output rep")
    (auto simp: deferred_committed_output_def json_get_def lookup_json_insert list_all_iff split: json.splits)


subsection \<open>The terminal transition\<close>

text \<open>The request of the terminal transition for an outcome.\<close>

definition terminal_request :: "http_env \<Rightarrow> ApiClient \<Rightarrow> uuid \<Rightarrow> RuntimeExecutionError + json \<Rightarrow> http_request" where
  "terminal_request E c command_id outcome =
     (case outcome of
        Inr output \<Rightarrow>
          (request c POST (command_action E command_id ''complete''))\<lparr>rq_body := Some (JObject [(''result'', output)])\<rparr>
      | Inl error \<Rightarrow>
          (request c POST (command_action E command_id ''fail''))
            \<lparr>rq_body := Some (JObject [(''error_code'', JString (sanitize_error_code (ree_code error))),
                                       (''error_message'', JString (sanitize_error_message (ree_message error)))])\<rparr>)"

definition expected_status :: "RuntimeExecutionError + json \<Rightarrow> CommandStatus" where
  "expected_status outcome = (case outcome of Inr _ \<Rightarrow> Status_Succeeded | Inl _ \<Rightarrow> Status_Failed)"

lemma post_terminal_log:
  assumes "post_terminal E c endpoint payload expected n = (res, n')"
  shows "\<exists>k < max_attempts c.
    net_log n' = net_log n @ attempt_log (ac_retry c) ((request c POST endpoint)\<lparr>rq_body := Some payload\<rparr>) 0 k"
  using send_loop_log [OF max_attempts_pos, of E "ac_retry c" "(request c POST endpoint)\<lparr>rq_body := Some payload\<rparr>" c n]
    assms
  by (auto simp: post_terminal_def send_with_retry_def split: prod.splits sum.splits)

lemma finish_log:
  "\<exists>k < max_attempts (pr_client p).
     net_log (snd (finish E p command outcome n)) =
       net_log n @ attempt_log (ac_retry (pr_client p)) (terminal_request E (pr_client p) (cmd_id command) outcome) 0 k"
proof (cases outcome)
  case (Inr out)
  then show ?thesis
    using post_terminal_log [of E "pr_client p" "command_action E (cmd_id command) ''complete''"
        "JObject [(''result'', out)]" Status_Succeeded n]
    by (cases "finish E p command outcome n") (auto simp: finish_def complete_def terminal_request_def)
next
  case (Inl error)
  then show ?thesis
    using post_terminal_log [of E "pr_client p" "command_action E (cmd_id command) ''fail''"
        "JObject [(''error_code'', JString (sanitize_error_code (ree_code error))),
                  (''error_message'', JString (sanitize_error_message (ree_message error)))]" Status_Failed n]
    by (cases "finish E p command outcome n")
      (auto simp: finish_def fail_def terminal_request_def split: prod.splits sum.splits)
qed

text \<open>A command that was claimed is settled, its logs are flushed, and it is finished.\<close>

lemma process_settles:
  assumes "claim E (pr_client p) (cmd_id command) (ew_net w) = (Inr (), n1)"
    and "event E (pr_client p) (cmd_id command) (claimed_event now) n1 = (Inr ack, n2)"
    and "command_policy C p command = Inr (deadline, log_bounds)"
    and "settle deadline (run (reporter_new (pr_client p) (cmd_id command) log_bounds) deadline
           (w\<lparr>ew_net := n2, ew_rep := reporter_init\<rparr>)) = (outcome, w1)"
  shows "process C E p run now command w =
    (let flushed = flush_w E (reporter_new (pr_client p) (cmd_id command) log_bounds) w1
     in case finish E p command outcome (ew_net flushed) of (res, n) \<Rightarrow> (res, flushed\<lparr>ew_net := n\<rparr>))"
  using assms by (simp add: process_def Let_def)


definition ok_env :: http_env where
  "ok_env = example_env (\<lambda>_ _. Inr \<lparr>rs_status = 204, rs_body = Inr []\<rparr>)"

definition example_world :: "nat eworld" where
  "example_world = \<lparr>ew_net = \<lparr>net_log = [], net_uuids = 0\<rparr>, ew_rep = reporter_init, ew_rt = 0\<rparr>"

definition example_run_fn :: "ReporterInner \<Rightarrow> duration \<Rightarrow> nat eworld \<Rightarrow> nat eworld execution" where
  "example_run_fn = runs_dispatch example_codec ok_env example_dispatcher 0 (example_command DrainNode) lifecycle_new"


text \<open>A command that is not claimed, because the claim conflicts or fails, is not executed: nothing is
  sent but the claim, the runtime and the reporter are untouched, and a conflict is not an error.\<close>

theorem unclaimed_not_executed:
  assumes "claim E (pr_client p) (cmd_id command) (ew_net w) = (Inl error, n)"
  shows "process C E p run now command w =
      ((if error = CommandNotClaimable then Inr () else Inl error), w\<lparr>ew_net := n\<rparr>)
     \<and> net_log n = net_log (ew_net w) @
         [Sent ((request (pr_client p) POST (command_action E (cmd_id command) ''claim''))\<lparr>rq_body := Some (JObject [])\<rparr>)]"
  using assms
  by (cases error) (auto simp: process_def claim_def send_def error_for_status_def split: sum.splits if_splits)

theorem unclaimed_not_executed_witness:
  "fst (process example_codec (example_env (\<lambda>_ _. Inr \<lparr>rs_status = 409, rs_body = Inr []\<rparr>)) example_processor
      example_run_fn 0 (example_command DrainNode) example_world) = Inr ()"
proof -
  let ?E = "example_env (\<lambda>_ _. Inr \<lparr>rs_status = 409, rs_body = Inr []\<rparr>)"
  obtain n where "claim ?E (pr_client example_processor) (cmd_id (example_command DrainNode)) (ew_net example_world)
      = (Inl CommandNotClaimable, n)"
    by (simp add: claim_def send_def example_env_def)
  from unclaimed_not_executed [OF this] show ?thesis by simp
qed

text \<open>C39: when the claim succeeds but the claim event is not delivered, processing stops with the error and
  no terminal transition is ever sent: the command stays claimed at the control plane.\<close>

theorem claimed_event_failure_leaves_command_claimed:
  assumes "claim E (pr_client p) (cmd_id command) (ew_net w) = (Inr (), n1)"
    and "event E (pr_client p) (cmd_id command) (claimed_event now) n1 = (Inl error, n2)"
  shows "process C E p run now command w = (Inl error, w\<lparr>ew_net := n2\<rparr>)
     \<and> (\<exists>rq k. net_log n2 = net_log n1 @ attempt_log (ac_retry (pr_client p)) rq 0 k
          \<and> rq_url rq = ac_base_url (pr_client p) @ command_action E (cmd_id command) ''events'')"
proof
  show "process C E p run now command w = (Inl error, w\<lparr>ew_net := n2\<rparr>)"
    using assms by (simp add: process_def)
  let ?rq = "(request (pr_client p) POST (command_action E (cmd_id command) ''events''))
      \<lparr>rq_idempotency_key := Some (env_uuid_str E (env_uuid E (net_uuids n1))),
       rq_body := Some (JObject [(''events'', JArray [env_json_of_event E (claimed_event now)])])\<rparr>"
  from assms(2) have "report_loop E (ac_retry (pr_client p)) ?rq 1 (max_attempts (pr_client p)) 0
      (n1\<lparr>net_uuids := net_uuids n1 + 1\<rparr>) = (Inl error, n2)"
    by (simp add: event_def events_def report_def Let_def)
  from report_loop_log [OF max_attempts_pos this] obtain k where
    "net_log n2 = net_log n1 @ attempt_log (ac_retry (pr_client p)) ?rq 0 k" by auto
  moreover have "rq_url ?rq = ac_base_url (pr_client p) @ command_action E (cmd_id command) ''events''"
    by (simp add: request_def)
  ultimately show "\<exists>rq k. net_log n2 = net_log n1 @ attempt_log (ac_retry (pr_client p)) rq 0 k
          \<and> rq_url rq = ac_base_url (pr_client p) @ command_action E (cmd_id command) ''events''"
    by blast
qed

theorem claimed_event_failure_leaves_command_claimed_witness:
  "\<exists>error n2. process example_codec
       (example_env (\<lambda>h _. if h = [] then Inr \<lparr>rs_status = 200, rs_body = Inr []\<rparr> else Inr \<lparr>rs_status = 422, rs_body = Inr []\<rparr>))
       example_processor example_run_fn 0 (example_command DrainNode) example_world
     = (Inl error, example_world\<lparr>ew_net := n2\<rparr>)"
proof -
  let ?E = "example_env (\<lambda>h _. if h = [] then Inr \<lparr>rs_status = 200, rs_body = Inr []\<rparr> else Inr \<lparr>rs_status = 422, rs_body = Inr []\<rparr>)"
  let ?p = example_processor and ?c = "example_command DrainNode"
  let ?n = "snd (claim ?E (pr_client ?p) (cmd_id ?c) (ew_net example_world))"
  have a: "claim ?E (pr_client ?p) (cmd_id ?c) (ew_net example_world) = (Inr (), ?n)" "net_log ?n \<noteq> []"
    by (simp_all add: claim_def send_def example_env_def error_for_status_def example_world_def)
  obtain error n2 where "event ?E (pr_client ?p) (cmd_id ?c) (claimed_event 0) ?n = (Inl error, n2)"
    using a(2)
    by (simp add: event_def events_def report_def Let_def report_loop.simps send_def example_env_def
        report_pass_def is_retryable_status_def report_outcome_def)
  from claimed_event_failure_leaves_command_claimed [OF a(1) this] show ?thesis by blast
qed

end
