(* ===== verification/Scheduler.thy ===== *)
theory Scheduler
  imports Core_State "HOL-Library.Sublist"
begin

text \<open>
  The bounded scheduler, \<^verbatim>\<open>crates/sakala-agent-core/src/scheduler/poller.rs\<close>: \<open>CommandExecutions\<close> and one
  turn of the polling loop.

  A spawned task is an entry of \<open>ce_tasks\<close> under its tokio task id; when it ends is the environment's
  choice, so the relation \<open>sreach\<close> lets any running task end at any time, normally or by a panic or
  abort. What the scheduler does with the ended task is \<open>reap\<close>. \<open>task_metadata\<close> is an association
  list from task ids.

  Shown: as long as no command is started while an earlier task for the same command still runs, the
  counters are exactly the running tasks, both limits hold, a project has at most one task and the
  heartbeat counter is the number of tasks. Without that condition the accounting breaks.
\<close>

type_synonym task_id = nat

record TaskMetadata =
  tm_command_id :: uuid
  tm_project_id :: "uuid option"
  tm_cancelled :: bool
  tm_lightweight :: bool

text \<open>A task of the \<^verbatim>\<open>JoinSet\<close>: its id and the value it returns when it ends normally.\<close>

record task =
  tk_id :: task_id
  tk_command_id :: uuid
  tk_project_id :: "uuid option"

record CommandExecutions =
  ce_heavy_limit :: nat
  ce_lightweight_limit :: nat
  ce_active_heavy :: nat
  ce_active_lightweight :: nat
  ce_active_projects :: "uuid set"
  ce_metrics :: SchedulerMetrics
  ce_task_metadata :: "(task_id \<times> TaskMetadata) list"
  ce_tasks :: "task list"
  ce_next_id :: task_id

definition is_lightweight :: "CommandType \<Rightarrow> bool" where
  "is_lightweight t \<longleftrightarrow> t = InspectProject \<or> t = HealthCheck \<or> t = RefreshRoute \<or> t = DrainNode \<or> t = ResumeNode"

definition executions_new :: "nat \<Rightarrow> SchedulerMetrics \<Rightarrow> CommandExecutions" where
  "executions_new limit metrics =
     \<lparr>ce_heavy_limit = limit, ce_lightweight_limit = 1, ce_active_heavy = 0, ce_active_lightweight = 0,
      ce_active_projects = {}, ce_metrics = metrics, ce_task_metadata = [], ce_tasks = [], ce_next_id = 0\<rparr>"

definition executions_len :: "CommandExecutions \<Rightarrow> nat" where
  "executions_len ce = length (ce_tasks ce)"

definition try_start :: "AgentCommand \<Rightarrow> CommandExecutions \<Rightarrow> bool \<times> CommandExecutions" where
  "try_start command ce =
     (let lightweight = is_lightweight (cmd_type command)
      in if (lightweight \<and> ce_lightweight_limit ce \<le> ce_active_lightweight ce)
            \<or> (\<not> lightweight \<and> ce_heavy_limit ce \<le> ce_active_heavy ce)
            \<or> (case cmd_project_id command of None \<Rightarrow> False | Some p \<Rightarrow> p \<in> ce_active_projects ce)
         then (False, ce)
         else (True, ce
           \<lparr>ce_active_projects :=
              (case cmd_project_id command of None \<Rightarrow> ce_active_projects ce | Some p \<Rightarrow> insert p (ce_active_projects ce)),
            ce_active_lightweight := (if lightweight then ce_active_lightweight ce + 1 else ce_active_lightweight ce),
            ce_active_heavy := (if lightweight then ce_active_heavy ce else ce_active_heavy ce + 1),
            ce_metrics := command_started (ce_metrics ce),
            ce_tasks := ce_tasks ce @ [\<lparr>tk_id = ce_next_id ce, tk_command_id = cmd_id command,
                                        tk_project_id = cmd_project_id command\<rparr>],
            ce_task_metadata := (ce_next_id ce,
               \<lparr>tm_command_id = cmd_id command, tm_project_id = cmd_project_id command, tm_cancelled = False,
                tm_lightweight = lightweight\<rparr>) # ce_task_metadata ce,
            ce_next_id := ce_next_id ce + 1\<rparr>))"

definition release_metadata :: "TaskMetadata \<Rightarrow> CommandExecutions \<Rightarrow> CommandExecutions" where
  "release_metadata t ce =
     ce\<lparr>ce_active_projects :=
          (case tm_project_id t of None \<Rightarrow> ce_active_projects ce | Some p \<Rightarrow> ce_active_projects ce - {p}),
        ce_active_lightweight := (if tm_lightweight t then ce_active_lightweight ce - 1 else ce_active_lightweight ce),
        ce_active_heavy := (if tm_lightweight t then ce_active_heavy ce else ce_active_heavy ce - 1),
        ce_metrics := command_finished (ce_metrics ce)\<rparr>"

definition remove_metadata :: "task_id \<Rightarrow> CommandExecutions \<Rightarrow> CommandExecutions" where
  "remove_metadata i ce =
     (case map_of (ce_task_metadata ce) i of
        None \<Rightarrow> ce
      | Some t \<Rightarrow>
          release_metadata t (ce\<lparr>ce_task_metadata := filter (\<lambda>(j, _). j \<noteq> i) (ce_task_metadata ce)\<rparr>))"

definition release_task :: "uuid \<Rightarrow> CommandExecutions \<Rightarrow> CommandExecutions" where
  "release_task command_id ce =
     fold remove_metadata
       (map fst (filter (\<lambda>(_, t). tm_command_id t = command_id) (ce_task_metadata ce))) ce"

text \<open>One \<^verbatim>\<open>try_join_next\<close> of \<open>reap_completed\<close> that returns the task \<open>i\<close>, which ended normally or not.\<close>

definition reap :: "task_id \<Rightarrow> bool \<Rightarrow> CommandExecutions \<Rightarrow> CommandExecutions" where
  "reap i ok ce =
     (case find (\<lambda>t. tk_id t = i) (ce_tasks ce) of
        None \<Rightarrow> ce
      | Some t \<Rightarrow>
          let ce = ce\<lparr>ce_tasks := filter (\<lambda>t. tk_id t \<noteq> i) (ce_tasks ce)\<rparr>
          in if ok then
               release_task (tk_command_id t)
                 (case tk_project_id t of
                    None \<Rightarrow> ce
                  | Some p \<Rightarrow> ce\<lparr>ce_active_projects := ce_active_projects ce - {p}\<rparr>)
             else remove_metadata i ce)"

definition reap_completed :: "(task_id \<times> bool) list \<Rightarrow> CommandExecutions \<Rightarrow> CommandExecutions" where
  "reap_completed ended ce = fold (\<lambda>(i, ok). reap i ok) ended ce"

text \<open>The same for \<open>wait_for_tasks\<close>, which does not touch \<open>active_projects\<close> on its own.\<close>

definition wait_one :: "task_id \<Rightarrow> bool \<Rightarrow> CommandExecutions \<Rightarrow> CommandExecutions" where
  "wait_one i ok ce =
     (case find (\<lambda>t. tk_id t = i) (ce_tasks ce) of
        None \<Rightarrow> ce
      | Some t \<Rightarrow>
          let ce = ce\<lparr>ce_tasks := filter (\<lambda>t. tk_id t \<noteq> i) (ce_tasks ce)\<rparr>
          in if ok then release_task (tk_command_id t) ce else remove_metadata i ce)"

definition cancel_all :: "CommandExecutions \<Rightarrow> CommandExecutions" where
  "cancel_all ce =
     ce\<lparr>ce_task_metadata := map (\<lambda>(i, t). (i, t\<lparr>tm_cancelled := True\<rparr>)) (ce_task_metadata ce)\<rparr>"

definition cancel_and_wait :: "(task_id \<times> bool) list \<Rightarrow> CommandExecutions \<Rightarrow> CommandExecutions" where
  "cancel_and_wait ended ce = fold (\<lambda>(i, ok). wait_one i ok) ended (cancel_all ce)"

subsection \<open>One turn of the polling loop\<close>

definition may_start :: "NodeLifecycle \<Rightarrow> AgentCommand \<Rightarrow> bool" where
  "may_start l command \<longleftrightarrow>
     cmd_status command = Status_Pending
     \<and> (accepts_workload_commands l \<or> cmd_type command = DrainNode \<or> cmd_type command = ResumeNode)"

text \<open>The \<^verbatim>\<open>for command in commands\<close> loop. Spawned tasks may change the lifecycle state while the loop
  runs, so every command comes with the state read for it. The result also lists the commands
  started.\<close>

fun start_commands ::
    "(NodeLifecycle \<times> AgentCommand) list \<Rightarrow> CommandExecutions \<Rightarrow> AgentCommand list \<times> CommandExecutions" where
  "start_commands [] ce = ([], ce)"
| "start_commands ((l, command) # commands) ce =
     (if \<not> may_start l command then start_commands commands ce
      else case try_start command ce of
        (True, ce) \<Rightarrow> (case start_commands commands ce of (started, ce) \<Rightarrow> (command # started, ce))
      | (False, ce) \<Rightarrow>
          start_commands commands (ce\<lparr>ce_metrics := command_deferred (ce_metrics ce)\<rparr>))"

text \<open>A turn: reap, finish a drain, poll, start. \<open>polled\<close> is what the control plane returned.\<close>

definition poll_turn ::
    "(task_id \<times> bool) list \<Rightarrow> CoreError + (NodeLifecycle \<times> AgentCommand) list \<Rightarrow> NodeLifecycle \<Rightarrow> CommandExecutions \<Rightarrow>
     AgentCommand list \<times> NodeLifecycle \<times> CommandExecutions" where
  "poll_turn ended polled l ce =
     (let ce = reap_completed ended ce;
          l = (if lifecycle_state l = Draining \<and> executions_len ce = 0 then lifecycle_set l Drained else l);
          ce = ce\<lparr>ce_metrics := begin_poll (ce_metrics ce)\<rparr>
      in case polled of
           Inl _ \<Rightarrow> ([], l, ce)
         | Inr commands \<Rightarrow> (case start_commands commands ce of (started, ce) \<Rightarrow> (started, l, ce)))"

subsection \<open>The accounting invariant\<close>

abbreviation metas :: "CommandExecutions \<Rightarrow> TaskMetadata list" where
  "metas ce \<equiv> map snd (ce_task_metadata ce)"

definition heavy_count :: "CommandExecutions \<Rightarrow> nat" where
  "heavy_count ce = length (filter (\<lambda>(_, t). \<not> tm_lightweight t) (ce_task_metadata ce))"

definition light_count :: "CommandExecutions \<Rightarrow> nat" where
  "light_count ce = length (filter (\<lambda>(_, t). tm_lightweight t) (ce_task_metadata ce))"

definition projects :: "CommandExecutions \<Rightarrow> uuid list" where
  "projects ce = List.map_filter (\<lambda>(_, t). tm_project_id t) (ce_task_metadata ce)"

definition sinv :: "CommandExecutions \<Rightarrow> bool" where
  "sinv ce \<longleftrightarrow>
     ce_active_heavy ce = heavy_count ce
   \<and> ce_active_lightweight ce = light_count ce
   \<and> ce_active_heavy ce \<le> ce_heavy_limit ce
   \<and> ce_active_lightweight ce \<le> ce_lightweight_limit ce
   \<and> ce_active_projects ce = set (projects ce)
   \<and> distinct (projects ce)
   \<and> sm_active_commands (ce_metrics ce) = of_nat (length (ce_task_metadata ce))
   \<and> distinct (map fst (ce_task_metadata ce))
   \<and> distinct (map tm_command_id (metas ce))
   \<and> list_all (\<lambda>i. i < ce_next_id ce) (map fst (ce_task_metadata ce))
   \<and> map (\<lambda>t. (tk_id t, tk_command_id t, tk_project_id t)) (rev (ce_tasks ce))
       = map (\<lambda>(i, t). (i, tm_command_id t, tm_project_id t)) (ce_task_metadata ce)"


lemma filter_unique:
  assumes "distinct (map f xs)" "x \<in> set xs"
  shows "filter (\<lambda>y. f y = f x) xs = [x]"
  using assms by (induction xs) (auto simp: filter_empty_conv image_iff)

lemma sinv_new: "sinv (executions_new limit metrics_default)"
  by (simp add: sinv_def executions_new_def heavy_count_def light_count_def projects_def metrics_default_def
      map_filter_simps)

lemma sinv_start:
  assumes "sinv ce" "try_start command ce = (True, ce')"
    and fresh: "cmd_id command \<notin> tk_command_id ` set (ce_tasks ce)"
  shows "sinv ce'"
proof -
  have tasks: "map (\<lambda>t. (tk_id t, tk_command_id t, tk_project_id t)) (rev (ce_tasks ce))
       = map (\<lambda>(i, t). (i, tm_command_id t, tm_project_id t)) (ce_task_metadata ce)"
    using assms(1) by (simp add: sinv_def)
  have "tk_command_id ` set (ce_tasks ce) = set (map tm_command_id (metas ce))"
    using arg_cong [OF tasks, of "\<lambda>xs. (fst \<circ> snd) ` set xs"]
    by (simp add: image_image case_prod_unfold)
  with fresh have "cmd_id command \<notin> set (map tm_command_id (metas ce))" by simp
  moreover have "ce_next_id ce \<notin> set (map fst (ce_task_metadata ce))"
    using assms(1) by (auto simp: sinv_def list_all_iff)
  moreover have "list_all (\<lambda>i. i < Suc (ce_next_id ce)) (map fst (ce_task_metadata ce))"
    using assms(1) by (auto simp: sinv_def list_all_iff)
  ultimately show ?thesis
    using assms(1,2)
    by (cases "is_lightweight (cmd_type command)"; cases "cmd_project_id command")
      (clarsimp simp: sinv_def try_start_def Let_def heavy_count_def light_count_def projects_def
        map_filter_simps command_started_def split: if_splits)+
qed

lemma sinv_remove:
  assumes "sinv ce" "(i, t) \<in> set (ce_task_metadata ce)"
  shows "sinv (remove_metadata i (ce\<lparr>ce_tasks := filter (\<lambda>t. tk_id t \<noteq> i) (ce_tasks ce)\<rparr>))"
proof -
  from assms(2) obtain us vs where m: "ce_task_metadata ce = us @ (i, t) # vs" by (meson split_list)
  have d: "distinct (map fst (ce_task_metadata ce))" using assms(1) by (simp add: sinv_def)
  then have "\<forall>x\<in>set us. fst x \<noteq> i" "\<forall>x\<in>set vs. fst x \<noteq> i"
    using m by force+
  then have "filter (\<lambda>p. fst p \<noteq> i) us = us" "filter (\<lambda>p. fst p \<noteq> i) vs = vs"
    by (simp_all add: filter_True)
  then have f: "filter (\<lambda>(j, _). j \<noteq> i) (ce_task_metadata ce) = us @ vs"
    "map_of (ce_task_metadata ce) i = Some t"
    using m map_of_is_SomeI [OF d assms(2)] by (simp_all add: case_prod_unfold)
  have tasks: "map (\<lambda>t. (tk_id t, tk_command_id t, tk_project_id t)) (rev (ce_tasks ce))
       = map (\<lambda>(i, t). (i, tm_command_id t, tm_project_id t)) (ce_task_metadata ce)"
    using assms(1) by (simp add: sinv_def)
  have "map (\<lambda>t. (tk_id t, tk_command_id t, tk_project_id t)) (rev (filter (\<lambda>t. tk_id t \<noteq> i) (ce_tasks ce)))
      = filter (\<lambda>(j, _). j \<noteq> i) (map (\<lambda>t. (tk_id t, tk_command_id t, tk_project_id t)) (rev (ce_tasks ce)))"
    by (simp add: filter_map rev_filter o_def)
  also have "\<dots> = map (\<lambda>(i, t). (i, tm_command_id t, tm_project_id t)) (filter (\<lambda>(j, _). j \<noteq> i) (ce_task_metadata ce))"
    unfolding tasks by (simp add: filter_map o_def case_prod_unfold)
  finally have tasks': "map (\<lambda>t. (tk_id t, tk_command_id t, tk_project_id t)) (rev (filter (\<lambda>t. tk_id t \<noteq> i) (ce_tasks ce)))
      = map (\<lambda>(i, t). (i, tm_command_id t, tm_project_id t)) (us @ vs)"
    unfolding f .
  have r: "remove_metadata i (ce\<lparr>ce_tasks := filter (\<lambda>t. tk_id t \<noteq> i) (ce_tasks ce)\<rparr>)
      = release_metadata t (ce\<lparr>ce_tasks := filter (\<lambda>t. tk_id t \<noteq> i) (ce_tasks ce), ce_task_metadata := us @ vs\<rparr>)"
    using f by (simp add: remove_metadata_def)
  have inv: "ce_active_heavy ce = heavy_count ce" "ce_active_lightweight ce = light_count ce"
    "heavy_count ce \<le> ce_heavy_limit ce" "light_count ce \<le> ce_lightweight_limit ce"
    "ce_active_projects ce = set (projects ce)" "distinct (projects ce)"
    "sm_active_commands (ce_metrics ce) = of_nat (length (ce_task_metadata ce))"
    "distinct (map tm_command_id (metas ce))" "list_all (\<lambda>i. i < ce_next_id ce) (map fst (ce_task_metadata ce))"
    using assms(1) by (simp_all add: sinv_def)
  from inv d m tasks' show ?thesis
    unfolding r sinv_def release_metadata_def heavy_count_def light_count_def projects_def map_filter_def
    by (cases "tm_lightweight t"; cases "tm_project_id t") (simp_all add: command_finished_def)
qed

lemma reap_release:
  assumes "sinv ce" "find (\<lambda>t. tk_id t = i) (ce_tasks ce) = Some k"
  obtains t where "(i, t) \<in> set (ce_task_metadata ce)" "tm_command_id t = tk_command_id k"
    "tm_project_id t = tk_project_id k" "map_of (ce_task_metadata ce) i = Some t"
    "filter (\<lambda>(_, t'). tm_command_id t' = tk_command_id k) (ce_task_metadata ce) = [(i, t)]"
proof -
  have k: "k \<in> set (ce_tasks ce)" "tk_id k = i"
    using assms(2) by (auto simp: find_Some_iff)
  then have "(i, tk_command_id k, tk_project_id k) \<in> set (map (\<lambda>t. (tk_id t, tk_command_id t, tk_project_id t)) (rev (ce_tasks ce)))"
    by (auto simp: image_iff)
  also have "map (\<lambda>t. (tk_id t, tk_command_id t, tk_project_id t)) (rev (ce_tasks ce))
      = map (\<lambda>(i, t). (i, tm_command_id t, tm_project_id t)) (ce_task_metadata ce)"
    using assms(1) by (simp add: sinv_def)
  finally obtain t where t: "(i, t) \<in> set (ce_task_metadata ce)" "tm_command_id t = tk_command_id k"
    "tm_project_id t = tk_project_id k" by auto
  moreover have "map_of (ce_task_metadata ce) i = Some t"
    using t(1) assms(1) by (simp add: sinv_def)
  moreover have "filter (\<lambda>y. (tm_command_id \<circ> snd) y = (tm_command_id \<circ> snd) (i, t)) (ce_task_metadata ce) = [(i, t)]"
    using t(1) assms(1) by (intro filter_unique) (simp_all only: sinv_def map_map)
  ultimately show ?thesis using that by (simp add: case_prod_unfold)
qed

lemma reap_is_remove:
  assumes "sinv ce" "find (\<lambda>t. tk_id t = i) (ce_tasks ce) = Some k"
  shows "reap i ok ce = remove_metadata i (ce\<lparr>ce_tasks := filter (\<lambda>t. tk_id t \<noteq> i) (ce_tasks ce)\<rparr>)"
proof -
  from assms obtain t where "(i, t) \<in> set (ce_task_metadata ce)" "tm_command_id t = tk_command_id k"
    "tm_project_id t = tk_project_id k" "map_of (ce_task_metadata ce) i = Some t"
    "filter (\<lambda>(_, t'). tm_command_id t' = tk_command_id k) (ce_task_metadata ce) = [(i, t)]"
    by (rule reap_release)
  with assms(2) show ?thesis
    by (cases "tk_project_id k")
      (simp_all add: reap_def Let_def release_task_def remove_metadata_def release_metadata_def)
qed

lemma sinv_reap: "sinv ce \<Longrightarrow> sinv (reap i ok ce)"
proof (cases "find (\<lambda>t. tk_id t = i) (ce_tasks ce)")
  case None
  then show "sinv ce \<Longrightarrow> sinv (reap i ok ce)" by (simp add: reap_def)
next
  case (Some k)
  assume s: "sinv ce"
  from s Some obtain t where "(i, t) \<in> set (ce_task_metadata ce)" by (rule reap_release)
  with s reap_is_remove [OF s Some, of ok] show ?thesis by (simp add: sinv_remove)
qed


subsection \<open>Reachable states\<close>

text \<open>With \<open>dups = False\<close> a command is only started when no task for the same command id is running.\<close>

inductive sreach :: "nat \<Rightarrow> bool \<Rightarrow> CommandExecutions \<Rightarrow> bool" for limit dups where
  sr_new: "sreach limit dups (executions_new limit metrics_default)"
| sr_start: "sreach limit dups ce \<Longrightarrow> try_start command ce = (True, ce') \<Longrightarrow>
     dups \<or> cmd_id command \<notin> tk_command_id ` set (ce_tasks ce) \<Longrightarrow> sreach limit dups ce'"
| sr_end: "sreach limit dups ce \<Longrightarrow> sreach limit dups (reap i ok ce)"
| sr_poll: "sreach limit dups ce \<Longrightarrow> sreach limit dups (ce\<lparr>ce_metrics := begin_poll (ce_metrics ce)\<rparr>)"
| sr_defer: "sreach limit dups ce \<Longrightarrow> sreach limit dups (ce\<lparr>ce_metrics := command_deferred (ce_metrics ce)\<rparr>)"

lemma sinv_metrics:
  "sinv ce \<Longrightarrow> sm_active_commands m = sm_active_commands (ce_metrics ce) \<Longrightarrow> sinv (ce\<lparr>ce_metrics := m\<rparr>)"
  by (simp add: sinv_def heavy_count_def light_count_def projects_def)

lemma sreach_sinv: "sreach limit dups ce \<Longrightarrow> \<not> dups \<Longrightarrow> sinv ce"
  by (induction rule: sreach.induct)
    (auto intro: sinv_new sinv_start sinv_reap sinv_metrics simp: begin_poll_def command_deferred_def)

lemma limits_kept [simp]:
  "ce_heavy_limit (remove_metadata i ce) = ce_heavy_limit ce"
  "ce_lightweight_limit (remove_metadata i ce) = ce_lightweight_limit ce"
  by (auto simp: remove_metadata_def release_metadata_def split: option.splits)

lemma limits_fold_remove [simp]:
  "ce_heavy_limit (fold remove_metadata is ce) = ce_heavy_limit ce"
  "ce_lightweight_limit (fold remove_metadata is ce) = ce_lightweight_limit ce"
  by (induction "is" arbitrary: ce) auto

lemma limits_reap:
  "ce_heavy_limit (reap i ok ce) = ce_heavy_limit ce" "ce_lightweight_limit (reap i ok ce) = ce_lightweight_limit ce"
  by (auto simp: reap_def Let_def release_task_def split: option.splits)

lemma sreach_limits: "sreach limit dups ce \<Longrightarrow> ce_heavy_limit ce = limit \<and> ce_lightweight_limit ce = 1"
  by (induction rule: sreach.induct)
    (auto simp: executions_new_def try_start_def Let_def limits_reap split: if_splits)

lemma length_filter_split: "length (filter P xs) + length (filter (\<lambda>x. \<not> P x) xs) = length xs"
  by (induction xs) auto

text \<open>C13: the scheduler never runs more than \<open>limit\<close> heavy and one lightweight command and never two
  commands of the same project, and the counter in the heartbeat is the number of running tasks,
  as long as a command is not started again while an earlier task for it still runs.\<close>

theorem scheduler_bounds:
  assumes "sreach limit False ce"
  shows "heavy_count ce \<le> limit \<and> light_count ce \<le> 1
     \<and> executions_len ce = heavy_count ce + light_count ce
     \<and> distinct (List.map_filter tk_project_id (ce_tasks ce))
     \<and> sm_active_commands (ce_metrics ce) = of_nat (executions_len ce)
     \<and> set (map tk_id (ce_tasks ce)) = set (map fst (ce_task_metadata ce))"
proof -
  from assms have i: "sinv ce" by (auto dest: sreach_sinv)
  from sreach_limits [OF assms] have l: "ce_heavy_limit ce = limit" "ce_lightweight_limit ce = 1" by auto
  have tasks: "map (\<lambda>t. (tk_id t, tk_command_id t, tk_project_id t)) (rev (ce_tasks ce))
       = map (\<lambda>(i, t). (i, tm_command_id t, tm_project_id t)) (ce_task_metadata ce)"
    using i by (simp add: sinv_def)
  have len: "length (ce_tasks ce) = length (ce_task_metadata ce)"
    using arg_cong [OF tasks, of length] by simp
  have "List.map_filter (\<lambda>x. x) (map tk_project_id (rev (ce_tasks ce)))
      = List.map_filter (\<lambda>x. x) (map (\<lambda>(i, t). tm_project_id t) (ce_task_metadata ce))"
    using arg_cong [OF tasks, of "\<lambda>xs. List.map_filter (\<lambda>x. x) (map (snd \<circ> snd) xs)"]
    by (simp add: o_def case_prod_unfold)
  then have "rev (List.map_filter tk_project_id (ce_tasks ce)) = projects ce"
    by (simp add: projects_def map_filter_def filter_map rev_map rev_filter o_def case_prod_unfold)
  then have "distinct (List.map_filter tk_project_id (ce_tasks ce))"
    using i by (metis distinct_rev sinv_def)
  moreover have "set (map tk_id (ce_tasks ce)) = set (map fst (ce_task_metadata ce))"
    using arg_cong [OF tasks, of "\<lambda>xs. fst ` set xs"] by (simp add: image_image case_prod_unfold)
  moreover have "executions_len ce = heavy_count ce + light_count ce"
    using length_filter_split [of "\<lambda>(_, t). tm_lightweight t" "ce_task_metadata ce"] len
    by (simp add: executions_len_def heavy_count_def light_count_def case_prod_unfold)
  ultimately show ?thesis using i l len by (simp add: sinv_def executions_len_def)
qed

definition cleanup_command :: "uuid \<Rightarrow> AgentCommand" where
  "cleanup_command u =
     \<lparr>cmd_id = u, cmd_type = CleanupRuntime, cmd_status = Status_Pending, cmd_project_id = None,
      cmd_deployment_id = None, cmd_payload = JNull\<rparr>"

fun start_all :: "AgentCommand list \<Rightarrow> CommandExecutions \<Rightarrow> CommandExecutions option" where
  "start_all [] ce = Some ce"
| "start_all (c # cs) ce = (case try_start c ce of (True, ce) \<Rightarrow> start_all cs ce | (False, _) \<Rightarrow> None)"

lemma start_all_sreach:
  "sreach limit dups ce \<Longrightarrow> start_all cs ce = Some ce' \<Longrightarrow> dups \<Longrightarrow> sreach limit dups ce'"
  by (induction cs arbitrary: ce) (auto split: prod.splits bool.splits intro: sr_start)

theorem scheduler_bounds_witness:
  "\<exists>ce. sreach 2 False ce \<and> executions_len ce = 1 \<and> heavy_count ce \<le> 2"
proof -
  let ?n = "executions_new 2 metrics_default"
  let ?ce = "snd (try_start (cleanup_command 1) ?n)"
  have "try_start (cleanup_command 1) ?n = (True, ?ce)" "executions_len ?ce = 1"
    by (simp_all add: try_start_def executions_new_def cleanup_command_def is_lightweight_def executions_len_def)
  then have "sreach 2 False ?ce" "executions_len ?ce = 1"
    by (auto intro: sr_start [OF sr_new] simp: executions_new_def)
  with scheduler_bounds [of 2 ?ce] show ?thesis by blast
qed



subsection \<open>What a poll starts\<close>

lemma try_start_simps:
  assumes "try_start command ce = (b, ce')"
  shows "length (ce_tasks ce') = length (ce_tasks ce) + of_bool b"
    "sm_capacity_waiting_commands (ce_metrics ce') = sm_capacity_waiting_commands (ce_metrics ce)"
    "\<not> b \<Longrightarrow> ce' = ce"
  using assms by (auto simp: try_start_def Let_def command_started_def split: if_splits)

definition admissible :: "NodeLifecycle \<times> AgentCommand \<Rightarrow> bool" where
  "admissible lc = may_start (fst lc) (snd lc)"

lemma admissible_pair [simp]: "admissible (l, c) = may_start l c"
  by (simp add: admissible_def)

lemma start_commands_counts:
  "start_commands obs ce = (started, ce') \<Longrightarrow>
     subseq started (map snd (filter admissible obs))
     \<and> length (ce_tasks ce') = length (ce_tasks ce) + length started
     \<and> sm_capacity_waiting_commands (ce_metrics ce') =
         sm_capacity_waiting_commands (ce_metrics ce) + of_nat (length (filter admissible obs) - length started)"
proof (induction obs ce arbitrary: started ce' rule: start_commands.induct)
  case (2 l command obs ce)
  show ?case
  proof (cases "may_start l command")
    case False
    with 2 show ?thesis by simp
  next
    case True
    obtain b ce1 where t: "try_start command ce = (b, ce1)" by fastforce
    note ts = try_start_simps [OF t]
    show ?thesis
    proof (cases b)
      case b: True
      obtain st ce2 where r: "start_commands obs ce1 = (st, ce2)" by fastforce
      with True b t 2(4) have "started = command # st" "ce' = ce2" by simp_all
      moreover have "subseq st (map snd (filter admissible obs)) \<and> length (ce_tasks ce2) = length (ce_tasks ce1) + length st
         \<and> sm_capacity_waiting_commands (ce_metrics ce2) =
             sm_capacity_waiting_commands (ce_metrics ce1) + of_nat (length (filter admissible obs) - length st)"
        using 2(2) [of b ce1 st ce2] True b t r by simp
      ultimately show ?thesis using True b ts by simp
    next
      case b: False
      let ?ce = "ce\<lparr>ce_metrics := command_deferred (ce_metrics ce)\<rparr>"
      have r: "start_commands obs ?ce = (started, ce')"
        using True b t 2(4) ts(3) by simp
      have ih: "subseq started (map snd (filter admissible obs)) \<and> length (ce_tasks ce') = length (ce_tasks ?ce) + length started
         \<and> sm_capacity_waiting_commands (ce_metrics ce') =
             sm_capacity_waiting_commands (ce_metrics ?ce) + of_nat (length (filter admissible obs) - length started)"
        using 2(3) [of b ce1 started ce'] True b t r ts(3) by simp
      have "length started \<le> length (filter admissible obs)"
        using ih list_emb_length by fastforce
      with ih True show ?thesis by (simp add: command_deferred_def Suc_diff_le list_emb_Cons)
    qed
  qed
qed simp

text \<open>A poll starts a subsequence of the polled commands, all of them pending and, while the node does
  not accept workload commands, only \<open>DrainNode\<close> and \<open>ResumeNode\<close>; every other admissible command is
  counted as waiting for capacity and nothing is queued locally.\<close>

theorem poll_starts_admissible:
  "list_all (\<lambda>c. cmd_status c = Status_Pending) (fst (start_commands obs ce))
   \<and> subseq (fst (start_commands obs ce)) (map snd obs)
   \<and> (list_ex (\<lambda>(l, c). accepts_workload_commands l) obs
      \<or> list_all (\<lambda>c. cmd_type c = DrainNode \<or> cmd_type c = ResumeNode) (fst (start_commands obs ce)))
   \<and> length (ce_tasks (snd (start_commands obs ce))) = length (ce_tasks ce) + length (fst (start_commands obs ce))
   \<and> sm_capacity_waiting_commands (ce_metrics (snd (start_commands obs ce))) =
       sm_capacity_waiting_commands (ce_metrics ce)
       + of_nat (length (filter admissible obs) - length (fst (start_commands obs ce)))"
proof -
  obtain started ce' where r: "start_commands obs ce = (started, ce')" by fastforce
  note c = start_commands_counts [OF r]
  have sub: "set started \<subseteq> snd ` set (filter admissible obs)"
    using c by (auto elim!: list_emb_set)
  have "subseq (map snd (filter admissible obs)) (map snd obs)"
    by (intro subseq_map) simp
  then have "subseq started (map snd obs)"
    using c subseq_order.trans by blast
  moreover have "list_all (\<lambda>c. cmd_status c = Status_Pending) started"
    using sub by (auto simp: list_all_iff admissible_def may_start_def)
  moreover have "list_ex (\<lambda>(l, c). accepts_workload_commands l) obs
      \<or> list_all (\<lambda>c. cmd_type c = DrainNode \<or> cmd_type c = ResumeNode) started"
    using sub by (fastforce simp: list_all_iff list_ex_iff admissible_def may_start_def)
  ultimately show ?thesis using c r by simp
qed

text \<open>A drain completes exactly when the state is \<open>Draining\<close> and no task is left after reaping; a turn
  changes the lifecycle state in no other way.\<close>

theorem drain_completes:
  "lifecycle_state (fst (snd (poll_turn ended polled l ce))) =
     (if lifecycle_state l = Draining \<and> ce_tasks (reap_completed ended ce) = [] then Drained
      else lifecycle_state l)"
  by (auto simp: poll_turn_def Let_def executions_len_def split: sum.splits prod.splits)

text \<open>On shutdown the cancellation of every running task is requested (again as long as no command was
  started twice).\<close>

theorem shutdown_cancels_all:
  assumes "sreach limit False ce"
  shows "set (map tk_id (ce_tasks ce)) = {i. \<exists>t. (i, t) \<in> set (ce_task_metadata (cancel_all ce)) \<and> tm_cancelled t}"
proof -
  from assms have "sinv ce" by (auto dest: sreach_sinv)
  then have tasks: "map (\<lambda>t. (tk_id t, tk_command_id t, tk_project_id t)) (rev (ce_tasks ce))
       = map (\<lambda>(i, t). (i, tm_command_id t, tm_project_id t)) (ce_task_metadata ce)"
    by (simp add: sinv_def)
  have "set (map tk_id (ce_tasks ce)) = fst ` set (ce_task_metadata ce)"
    using arg_cong [OF tasks, of "\<lambda>xs. fst ` set xs"] by (simp add: image_image case_prod_unfold)
  then show ?thesis by (force simp: cancel_all_def)
qed


theorem shutdown_cancels_all_witness:
  "\<exists>ce. sreach 2 False ce \<and> ce_tasks ce \<noteq> []
     \<and> set (map tk_id (ce_tasks ce)) = {i. \<exists>t. (i, t) \<in> set (ce_task_metadata (cancel_all ce)) \<and> tm_cancelled t}"
proof -
  let ?n = "executions_new 2 metrics_default"
  let ?ce = "snd (try_start (cleanup_command 1) ?n)"
  have "try_start (cleanup_command 1) ?n = (True, ?ce)" and ne: "ce_tasks ?ce \<noteq> []"
    by (simp_all add: try_start_def executions_new_def cleanup_command_def is_lightweight_def)
  then have r: "sreach 2 False ?ce"
    by (auto intro: sr_start [OF sr_new] simp: executions_new_def)
  from r ne shutdown_cancels_all [OF r] show ?thesis by blast
qed

end
