(* ===== verification/Runtime_Config.thy ===== *)
theory Runtime_Config
  imports Core_State
begin

text \<open>
  Errors and safety limits of \<^verbatim>\<open>sakala-agent-runtime\<close>: \<^verbatim>\<open>error.rs\<close>, \<^verbatim>\<open>config.rs\<close> and
  \<^verbatim>\<open>containers/limits.rs\<close>. Product policy (what a command asks for) is resolved against the limits of
  the node; what is shown is that nothing above the node's ceilings is ever applied.
\<close>

subsection \<open>Runtime errors\<close>

text \<open>The text of a \<^verbatim>\<open>std::io::Error\<close> is its argument.\<close>

datatype RuntimeError =
    Configuration string
  | InvalidCommand string
  | Dependency string
  | Repository string
  | RepositoryNotFound
  | RepositoryAccessDenied
  | RepositoryAuthFailed
  | RepositoryCredentialExpired
  | RepositoryCommitNotFound
  | RepositoryCheckoutFailed
  | Execution string
  | Build string
  | Container string
  | Health string
  | Routing string
  | Capacity string
  | DiskPressure string
  | WorkloadNotFound
  | WorkloadNotRunning
  | Cancelled
  | Timeout string u64
  | Reporting string
  | Filesystem string

fun runtime_error_text :: "RuntimeError \<Rightarrow> string" where
  "runtime_error_text (Configuration m) = ''invalid runtime configuration: '' @ m"
| "runtime_error_text (InvalidCommand m) = ''invalid runtime command: '' @ m"
| "runtime_error_text (Dependency m) = ''runtime dependency failed: '' @ m"
| "runtime_error_text (Repository m) = ''runtime repository operation failed: '' @ m"
| "runtime_error_text RepositoryNotFound = ''repository was not found''"
| "runtime_error_text RepositoryAccessDenied = ''repository access was denied''"
| "runtime_error_text RepositoryAuthFailed = ''repository authentication failed''"
| "runtime_error_text RepositoryCredentialExpired = ''repository credential has expired or is no longer valid''"
| "runtime_error_text RepositoryCommitNotFound = ''requested repository commit was not found''"
| "runtime_error_text RepositoryCheckoutFailed = ''repository checkout failed''"
| "runtime_error_text (Execution m) = ''runtime operation failed: '' @ m"
| "runtime_error_text (Build m) = ''runtime build failed: '' @ m"
| "runtime_error_text (Container m) = ''runtime container operation failed: '' @ m"
| "runtime_error_text (Health m) = ''runtime health check failed: '' @ m"
| "runtime_error_text (Routing m) = ''runtime routing failed: '' @ m"
| "runtime_error_text (Capacity m) = ''runtime capacity exceeded: '' @ m"
| "runtime_error_text (DiskPressure m) = ''runtime disk pressure: '' @ m"
| "runtime_error_text WorkloadNotFound = ''managed workload was not found''"
| "runtime_error_text WorkloadNotRunning = ''managed workload is not running''"
| "runtime_error_text Cancelled = ''runtime operation was cancelled''"
| "runtime_error_text (Timeout operation seconds) =
     ''runtime operation '' @ operation @ '' exceeded its '' @ show_word seconds @ ''s timeout''"
| "runtime_error_text (Reporting m) = ''runtime reporting failed: '' @ m"
| "runtime_error_text (Filesystem m) = ''runtime filesystem operation failed: '' @ m"

fun runtime_error_code :: "RuntimeError \<Rightarrow> string" where
  "runtime_error_code (Configuration _) = ''invalid_runtime_configuration''"
| "runtime_error_code (InvalidCommand _) = ''invalid_runtime_command''"
| "runtime_error_code (Dependency _) = ''runtime_dependency_failed''"
| "runtime_error_code (Repository _) = ''runtime_repository_failed''"
| "runtime_error_code RepositoryNotFound = ''repository_not_found''"
| "runtime_error_code RepositoryAccessDenied = ''repository_access_denied''"
| "runtime_error_code RepositoryAuthFailed = ''repository_auth_failed''"
| "runtime_error_code RepositoryCredentialExpired = ''repository_credential_expired''"
| "runtime_error_code RepositoryCommitNotFound = ''repository_commit_not_found''"
| "runtime_error_code RepositoryCheckoutFailed = ''repository_checkout_failed''"
| "runtime_error_code (Execution _) = ''runtime_execution_failed''"
| "runtime_error_code (Build _) = ''runtime_build_failed''"
| "runtime_error_code (Container _) = ''runtime_container_failed''"
| "runtime_error_code (Health _) = ''runtime_health_check_failed''"
| "runtime_error_code (Routing _) = ''runtime_routing_failed''"
| "runtime_error_code (Capacity _) = ''runtime_capacity_exceeded''"
| "runtime_error_code (DiskPressure _) = ''runtime_disk_pressure''"
| "runtime_error_code WorkloadNotFound = ''runtime_workload_not_found''"
| "runtime_error_code WorkloadNotRunning = ''runtime_workload_not_running''"
| "runtime_error_code Cancelled = ''runtime_cancelled''"
| "runtime_error_code (Timeout _ _) = ''runtime_timeout''"
| "runtime_error_code (Reporting _) = ''runtime_reporting_failed''"
| "runtime_error_code (Filesystem _) = ''runtime_filesystem_failed''"

text \<open>The derived \<^verbatim>\<open>Debug\<close> of an \<^verbatim>\<open>Option<i32>\<close>.\<close>

definition status_debug :: "int option \<Rightarrow> string" where
  "status_debug s =
     (case s of
        None \<Rightarrow> ''None''
      | Some k \<Rightarrow> ''Some('' @ (if k < 0 then ''-'' @ dec (nat (- k)) else dec (nat k)) @ '')'')"

definition failed_operation :: "string \<Rightarrow> int option \<Rightarrow> RuntimeError" where
  "failed_operation phase status =
     (let summary = phase @ '' exited with status '' @ status_debug status
      in if starts_with phase ''git-'' then Repository summary
         else if contains phase ''build'' \<or> starts_with phase ''railpack-'' then Build summary
         else if starts_with phase ''docker-'' then Container summary
         else if starts_with phase ''caddy-'' then Routing summary
         else Execution summary)"

definition classify_repository_failure :: "string \<Rightarrow> RuntimeError" where
  "classify_repository_failure stderr =
     (let detail = to_ascii_lowercase stderr
      in if contains detail ''repository not found'' then RepositoryNotFound
         else if contains detail ''authentication failed'' \<or> contains detail ''http basic: access denied''
                 \<or> contains detail ''invalid username or token'' then RepositoryAuthFailed
         else if contains detail ''expired'' \<or> contains detail ''token has been revoked''
                 \<or> contains detail ''token is not valid'' then RepositoryCredentialExpired
         else if contains detail ''permission denied'' \<or> contains detail ''could not read from remote repository''
                 \<or> contains detail ''access denied'' then RepositoryAccessDenied
         else if contains detail ''couldn't find remote ref'' \<or> contains detail ''not our ref''
                 \<or> contains detail ''reference is not a tree'' \<or> contains detail ''unknown revision''
              then RepositoryCommitNotFound
         else RepositoryCheckoutFailed)"

definition failed_process :: "string \<Rightarrow> int option \<Rightarrow> string \<Rightarrow> RuntimeError" where
  "failed_process phase status stderr =
     (if starts_with phase ''git-'' then classify_repository_failure stderr else failed_operation phase status)"

definition ree_of_runtime :: "RuntimeError \<Rightarrow> RuntimeExecutionError" where
  "ree_of_runtime e = ree_new (runtime_error_code e) (runtime_error_text e)"

definition runtime_of_ree :: "RuntimeExecutionError \<Rightarrow> RuntimeError" where
  "runtime_of_ree e = Reporting (ree_message e)"

text \<open>The output of a failed git process never reaches the error: only its class does.\<close>

lemma git_error_is_classified:
  "runtime_error_text (failed_process (''git-'' @ p) status stderr) \<in>
     {''repository was not found'', ''repository access was denied'', ''repository authentication failed'',
      ''repository credential has expired or is no longer valid'', ''requested repository commit was not found'',
      ''repository checkout failed''}"
proof -
  have "starts_with (''git-'' @ p) ''git-''" by (rule starts_with_append)
  then have "failed_process (''git-'' @ p) status stderr = classify_repository_failure stderr"
    by (simp only: failed_process_def if_True)
  then show ?thesis by (simp add: classify_repository_failure_def Let_def del: append_Cons)
qed

subsection \<open>Resource limits\<close>

record ResourceSafetyConfig =
  rsc_default_memory_mb :: u64
  rsc_max_memory_mb :: u64
  rsc_default_cpu_millis :: u32
  rsc_max_cpu_millis :: u32
  rsc_default_pids_limit :: u32
  rsc_max_pids_limit :: u32

definition default_resource_safety :: ResourceSafetyConfig where
  "default_resource_safety =
     \<lparr>rsc_default_memory_mb = 256, rsc_max_memory_mb = 512, rsc_default_cpu_millis = 500,
      rsc_max_cpu_millis = 1000, rsc_default_pids_limit = 128, rsc_max_pids_limit = 256\<rparr>"

definition resolve_limit :: "string \<Rightarrow> 'a::len word option \<Rightarrow> 'a word \<Rightarrow> 'a word \<Rightarrow> RuntimeError + 'a word" where
  "resolve_limit name requested default_limit maximum =
     (let v = (case requested of None \<Rightarrow> default_limit | Some r \<Rightarrow> r)
      in if v = 0 then Inl (InvalidCommand (''requested '' @ name @ '' must be greater than zero''))
         else if maximum < v then
           Inl (InvalidCommand (''requested '' @ name @ '' ('' @ show_word v @ '') exceeds this node's maximum (''
             @ show_word maximum @ '')''))
         else Inr v)"

definition invalid_safety :: "string \<Rightarrow> nat \<Rightarrow> nat \<Rightarrow> RuntimeError" where
  "invalid_safety name default_limit maximum =
     Configuration (''invalid resource safety config for '' @ name @ '': default='' @ dec default_limit
       @ '', maximum='' @ dec maximum)"

fun validate_safety_entries :: "(string \<times> nat \<times> nat) list \<Rightarrow> RuntimeError + unit" where
  "validate_safety_entries [] = Inr ()"
| "validate_safety_entries ((name, default_limit, maximum) # rest) =
     (if default_limit = 0 \<or> maximum = 0 \<or> maximum < default_limit then Inl (invalid_safety name default_limit maximum)
      else validate_safety_entries rest)"

definition validate_safety_config :: "ResourceSafetyConfig \<Rightarrow> RuntimeError + unit" where
  "validate_safety_config c =
     validate_safety_entries
       [(''memory_mb'', unat (rsc_default_memory_mb c), unat (rsc_max_memory_mb c)),
        (''cpu_millis'', unat (rsc_default_cpu_millis c), unat (rsc_max_cpu_millis c)),
        (''pids_limit'', unat (rsc_default_pids_limit c), unat (rsc_max_pids_limit c))]"

definition resolve_resources :: "ResourceSafetyConfig \<Rightarrow> RuntimeResourceLimits \<Rightarrow> RuntimeError + AppliedRuntimeResources" where
  "resolve_resources c requested =
     res_bind (validate_safety_config c) (\<lambda>_.
     res_bind (resolve_limit ''memory_mb'' (rl_memory_mb requested) (rsc_default_memory_mb c) (rsc_max_memory_mb c)) (\<lambda>memory.
     res_bind (resolve_limit ''cpu_millis'' (rl_cpu_millis requested) (rsc_default_cpu_millis c) (rsc_max_cpu_millis c)) (\<lambda>cpu.
     res_bind (resolve_limit ''pids_limit'' (rl_pids_limit requested) (rsc_default_pids_limit c) (rsc_max_pids_limit c)) (\<lambda>pids.
     Inr \<lparr>ar_memory_mb = memory, ar_cpu_millis = cpu, ar_pids_limit = pids\<rparr>))))"

text \<open>\<^verbatim>\<open>{remainder:03}\<close>: three digits with leading zeros.\<close>

definition pad3 :: "nat \<Rightarrow> string" where
  "pad3 n = replicate (3 - length (dec n)) CHR ''0'' @ dec n"

definition docker_cpu_value :: "u32 \<Rightarrow> string" where
  "docker_cpu_value cpu_millis =
     (let whole = unat cpu_millis div 1000; remainder = unat cpu_millis mod 1000
      in if remainder = 0 then dec whole
         else trim_end_matches CHR ''0'' (dec whole @ ''.'' @ pad3 remainder))"

subsection \<open>Timeout limits\<close>

record TimeoutSafetyConfig =
  tsc_max_build_timeout :: duration
  tsc_max_start_timeout :: duration
  tsc_max_command_timeout :: duration

definition default_timeout_safety :: TimeoutSafetyConfig where
  "default_timeout_safety =
     \<lparr>tsc_max_build_timeout = from_secs 600, tsc_max_start_timeout = from_secs 120,
      tsc_max_command_timeout = from_secs 900\<rparr>"

record AppliedRuntimeTimeouts =
  at_build :: duration
  at_start :: duration

definition resolve_timeout :: "string \<Rightarrow> u64 option \<Rightarrow> duration \<Rightarrow> RuntimeError + duration" where
  "resolve_timeout name requested maximum =
     (let seconds = (case requested of None \<Rightarrow> as_secs maximum | Some s \<Rightarrow> s)
      in if seconds = 0 then Inl (InvalidCommand (name @ '' must be greater than zero''))
         else if as_secs maximum < seconds then
           Inl (InvalidCommand (name @ '' ('' @ show_word seconds @ ''s) exceeds the node maximum of ''
             @ show_word (as_secs maximum) @ ''s''))
         else Inr (from_secs seconds))"

definition resolve_timeouts :: "TimeoutSafetyConfig \<Rightarrow> RuntimeTimeoutLimits \<Rightarrow> RuntimeError + AppliedRuntimeTimeouts" where
  "resolve_timeouts c requested =
     res_bind (resolve_timeout ''build_timeout_seconds'' (tl_build_timeout_seconds requested) (tsc_max_build_timeout c)) (\<lambda>build.
     res_bind (resolve_timeout ''start_timeout_seconds'' (tl_start_timeout_seconds requested) (tsc_max_start_timeout c)) (\<lambda>start.
     res_bind (resolve_timeout ''command_timeout_seconds'' (tl_command_timeout_seconds requested) (tsc_max_command_timeout c)) (\<lambda>command.
     if command \<le> build \<or> command \<le> start then
       Inl (InvalidCommand ''build and start timeouts must each be shorter than command_timeout_seconds'')
     else Inr \<lparr>at_build = build, at_start = start\<rparr>)))"

record DockerRuntimeConfig =
  drc_agent_id :: string
  drc_workspace_root :: string
  drc_workspace_gc_max_age :: duration
  drc_image_gc_max_age :: duration
  drc_min_workspace_free_bytes :: u64
  drc_runtime_network :: string
  drc_caddy_sites_dir :: string
  drc_caddy_container :: string
  drc_railpack_frontend :: string
  drc_resource_safety :: ResourceSafetyConfig
  drc_timeout_safety :: TimeoutSafetyConfig
  drc_max_concurrent_builds :: nat
  drc_max_active_containers :: u32
  drc_health_attempts :: u32
  drc_health_interval :: duration

subsection \<open>What is applied is within the limits\<close>

lemma resolve_limit_Inr:
  "resolve_limit name requested d m = Inr v \<longleftrightarrow> v = (case requested of None \<Rightarrow> d | Some r \<Rightarrow> r) \<and> v \<noteq> 0 \<and> v \<le> m"
  by (auto simp: resolve_limit_def Let_def not_less)

text \<open>The resources applied to a container are exactly the requested ones, or the node's defaults where
  nothing is requested; they are positive and never above the node's maxima, and a request above a
  maximum or of zero is refused rather than clamped.\<close>

theorem resolved_resources_within_limits:
  assumes "resolve_resources c requested = Inr a"
  shows "0 < ar_memory_mb a \<and> ar_memory_mb a \<le> rsc_max_memory_mb c
     \<and> 0 < ar_cpu_millis a \<and> ar_cpu_millis a \<le> rsc_max_cpu_millis c
     \<and> 0 < ar_pids_limit a \<and> ar_pids_limit a \<le> rsc_max_pids_limit c
     \<and> (case rl_memory_mb requested of Some m \<Rightarrow> ar_memory_mb a = m | None \<Rightarrow> ar_memory_mb a = rsc_default_memory_mb c)
     \<and> (case rl_cpu_millis requested of Some m \<Rightarrow> ar_cpu_millis a = m | None \<Rightarrow> ar_cpu_millis a = rsc_default_cpu_millis c)
     \<and> (case rl_pids_limit requested of Some m \<Rightarrow> ar_pids_limit a = m | None \<Rightarrow> ar_pids_limit a = rsc_default_pids_limit c)"
  using assms
  by (auto simp: resolve_resources_def res_bind_Inr resolve_limit_Inr word_gt_0 split: option.splits)

theorem resolved_resources_within_limits_witness:
  "\<exists>a. resolve_resources default_resource_safety \<lparr>rl_memory_mb = Some 300, rl_cpu_millis = None, rl_pids_limit = None\<rparr> = Inr a
     \<and> ar_memory_mb a = 300 \<and> ar_memory_mb a \<le> 512 \<and> ar_cpu_millis a = 500"
proof -
  let ?r = "\<lparr>rl_memory_mb = Some 300, rl_cpu_millis = None, rl_pids_limit = None\<rparr>"
  let ?a = "\<lparr>ar_memory_mb = 300, ar_cpu_millis = 500, ar_pids_limit = 128\<rparr>"
  have r: "resolve_resources default_resource_safety ?r = Inr ?a" by code_simp
  from resolved_resources_within_limits [OF r] r show ?thesis
    by (intro exI [of _ ?a]) (simp add: default_resource_safety_def)
qed

text \<open>The build and start timeouts applied to a deployment are positive, within the node's maxima, and
  each shorter than the command timeout that is in force for it.\<close>

theorem resolved_timeouts_ordered:
  assumes "resolve_timeouts c requested = Inr t"
  shows "0 < at_build t \<and> at_build t \<le> tsc_max_build_timeout c
     \<and> 0 < at_start t \<and> at_start t \<le> tsc_max_start_timeout c
     \<and> (\<exists>command. resolve_timeout ''command_timeout_seconds'' (tl_command_timeout_seconds requested) (tsc_max_command_timeout c) = Inr command
          \<and> at_build t < command \<and> at_start t < command \<and> command \<le> tsc_max_command_timeout c)"
proof -
  have r: "0 < d \<and> d \<le> maximum" if "resolve_timeout name req maximum = Inr d" for name req maximum d
  proof -
    from that obtain s where s: "s \<noteq> 0" "s \<le> as_secs maximum" "d = from_secs s"
      by (auto simp: resolve_timeout_def Let_def not_less split: if_splits)
    have "unat s \<le> unat (as_secs maximum)" using s(2) by (simp add: word_le_nat_alt)
    also have "\<dots> \<le> maximum div 10 ^ 9"
      by (simp add: as_secs_def unat_of_nat)
    finally have "unat s * 10 ^ 9 \<le> maximum" by (metis div_times_less_eq_dividend le_trans mult_le_mono1)
    then show ?thesis
      using s from_secs_eq_0 [of s] by (simp add: from_secs_def flip: neq0_conv)
  qed
  from assms obtain command where
    "resolve_timeout ''build_timeout_seconds'' (tl_build_timeout_seconds requested) (tsc_max_build_timeout c) = Inr (at_build t)"
    "resolve_timeout ''start_timeout_seconds'' (tl_start_timeout_seconds requested) (tsc_max_start_timeout c) = Inr (at_start t)"
    "resolve_timeout ''command_timeout_seconds'' (tl_command_timeout_seconds requested) (tsc_max_command_timeout c) = Inr command"
    "at_build t < command" "at_start t < command"
    by (auto simp: resolve_timeouts_def res_bind_Inr split: if_splits)
  with r show ?thesis by blast
qed

theorem resolved_timeouts_ordered_witness:
  "\<exists>t. resolve_timeouts default_timeout_safety
        \<lparr>tl_build_timeout_seconds = Some 60, tl_start_timeout_seconds = None, tl_command_timeout_seconds = Some 121\<rparr> = Inr t
     \<and> at_build t \<le> from_secs 600"
proof -
  let ?r = "\<lparr>tl_build_timeout_seconds = Some 60, tl_start_timeout_seconds = None, tl_command_timeout_seconds = Some 121\<rparr>"
  let ?t = "\<lparr>at_build = from_secs 60, at_start = from_secs 120\<rparr>"
  have r: "resolve_timeouts default_timeout_safety ?r = Inr ?t" by code_simp
  from resolved_timeouts_ordered [OF r] r show ?thesis
    by (intro exI [of _ ?t]) (simp add: default_timeout_safety_def)
qed

end
