(* ===== verification/Runtime_Process.thy ===== *)
theory Runtime_Process
  imports Runtime_Config
begin

text \<open>
  Processes of the host, \<^verbatim>\<open>process/command.rs\<close>, \<^verbatim>\<open>process/mod.rs\<close> and \<^verbatim>\<open>logs/process.rs\<close> of
  \<^verbatim>\<open>sakala-agent-runtime\<close>, and the shape of asynchronous code shared by the theories of that crate.

  An asynchronous operation is a function of the world \<open>'w\<close> it runs in. It returns \<open>Ready\<close> with its
  \<^verbatim>\<open>Result\<close>, or \<open>Cut\<close>: its future was dropped at an \<^verbatim>\<open>await\<close> by whoever polled it (a timeout, a
  \<^verbatim>\<open>select!\<close>, an aborted task), and the world is what the finished part left behind. The operating
  system, the docker, git and railpack programs and the control plane are part of \<open>'w\<close> and of the
  functions that are parameters below (\<open>runner\<close>, \<open>reporter\<close>, \<open>spawn\<close>).
\<close>

subsection \<open>Futures\<close>

datatype ('e, 'a) fut = Ready "'e + 'a" | Cut

type_synonym ('w, 'a) async = "'w \<Rightarrow> (RuntimeError, 'a) fut \<times> 'w"

definition aret :: "'a \<Rightarrow> ('w, 'a) async" where
  "aret x w = (Ready (Inr x), w)"

definition athrow :: "RuntimeError \<Rightarrow> ('w, 'a) async" where
  "athrow e w = (Ready (Inl e), w)"

text \<open>\<^verbatim>\<open>m.await?\<close> followed by the rest.\<close>

definition abind :: "('w, 'a) async \<Rightarrow> ('a \<Rightarrow> ('w, 'b) async) \<Rightarrow> ('w, 'b) async" where
  "abind m f w =
     (case m w of
        (Ready (Inr x), w') \<Rightarrow> f x w'
      | (Ready (Inl e), w') \<Rightarrow> (Ready (Inl e), w')
      | (Cut, w') \<Rightarrow> (Cut, w'))"

text \<open>\<^verbatim>\<open>m.await\<close> whose result is inspected.\<close>

definition atry :: "('w, 'a) async \<Rightarrow> ('w, RuntimeError + 'a) async" where
  "atry m w = (case m w of (Ready r, w') \<Rightarrow> (Ready (Inr r), w') | (Cut, w') \<Rightarrow> (Cut, w'))"

definition alift :: "RuntimeError + 'a \<Rightarrow> ('w, 'a) async" where
  "alift r w = (Ready r, w)"

lemma abind_simps [simp]:
  "m w = (Ready (Inr x), w') \<Longrightarrow> abind m f w = f x w'"
  "m w = (Ready (Inl e), w') \<Longrightarrow> abind m f w = (Ready (Inl e), w')"
  "m w = (Cut, w') \<Longrightarrow> abind m f w = (Cut, w')"
  by (simp_all add: abind_def)

lemma atry_simps [simp]:
  "m w = (Ready r, w') \<Longrightarrow> atry m w = (Ready (Inr r), w')"
  "m w = (Cut, w') \<Longrightarrow> atry m w = (Cut, w')"
  by (simp_all add: atry_def)

lemma aret_simp [simp]: "aret x w = (Ready (Inr x), w)"
  by (simp add: aret_def)

lemma athrow_simp [simp]: "athrow e w = (Ready (Inl e), w)"
  by (simp add: athrow_def)

lemma alift_simp [simp]: "alift r w = (Ready r, w)"
  by (simp add: alift_def)

text \<open>How an operation can end, as one case distinction.\<close>

lemma fut_cases [case_names ok err cut]:
  obtains x w' where "r = (Ready (Inr x), w')" | e w' where "r = (Ready (Inl e), w')" | w' where "r = (Cut, w')"
proof -
  obtain f w' where r: "r = (f, w')" by (cases r)
  show thesis
  proof (cases f)
    case (Ready s)
    with r that show thesis by (cases s) auto
  next
    case Cut
    with r that show thesis by auto
  qed
qed

text \<open>
  The weakest precondition of an operation for a postcondition on its outcome and the world it leaves.
  Sequenced operations are taken apart by the equations below; each component gives introduction rules
  for its own operations.
\<close>

named_theorems wp_intro \<open>introduction rules for the weakest preconditions of the operations of a component\<close>

definition wp :: "('w, 'a) async \<Rightarrow> ((RuntimeError, 'a) fut \<Rightarrow> 'w \<Rightarrow> bool) \<Rightarrow> 'w \<Rightarrow> bool" where
  "wp m Q w = (case m w of (r, w') \<Rightarrow> Q r w')"

fun wp_then :: "('a \<Rightarrow> ('w, 'b) async) \<Rightarrow> ((RuntimeError, 'b) fut \<Rightarrow> 'w \<Rightarrow> bool) \<Rightarrow> (RuntimeError, 'a) fut \<Rightarrow> 'w \<Rightarrow> bool" where
  "wp_then f Q (Ready (Inr x)) w = wp (f x) Q w"
| "wp_then f Q (Ready (Inl e)) w = Q (Ready (Inl e)) w"
| "wp_then f Q Cut w = Q Cut w"

fun wp_try :: "((RuntimeError, RuntimeError + 'a) fut \<Rightarrow> 'w \<Rightarrow> bool) \<Rightarrow> (RuntimeError, 'a) fut \<Rightarrow> 'w \<Rightarrow> bool" where
  "wp_try Q (Ready s) w = Q (Ready (Inr s)) w"
| "wp_try Q Cut w = Q Cut w"

lemma wp_abind [simp]: "wp (abind m f) Q w = wp m (wp_then f Q) w"
  by (cases "m w" rule: fut_cases) (simp_all add: wp_def)

lemma wp_atry [simp]: "wp (atry m) Q w = wp m (wp_try Q) w"
  by (cases "m w" rule: fut_cases) (simp_all add: wp_def)

lemma wp_aret [simp]: "wp (aret x) Q w = Q (Ready (Inr x)) w"
  by (simp add: wp_def)

lemma wp_athrow [simp]: "wp (athrow e) Q w = Q (Ready (Inl e)) w"
  by (simp add: wp_def)

lemma wp_alift: "(\<And>x. r = Inr x \<Longrightarrow> Q (Ready (Inr x)) w) \<Longrightarrow> (\<And>e. r = Inl e \<Longrightarrow> Q (Ready (Inl e)) w) \<Longrightarrow> wp (alift r) Q w"
  by (cases r) (simp_all add: wp_def)

lemma wpD: "wp m Q w \<Longrightarrow> m w = (r, w') \<Longrightarrow> Q r w'"
  by (simp add: wp_def)

lemma wp_mono: "wp m Q w \<Longrightarrow> (\<And>r w'. Q r w' \<Longrightarrow> Q' r w') \<Longrightarrow> wp m Q' w"
  by (simp add: wp_def split: prod.splits)

lemma wp_then_cases:
  assumes "\<And>x. r = Ready (Inr x) \<Longrightarrow> wp (f x) Q w" "\<And>e. r = Ready (Inl e) \<Longrightarrow> Q (Ready (Inl e)) w" "r = Cut \<Longrightarrow> Q Cut w"
  shows "wp_then f Q r w"
  using assms by (cases "(f, Q, r, w)" rule: wp_then.cases) auto

lemma wp_outcomes:
  assumes "\<And>x w'. m w = (Ready (Inr x), w') \<Longrightarrow> Q (Ready (Inr x)) w'"
    and "\<And>e w'. m w = (Ready (Inl e), w') \<Longrightarrow> Q (Ready (Inl e)) w'"
    and "\<And>w'. m w = (Cut, w') \<Longrightarrow> Q Cut w'"
  shows "wp m Q w"
  using assms by (cases "m w" rule: fut_cases) (simp_all add: wp_def)

text \<open>The trait \<^verbatim>\<open>RuntimeReporter\<close>, as far as the runtime calls it, with the clock it stamps with.\<close>

record 'w reporter =
  rep_event :: "DeploymentEvent \<Rightarrow> 'w \<Rightarrow> (RuntimeExecutionError, unit) fut \<times> 'w"
  rep_log :: "DeploymentLog \<Rightarrow> 'w \<Rightarrow> (RuntimeExecutionError, unit) fut \<times> 'w"
  rep_commit :: "json \<Rightarrow> 'w \<Rightarrow> 'w"
  rep_now :: "'w \<Rightarrow> timestamp"

subsection \<open>Commands\<close>

text \<open>The maps of a command are \<^verbatim>\<open>BTreeMap\<close>s: entries in key order.\<close>

fun str_less :: "string \<Rightarrow> string \<Rightarrow> bool" where
  "str_less s [] = False"
| "str_less [] (c # cs) = True"
| "str_less (b # bs) (c # cs) = (byte b < byte c \<or> b = c \<and> str_less bs cs)"

fun btree_insert :: "string \<Rightarrow> 'v \<Rightarrow> (string \<times> 'v) list \<Rightarrow> (string \<times> 'v) list" where
  "btree_insert k v [] = [(k, v)]"
| "btree_insert k v ((k', v') # m) =
     (if k = k' then (k, v) # m
      else if str_less k k' then (k, v) # (k', v') # m
      else (k', v') # btree_insert k v m)"

record CommandSpec =
  cs_program :: string
  cs_args :: "string list"
  cs_current_dir :: "string option"
  cs_environment :: "(string \<times> string) list"
  cs_secret_environment :: "(string \<times> string) list"
  cs_timeout :: "duration option"
  cs_timeout_disabled :: bool
  cs_cancellation :: bool

definition command_new :: "string \<Rightarrow> CommandSpec" where
  "command_new program =
     \<lparr>cs_program = program, cs_args = [], cs_current_dir = None, cs_environment = [],
      cs_secret_environment = [], cs_timeout = None, cs_timeout_disabled = False, cs_cancellation = False\<rparr>"

definition arg :: "string \<Rightarrow> CommandSpec \<Rightarrow> CommandSpec" where
  "arg v c = c\<lparr>cs_args := cs_args c @ [v]\<rparr>"

definition args :: "string list \<Rightarrow> CommandSpec \<Rightarrow> CommandSpec" where
  "args vs c = fold arg vs c"

definition env :: "string \<Rightarrow> string \<Rightarrow> CommandSpec \<Rightarrow> CommandSpec" where
  "env k v c = c\<lparr>cs_environment := btree_insert k v (cs_environment c)\<rparr>"

definition secret_env :: "string \<Rightarrow> string \<Rightarrow> CommandSpec \<Rightarrow> CommandSpec" where
  "secret_env k v c = c\<lparr>cs_secret_environment := btree_insert k v (cs_secret_environment c)\<rparr>"

definition with_timeout :: "duration \<Rightarrow> CommandSpec \<Rightarrow> CommandSpec" where
  "with_timeout d c = c\<lparr>cs_timeout := Some d\<rparr>"

definition without_timeout :: "CommandSpec \<Rightarrow> CommandSpec" where
  "without_timeout c = c\<lparr>cs_timeout_disabled := True\<rparr>"

definition with_cancellation :: "CommandSpec \<Rightarrow> CommandSpec" where
  "with_cancellation c = c\<lparr>cs_cancellation := True\<rparr>"

record ProcessOutput =
  po_success :: bool
  po_code :: "int option"
  po_stdout :: string
  po_stderr :: string

datatype ProcessStream = Proc_Stdout | Proc_Stderr

type_synonym 'w sink = "ProcessStream \<Rightarrow> string \<Rightarrow> ('w, unit) async"
type_synonym 'w runner = "CommandSpec \<Rightarrow> 'w sink \<Rightarrow> ('w, ProcessOutput) async"

definition null_sink :: "'w sink" where
  "null_sink stream line = aret ()"

subsection \<open>Process output as deployment logs\<close>

fun log_stream_of :: "ProcessStream \<Rightarrow> LogStream" where
  "log_stream_of Proc_Stdout = Stdout"
| "log_stream_of Proc_Stderr = Stderr"

fun sink_frames :: "'w reporter \<Rightarrow> string \<Rightarrow> LogStream \<Rightarrow> string list \<Rightarrow> ('w, unit) async" where
  "sink_frames R phase stream [] w = (Ready (Inr ()), w)"
| "sink_frames R phase stream (f # fs) w =
     (let frame = trim_end f
      in if trim frame = [] then sink_frames R phase stream fs w
         else (case rep_log R \<lparr>log_stream = stream, log_message = ''['' @ phase @ ''] '' @ frame,
                  log_recorded_at = rep_now R w\<rparr> w of
                 (Ready (Inr _), w') \<Rightarrow> sink_frames R phase stream fs w'
               | (Ready (Inl _), w') \<Rightarrow> (Ready (Inr ()), w')
               | (Cut, w') \<Rightarrow> (Cut, w')))"

definition reporter_sink :: "'w reporter \<Rightarrow> string \<Rightarrow> 'w sink" where
  "reporter_sink R phase stream line = sink_frames R phase (log_stream_of stream) (split_on CHR 0x0D line)"

definition run_checked :: "'w runner \<Rightarrow> CommandSpec \<Rightarrow> string \<Rightarrow> 'w reporter \<Rightarrow> ('w, ProcessOutput) async" where
  "run_checked run command phase R =
     abind (run command (reporter_sink R phase)) (\<lambda>out.
       if po_success out then aret out else athrow (failed_process phase (po_code out) (po_stderr out)))"

subsection \<open>Running a process\<close>

definition MAX_CAPTURE_BYTES :: nat where "MAX_CAPTURE_BYTES = 1024 * 1024"

definition append_bounded :: "string \<Rightarrow> string \<Rightarrow> string" where
  "append_bounded captured line =
     (if MAX_CAPTURE_BYTES \<le> length captured then captured
      else
        let remaining = MAX_CAPTURE_BYTES - length captured;
            part = (if length line \<le> remaining then line else take (floor_boundary line remaining) line);
            captured' = captured @ part
        in if length captured' < MAX_CAPTURE_BYTES then captured' @ [CHR 0x0A] else captured')"

text \<open>
  The events \<^verbatim>\<open>select!\<close> can observe, in the order in which it takes them: a line, the end or a read
  error of one of the pipes, the exit of the child, the cancellation token, the deadline. An event
  whose branch is disabled at that moment is passed over. When the list ends the future is dropped.
\<close>

datatype proc_event =
    PCancelled
  | PDeadline
  | PLine ProcessStream "string + string option"
  | PWait "string + bool \<times> int option"

record child =
  ch_id :: "u32 option"
  ch_stdout :: bool
  ch_stderr :: bool
  ch_events :: "proc_event list"

text \<open>The state of one run: the pipes that are done, the captured text, the guard of the process group
  and the groups that were sent \<^verbatim>\<open>SIGKILL\<close>.\<close>

record proc_run =
  pr_stdout_done :: bool
  pr_stderr_done :: bool
  pr_stdout :: string
  pr_stderr :: string
  pr_guard :: "u32 option"
  pr_killed :: "u32 list"

definition proc_init :: "u32 option \<Rightarrow> proc_run" where
  "proc_init pid = \<lparr>pr_stdout_done = False, pr_stderr_done = False, pr_stdout = [], pr_stderr = [],
     pr_guard = pid, pr_killed = []\<rparr>"

definition guard_kill :: "proc_run \<Rightarrow> proc_run" where
  "guard_kill p =
     (case pr_guard p of
        None \<Rightarrow> p
      | Some pid \<Rightarrow> p\<lparr>pr_guard := None, pr_killed := (if unat pid < 2 ^ 31 then pr_killed p @ [pid] else pr_killed p)\<rparr>)"

definition guard_disarm :: "proc_run \<Rightarrow> proc_run" where
  "guard_disarm p = p\<lparr>pr_guard := None\<rparr>"

definition effective_timeout :: "duration \<Rightarrow> CommandSpec \<Rightarrow> duration option" where
  "effective_timeout default_timeout c =
     (if cs_timeout_disabled c then None
      else Some (case cs_timeout c of None \<Rightarrow> default_timeout | Some t \<Rightarrow> t))"

definition timeout_error :: "CommandSpec \<Rightarrow> duration option \<Rightarrow> RuntimeError" where
  "timeout_error c timeout = Timeout (cs_program c) (case timeout of None \<Rightarrow> 0 | Some t \<Rightarrow> as_secs t)"

fun stream_done :: "ProcessStream \<Rightarrow> proc_run \<Rightarrow> bool" where
  "stream_done Proc_Stdout p = pr_stdout_done p"
| "stream_done Proc_Stderr p = pr_stderr_done p"

fun finish_stream :: "ProcessStream \<Rightarrow> proc_run \<Rightarrow> proc_run" where
  "finish_stream Proc_Stdout p = p\<lparr>pr_stdout_done := True\<rparr>"
| "finish_stream Proc_Stderr p = p\<lparr>pr_stderr_done := True\<rparr>"

fun capture :: "ProcessStream \<Rightarrow> string \<Rightarrow> proc_run \<Rightarrow> proc_run" where
  "capture Proc_Stdout line p = p\<lparr>pr_stdout := append_bounded (pr_stdout p) line\<rparr>"
| "capture Proc_Stderr line p = p\<lparr>pr_stderr := append_bounded (pr_stderr p) line\<rparr>"

type_synonym 'w run_result = "(RuntimeError, ProcessOutput) fut \<times> proc_run \<times> 'w"

fun wait_child :: "CommandSpec \<Rightarrow> duration option \<Rightarrow> proc_event list \<Rightarrow> proc_run \<Rightarrow> 'w \<Rightarrow> 'w run_result" where
  "wait_child c timeout [] p w = (Cut, guard_kill p, w)"
| "wait_child c timeout (PCancelled # evs) p w =
     (if cs_cancellation c then (Ready (Inl Cancelled), guard_kill p, w) else wait_child c timeout evs p w)"
| "wait_child c timeout (PDeadline # evs) p w =
     (if timeout \<noteq> None then (Ready (Inl (timeout_error c timeout)), guard_kill p, w)
      else wait_child c timeout evs p w)"
| "wait_child c timeout (PLine s l # evs) p w = wait_child c timeout evs p w"
| "wait_child c timeout (PWait (Inl e) # evs) p w =
     (Ready (Inl (Dependency (''could not wait for '' @ cs_program c @ '': '' @ e))), guard_kill p, w)"
| "wait_child c timeout (PWait (Inr (success, code)) # evs) p w =
     (Ready (Inr \<lparr>po_success = success, po_code = code, po_stdout = pr_stdout p, po_stderr = pr_stderr p\<rparr>),
      guard_disarm p, w)"

fun read_loop :: "CommandSpec \<Rightarrow> duration option \<Rightarrow> 'w sink \<Rightarrow> proc_event list \<Rightarrow> proc_run \<Rightarrow> 'w \<Rightarrow> 'w run_result" where
  "read_loop c timeout sink [] p w = (Cut, guard_kill p, w)"
| "read_loop c timeout sink (ev # evs) p w =
     (if pr_stdout_done p \<and> pr_stderr_done p then wait_child c timeout (ev # evs) p w
      else (case ev of
          PCancelled \<Rightarrow>
            if cs_cancellation c then (Ready (Inl Cancelled), guard_kill p, w)
            else read_loop c timeout sink evs p w
        | PDeadline \<Rightarrow>
            if timeout \<noteq> None then (Ready (Inl (timeout_error c timeout)), guard_kill p, w)
            else read_loop c timeout sink evs p w
        | PWait _ \<Rightarrow> read_loop c timeout sink evs p w
        | PLine s l \<Rightarrow>
            if stream_done s p then read_loop c timeout sink evs p w
            else (case l of
                Inl e \<Rightarrow> (Ready (Inl (Filesystem e)), guard_kill p, w)
              | Inr None \<Rightarrow> read_loop c timeout sink evs (finish_stream s p) w
              | Inr (Some line) \<Rightarrow>
                  (case sink s line w of
                     (Ready (Inr _), w') \<Rightarrow> read_loop c timeout sink evs (capture s line p) w'
                   | (Ready (Inl e), w') \<Rightarrow> (Ready (Inl e), guard_kill p, w')
                   | (Cut, w') \<Rightarrow> (Cut, guard_kill p, w')))))"

definition run_child :: "duration \<Rightarrow> CommandSpec \<Rightarrow> 'w sink \<Rightarrow> child \<Rightarrow> 'w \<Rightarrow> 'w run_result" where
  "run_child default_timeout c sink ch w =
     (let p = proc_init (ch_id ch)
      in if \<not> ch_stdout ch then
           (Ready (Inl (Dependency (''could not capture '' @ cs_program c @ '' stdout''))), guard_kill p, w)
         else if \<not> ch_stderr ch then
           (Ready (Inl (Dependency (''could not capture '' @ cs_program c @ '' stderr''))), guard_kill p, w)
         else read_loop c (effective_timeout default_timeout c) sink (ch_events ch) p w)"

text \<open>What the operating system does with a command is a parameter: \<open>spawn\<close> starts it, \<open>killpg\<close> sends
  \<^verbatim>\<open>SIGKILL\<close> to a process group.\<close>

record 'w host =
  ho_spawn :: "CommandSpec \<Rightarrow> 'w \<Rightarrow> (string + child) \<times> 'w"
  ho_killpg :: "u32 \<Rightarrow> 'w \<Rightarrow> 'w"

definition tokio_run :: "'w host \<Rightarrow> duration \<Rightarrow> 'w runner" where
  "tokio_run H default_timeout c sink w =
     (case ho_spawn H c w of
        (Inl e, w') \<Rightarrow> (Ready (Inl (Dependency (''could not start '' @ cs_program c @ '': '' @ e))), w')
      | (Inr ch, w') \<Rightarrow>
          (case run_child default_timeout c sink ch w' of
             (r, p, w'') \<Rightarrow> (r, fold (ho_killpg H) (pr_killed p) w'')))"

subsection \<open>What a run guarantees\<close>

lemma append_bounded_length:
  "length captured \<le> MAX_CAPTURE_BYTES \<Longrightarrow> length (append_bounded captured line) \<le> MAX_CAPTURE_BYTES"
  using floor_boundary_le [of line "MAX_CAPTURE_BYTES - length captured"]
  by (auto simp: append_bounded_def Let_def min_def)

text \<open>Reporting a line never fails: a rejected line is dropped and the process goes on.\<close>

lemma reporter_sink_never_fails:
  "fst (reporter_sink R phase s line w) \<noteq> Ready (Inl e)"
proof -
  have "fst (sink_frames R phase st fs w) \<noteq> Ready (Inl e)" for st fs
    by (induction R phase st fs w rule: sink_frames.induct) (auto simp: Let_def split: prod.splits fut.splits sum.splits)
  then show ?thesis by (simp add: reporter_sink_def)
qed

definition run_bounded :: "proc_run \<Rightarrow> bool" where
  "run_bounded p \<longleftrightarrow> length (pr_stdout p) \<le> MAX_CAPTURE_BYTES \<and> length (pr_stderr p) \<le> MAX_CAPTURE_BYTES"

lemma run_bounded_steps [simp]:
  "run_bounded p \<Longrightarrow> run_bounded (capture s line p)"
  "run_bounded p \<Longrightarrow> run_bounded (finish_stream s p)"
  by (cases s; simp add: run_bounded_def append_bounded_length)+

lemma capture_guard [simp]:
  "pr_guard (capture s line p) = pr_guard p" "pr_killed (capture s line p) = pr_killed p"
  "pr_guard (finish_stream s p) = pr_guard p" "pr_killed (finish_stream s p) = pr_killed p"
  by (cases s; simp)+

definition output_of :: "bool \<Rightarrow> int option \<Rightarrow> proc_run \<Rightarrow> ProcessOutput" where
  "output_of success code p = \<lparr>po_success = success, po_code = code, po_stdout = pr_stdout p, po_stderr = pr_stderr p\<rparr>"

text \<open>Every run ends in one of three ways: dropped or failed, with the group killed, or with the exit
  status of the child, with the guard disarmed. A property of the exits and an invariant of the
  captured state give the property of the run.\<close>

lemma wait_child_exit:
  assumes "\<And>w. Q (Cut, guard_kill p, w)" "\<And>e w. Q (Ready (Inl e), guard_kill p, w)"
    and "\<And>success code w. Q (Ready (Inr (output_of success code p)), guard_disarm p, w)"
  shows "Q (wait_child c timeout evs p w)"
  using assms by (induction c timeout evs p w rule: wait_child.induct) (simp_all add: output_of_def)

lemma read_loop_exit:
  assumes exits: "\<And>p w. I p \<Longrightarrow> Q (Cut, guard_kill p, w)" "\<And>p e w. I p \<Longrightarrow> Q (Ready (Inl e), guard_kill p, w)"
      "\<And>p success code w. I p \<Longrightarrow> Q (Ready (Inr (output_of success code p)), guard_disarm p, w)"
    and keep: "\<And>p s line. I p \<Longrightarrow> I (capture s line p)" "\<And>p s. I p \<Longrightarrow> I (finish_stream s p)"
  shows "I p \<Longrightarrow> Q (read_loop c timeout sink evs p w)"
proof (induction evs arbitrary: p w)
  case Nil
  then show ?case by (simp add: exits)
next
  case (Cons ev evs)
  have wait: "Q (wait_child c timeout es p w)" for es
    by (rule wait_child_exit) (rule exits [OF Cons.prems])+
  show ?case
  proof (cases ev)
    case (PLine s l)
    consider e where "l = Inl e" | "l = Inr None" | line where "l = Inr (Some line)" by (metis option.exhaust sum.exhaust)
    then show ?thesis
    proof cases
      case (3 line)
      show ?thesis
        by (cases "sink s line w" rule: fut_cases) (use PLine Cons 3 exits keep wait in simp_all)
    qed (use PLine Cons exits keep wait in simp_all)
  next
    case PDeadline
    with Cons exits wait show ?thesis by (cases timeout) simp_all
  qed (use Cons exits wait in simp_all)
qed

fun output_bounded :: "'w run_result \<Rightarrow> bool" where
  "output_bounded (Ready (Inr out), p, w) \<longleftrightarrow>
     length (po_stdout out) \<le> MAX_CAPTURE_BYTES \<and> length (po_stderr out) \<le> MAX_CAPTURE_BYTES"
| "output_bounded r = True"

fun group_settled :: "u32 \<Rightarrow> 'w run_result \<Rightarrow> bool" where
  "group_settled pid (Ready (Inr out), p, w) \<longleftrightarrow> pr_guard p = None \<and> pr_killed p = []"
| "group_settled pid (r, p, w) \<longleftrightarrow> pr_guard p = None \<and> pr_killed p = [pid]"

lemma run_child_exit:
  assumes "\<And>p w. I p \<Longrightarrow> Q (Cut, guard_kill p, w)" "\<And>p e w. I p \<Longrightarrow> Q (Ready (Inl e), guard_kill p, w)"
      "\<And>p success code w. I p \<Longrightarrow> Q (Ready (Inr (output_of success code p)), guard_disarm p, w)"
    and "\<And>p s line. I p \<Longrightarrow> I (capture s line p)" "\<And>p s. I p \<Longrightarrow> I (finish_stream s p)"
    and "I (proc_init (ch_id ch))"
  shows "Q (run_child default_timeout c sink ch w)"
  using assms by (simp add: run_child_def Let_def read_loop_exit [of I Q])

text \<open>Whatever a process prints, at most one mebibyte of each of its streams is kept.\<close>

theorem captured_output_bounded:
  "output_bounded (run_child default_timeout c sink ch w)"
proof (rule run_child_exit [of run_bounded])
  show "run_bounded (proc_init (ch_id ch))" by (simp add: run_bounded_def proc_init_def)
qed (simp_all, simp add: run_bounded_def output_of_def)

text \<open>C24: a process whose run does not end with its own exit status (a timeout, a cancellation, a read
  error, a failed sink, a dropped future) has its whole process group killed, exactly once; a process
  that exited is never signalled. A process id is a positive \<^verbatim>\<open>i32\<close> on every supported system.\<close>

theorem process_group_never_leaks:
  assumes "ch_id ch = Some pid" "unat pid < 2 ^ 31"
  shows "group_settled pid (run_child default_timeout c sink ch w)"
  by (rule run_child_exit [of "\<lambda>p. pr_guard p = Some pid \<and> pr_killed p = []"])
    (use assms in \<open>simp_all add: guard_kill_def guard_disarm_def proc_init_def\<close>)

definition hanging_child :: child where
  "hanging_child = \<lparr>ch_id = Some 42, ch_stdout = True, ch_stderr = True,
     ch_events = [PLine Proc_Stdout (Inr (Some ''building'')), PLine Proc_Stderr (Inr None), PDeadline]\<rparr>"

theorem process_group_never_leaks_witness:
  "group_settled 42 (run_child (from_secs 120) (command_new ''docker'') null_sink hanging_child ())
   \<and> run_child (from_secs 120) (command_new ''docker'') null_sink hanging_child () =
       (Ready (Inl (Timeout ''docker'' 120)),
        \<lparr>pr_stdout_done = False, pr_stderr_done = True, pr_stdout = ''building'' @ [CHR 0x0A], pr_stderr = [],
         pr_guard = None, pr_killed = [42]\<rparr>, ())"
proof -
  have "group_settled 42 (run_child (from_secs 120) (command_new ''docker'') null_sink hanging_child ())"
    by (rule process_group_never_leaks) (simp_all add: hanging_child_def)
  then show ?thesis
    by (simp add: run_child_def hanging_child_def proc_init_def null_sink_def command_new_def effective_timeout_def
        timeout_error_def guard_kill_def append_bounded_def MAX_CAPTURE_BYTES_def Let_def)
qed

end
