(* ===== verification/Routing.thy ===== *)
theory Routing
  imports Runtime_Process "HOL-Library.AList"
begin

text \<open>
  The Caddy routes of the node: \<^verbatim>\<open>routing/mod.rs\<close>, \<^verbatim>\<open>routing/caddy_file.rs\<close> and
  \<^verbatim>\<open>routing/docker_exec.rs\<close> of \<^verbatim>\<open>sakala-agent-runtime\<close>.

  The sites directory is a list of named entries in the order \<^verbatim>\<open>read_dir\<close> gives them. Every file
  operation is one step of an I/O clock, and \<open>re_io\<close> says of each step whether it works, fails, or is
  cut because the future that awaits it is dropped. A failed write may leave anything in the file it
  writes; a cut operation may still be carried out, since \<^verbatim>\<open>tokio::fs\<close> runs it on another thread. The
  text form of a UUID belongs to the \<^verbatim>\<open>uuid\<close> crate and is a parameter. Docker runs beside the directory
  in \<open>rw_env\<close>. The \<^verbatim>\<open>mutation_lock\<close> makes two operations of one manager exclude each other, so each is
  modelled alone.
\<close>

record RouteIdentity =
  rid_project_id :: uuid
  rid_deployment_id :: "uuid option"

record RouteSpec =
  rs_project_id :: uuid
  rs_deployment_id :: uuid
  rs_domain :: string
  rs_upstream :: string
  rs_port :: u16

subsection \<open>The sites directory\<close>

text \<open>A symbolic link stands for the content of its target; a dangling one has none.\<close>

datatype node = File string | Symlink "string option" | Directory

type_synonym dir = "(string \<times> node) list"

datatype io_error = NotFound | Other_Io string

datatype io_fault = Io_Ok | Io_Fail string "string option" | Io_Cut bool

record 'x route_world =
  rw_dir :: "dir option"
  rw_io :: nat
  rw_env :: 'x

record route_env =
  re_sites_dir :: string
  re_uuid_str :: "uuid \<Rightarrow> string"
  re_uuid_parse :: "string \<Rightarrow> uuid option"
  re_io :: "nat \<Rightarrow> io_fault"

type_synonym ('x, 'a) io = "'x route_world \<Rightarrow> (io_error, 'a) fut \<times> 'x route_world"

text \<open>One step: what the operation does when it works, and how a failed one may leave the directory.\<close>

definition io_step :: "route_env \<Rightarrow> (dir option \<Rightarrow> io_error + 'a \<times> dir option) \<Rightarrow> (string \<Rightarrow> dir option \<Rightarrow> dir option)
    \<Rightarrow> ('x, 'a) io" where
  "io_step E work spoil w =
     (let w' = w\<lparr>rw_io := Suc (rw_io w)\<rparr>
      in case re_io E (rw_io w) of
           Io_Ok \<Rightarrow>
             (case work (rw_dir w) of
                Inl e \<Rightarrow> (Ready (Inl e), w')
              | Inr (x, d) \<Rightarrow> (Ready (Inr x), w'\<lparr>rw_dir := d\<rparr>))
         | Io_Fail e left \<Rightarrow>
             (Ready (Inl (Other_Io e)),
              (case left of None \<Rightarrow> w' | Some c \<Rightarrow> w'\<lparr>rw_dir := spoil c (rw_dir w)\<rparr>))
         | Io_Cut carried_out \<Rightarrow>
             (Cut, (case work (rw_dir w) of
                      Inr (x, d) \<Rightarrow> if carried_out then w'\<lparr>rw_dir := d\<rparr> else w'
                    | Inl e \<Rightarrow> w')))"

definition no_spoil :: "string \<Rightarrow> dir option \<Rightarrow> dir option" where
  "no_spoil c d = d"

fun node_content :: "node \<Rightarrow> io_error + string" where
  "node_content (File c) = Inr c"
| "node_content (Symlink (Some c)) = Inr c"
| "node_content (Symlink None) = Inl NotFound"
| "node_content Directory = Inl (Other_Io ''Is a directory (os error 21)'')"

definition lookup_content :: "string \<Rightarrow> dir option \<Rightarrow> io_error + string" where
  "lookup_content name d =
     (case d of
        None \<Rightarrow> Inl NotFound
      | Some es \<Rightarrow> (case map_of es name of None \<Rightarrow> Inl NotFound | Some n \<Rightarrow> node_content n))"

definition dir_remove :: "string \<Rightarrow> dir \<Rightarrow> dir" where
  "dir_remove name es = filter (\<lambda>(n, _). n \<noteq> name) es"

fun written :: "node option \<Rightarrow> string \<Rightarrow> io_error + node" where
  "written None c = Inr (File c)"
| "written (Some (File _)) c = Inr (File c)"
| "written (Some (Symlink _)) c = Inr (Symlink (Some c))"
| "written (Some Directory) c = Inl (Other_Io ''Is a directory (os error 21)'')"

definition do_write :: "string \<Rightarrow> string \<Rightarrow> dir option \<Rightarrow> io_error + unit \<times> dir option" where
  "do_write name c d =
     (case d of
        None \<Rightarrow> Inl NotFound
      | Some es \<Rightarrow>
          (case written (map_of es name) c of
             Inl e \<Rightarrow> Inl e
           | Inr n \<Rightarrow> Inr ((), Some (AList.update name n es))))"

definition spoil_write :: "string \<Rightarrow> string \<Rightarrow> dir option \<Rightarrow> dir option" where
  "spoil_write name c d = (case do_write name c d of Inr (_, d') \<Rightarrow> d' | Inl _ \<Rightarrow> d)"

definition do_rename :: "string \<Rightarrow> string \<Rightarrow> dir option \<Rightarrow> io_error + unit \<times> dir option" where
  "do_rename a b d =
     (case d of
        None \<Rightarrow> Inl NotFound
      | Some es \<Rightarrow>
          (case map_of es a of
             None \<Rightarrow> Inl NotFound
           | Some n \<Rightarrow>
               if map_of es b = Some Directory then Inl (Other_Io ''Is a directory (os error 21)'')
               else Inr ((), Some (AList.update b n (dir_remove a es)))))"

definition do_remove :: "string \<Rightarrow> dir option \<Rightarrow> io_error + unit \<times> dir option" where
  "do_remove name d =
     (case d of
        None \<Rightarrow> Inl NotFound
      | Some es \<Rightarrow>
          (case map_of es name of
             None \<Rightarrow> Inl NotFound
           | Some Directory \<Rightarrow> Inl (Other_Io ''Is a directory (os error 21)'')
           | Some _ \<Rightarrow> Inr ((), Some (dir_remove name es))))"

definition fs_read :: "route_env \<Rightarrow> string \<Rightarrow> ('x, string) io" where
  "fs_read E name =
     io_step E (\<lambda>d. case lookup_content name d of Inl e \<Rightarrow> Inl e | Inr c \<Rightarrow> Inr (c, d)) no_spoil"

definition fs_write :: "route_env \<Rightarrow> string \<Rightarrow> string \<Rightarrow> ('x, unit) io" where
  "fs_write E name c = io_step E (do_write name c) (spoil_write name)"

definition fs_rename :: "route_env \<Rightarrow> string \<Rightarrow> string \<Rightarrow> ('x, unit) io" where
  "fs_rename E a b = io_step E (do_rename a b) no_spoil"

definition fs_remove_file :: "route_env \<Rightarrow> string \<Rightarrow> ('x, unit) io" where
  "fs_remove_file E name = io_step E (do_remove name) no_spoil"

definition fs_create_dir_all :: "route_env \<Rightarrow> ('x, unit) io" where
  "fs_create_dir_all E =
     io_step E (\<lambda>d. Inr ((), Some (case d of None \<Rightarrow> [] | Some es \<Rightarrow> es))) no_spoil"

definition fs_read_dir :: "route_env \<Rightarrow> ('x, dir) io" where
  "fs_read_dir E = io_step E (\<lambda>d. case d of None \<Rightarrow> Inl NotFound | Some es \<Rightarrow> Inr (es, d)) no_spoil"

text \<open>A step that only observes: \<^verbatim>\<open>next_entry\<close> and \<^verbatim>\<open>file_type\<close>.\<close>

definition fs_observe :: "route_env \<Rightarrow> ('x, unit) io" where
  "fs_observe E = io_step E (\<lambda>d. Inr ((), d)) no_spoil"

text \<open>\<^verbatim>\<open>From<std::io::Error>\<close>, and the three ways the code awaits an I/O operation: \<^verbatim>\<open>?\<close>, and a match
  that takes \<^verbatim>\<open>NotFound\<close> apart.\<close>

fun io_text :: "io_error \<Rightarrow> string" where
  "io_text NotFound = ''No such file or directory (os error 2)''"
| "io_text (Other_Io e) = e"

definition io_try :: "('x, 'a) io \<Rightarrow> ('x route_world, 'a) async" where
  "io_try m w =
     (case m w of
        (Ready (Inr x), w') \<Rightarrow> (Ready (Inr x), w')
      | (Ready (Inl e), w') \<Rightarrow> (Ready (Inl (Filesystem (io_text e))), w')
      | (Cut, w') \<Rightarrow> (Cut, w'))"

definition io_found :: "('x, 'a) io \<Rightarrow> ('x route_world, 'a option) async" where
  "io_found m w =
     (case m w of
        (Ready (Inr x), w') \<Rightarrow> (Ready (Inr (Some x)), w')
      | (Ready (Inl NotFound), w') \<Rightarrow> (Ready (Inr None), w')
      | (Ready (Inl e), w') \<Rightarrow> (Ready (Inl (Filesystem (io_text e))), w')
      | (Cut, w') \<Rightarrow> (Cut, w'))"

text \<open>Docker does not touch the sites directory.\<close>

definition in_env :: "('x, 'a) async \<Rightarrow> ('x route_world, 'a) async" where
  "in_env m w = (case m (rw_env w) of (r, x) \<Rightarrow> (r, w\<lparr>rw_env := x\<rparr>))"

subsection \<open>Reloading Caddy\<close>

record 'x reloader =
  rl_validate_and_reload :: "('x, unit) async"
  rl_reload_after_rollback :: "('x, unit) async"

definition caddy_command :: "string \<Rightarrow> string \<Rightarrow> CommandSpec" where
  "caddy_command container action =
     args [''exec'', container, ''caddy'', action, ''--config'', ''/etc/caddy/Caddyfile'', ''--adapter'', ''caddyfile'']
       (command_new ''docker'')"

definition docker_exec_reloader :: "'x runner \<Rightarrow> string \<Rightarrow> 'x reporter \<Rightarrow> 'x reloader" where
  "docker_exec_reloader run container R =
     \<lparr>rl_validate_and_reload =
        abind (run_checked run (caddy_command container ''validate'') ''caddy-validate'' R) (\<lambda>_.
        abind (run_checked run (caddy_command container ''reload'') ''caddy-reload'' R) (\<lambda>_. aret ())),
      rl_reload_after_rollback =
        abind (atry (run (caddy_command container ''reload'') null_sink)) (\<lambda>_. aret ())\<rparr>"

subsection \<open>Route files\<close>

definition MANAGED_ROUTE_PREFIX :: string where
  "MANAGED_ROUTE_PREFIX = ''# Managed by sakala-agent for project ''"

record RouteSnapshot =
  sn_name :: string
  sn_previous :: "string option"
  sn_changed :: bool

definition route_file :: "route_env \<Rightarrow> uuid \<Rightarrow> string" where
  "route_file E project = re_uuid_str E project @ ''.Caddyfile''"

definition temporary_file :: "route_env \<Rightarrow> uuid \<Rightarrow> string" where
  "temporary_file E project = ''.'' @ re_uuid_str E project @ ''.Caddyfile.tmp''"

definition route_path :: "route_env \<Rightarrow> string \<Rightarrow> string" where
  "route_path E name = re_sites_dir E @ ''/'' @ name"

definition owned_prefix :: "route_env \<Rightarrow> uuid \<Rightarrow> string" where
  "owned_prefix E project = MANAGED_ROUTE_PREFIX @ re_uuid_str E project"

definition legacy_prefix :: "route_env \<Rightarrow> uuid \<Rightarrow> string" where
  "legacy_prefix E project = owned_prefix E project @ ''.''"

definition current_prefix :: "route_env \<Rightarrow> uuid \<Rightarrow> string" where
  "current_prefix E project = owned_prefix E project @ '' deployment ''"

definition expected_prefix :: "route_env \<Rightarrow> uuid \<Rightarrow> uuid \<Rightarrow> string" where
  "expected_prefix E project deployment = current_prefix E project @ re_uuid_str E deployment @ ''.''"

definition route_content :: "route_env \<Rightarrow> RouteSpec \<Rightarrow> string" where
  "route_content E r =
     expected_prefix E (rs_project_id r) (rs_deployment_id r) @ [CHR 0x0A]
     @ rs_domain r @ '':80 {'' @ [CHR 0x0A]
     @ [CHR 0x09] @ ''reverse_proxy '' @ rs_upstream r @ '':'' @ show_word (rs_port r) @ [CHR 0x0A]
     @ ''}'' @ [CHR 0x0A]"

definition write_route :: "route_env \<Rightarrow> RouteSpec \<Rightarrow> ('x route_world, RouteSnapshot) async" where
  "write_route E r =
     abind (io_try (fs_create_dir_all E)) (\<lambda>_.
     abind (io_found (fs_read E (route_file E (rs_project_id r)))) (\<lambda>previous.
     abind (io_try (fs_write E (temporary_file E (rs_project_id r)) (route_content E r))) (\<lambda>_.
     abind (io_try (fs_rename E (temporary_file E (rs_project_id r)) (route_file E (rs_project_id r)))) (\<lambda>_.
     aret \<lparr>sn_name = route_file E (rs_project_id r), sn_previous = previous, sn_changed = True\<rparr>))))"

definition restore :: "route_env \<Rightarrow> RouteSnapshot \<Rightarrow> ('x route_world, unit) async" where
  "restore E s =
     (case sn_previous s of
        Some content \<Rightarrow> io_try (fs_write E (sn_name s) content)
      | None \<Rightarrow> abind (io_found (fs_remove_file E (sn_name s))) (\<lambda>_. aret ()))"

definition not_owned :: "route_env \<Rightarrow> string \<Rightarrow> RuntimeError" where
  "not_owned E name =
     Routing (''refusing to delete route '' @ route_path E name @ '' because it is not owned by Sakala'')"

definition remove_route :: "route_env \<Rightarrow> RouteIdentity \<Rightarrow> ('x route_world, RouteSnapshot) async" where
  "remove_route E i =
     (let project = rid_project_id i; name = route_file E project
      in abind (io_found (fs_read E name)) (\<lambda>previous.
         case previous of
           None \<Rightarrow> aret \<lparr>sn_name = name, sn_previous = None, sn_changed = False\<rparr>
         | Some content \<Rightarrow>
             if \<not> starts_with content (legacy_prefix E project) \<and> \<not> starts_with content (current_prefix E project)
             then athrow (not_owned E name)
             else
               let matches = (case rid_deployment_id i of
                     Some deployment \<Rightarrow> starts_with content (expected_prefix E project deployment)
                   | None \<Rightarrow> starts_with content (legacy_prefix E project))
               in if \<not> matches then aret \<lparr>sn_name = name, sn_previous = previous, sn_changed = False\<rparr>
                  else abind (io_try (fs_remove_file E name)) (\<lambda>_.
                       aret \<lparr>sn_name = name, sn_previous = previous, sn_changed = True\<rparr>)))"

text \<open>Validate and reload after a change; when that fails, put the file back and reload once more.\<close>

definition reload_or_restore :: "route_env \<Rightarrow> 'x reloader \<Rightarrow> RouteSnapshot \<Rightarrow> ('x route_world, unit) async" where
  "reload_or_restore E L s =
     abind (atry (in_env (rl_validate_and_reload L))) (\<lambda>r.
       case r of
         Inr _ \<Rightarrow> aret ()
       | Inl error \<Rightarrow>
           abind (restore E s) (\<lambda>_.
           abind (in_env (rl_reload_after_rollback L)) (\<lambda>_. athrow error)))"

definition activate :: "route_env \<Rightarrow> 'x reloader \<Rightarrow> RouteSpec \<Rightarrow> ('x route_world, unit) async" where
  "activate E L r = abind (write_route E r) (reload_or_restore E L)"

definition deactivate :: "route_env \<Rightarrow> 'x reloader \<Rightarrow> RouteIdentity \<Rightarrow> ('x route_world, bool) async" where
  "deactivate E L i =
     abind (remove_route E i) (\<lambda>s.
       if \<not> sn_changed s then aret False
       else abind (reload_or_restore E L s) (\<lambda>_. aret True))"

subsection \<open>Stale routes\<close>

text \<open>The deployment a route file names in its first line.\<close>

definition route_deployment :: "route_env \<Rightarrow> uuid \<Rightarrow> string \<Rightarrow> uuid option" where
  "route_deployment E project content =
     (case lines content of
        [] \<Rightarrow> None
      | line # _ \<Rightarrow>
          (case strip_prefix line (current_prefix E project) of
             None \<Rightarrow> None
           | Some v \<Rightarrow> (case strip_suffix v ''.'' of None \<Rightarrow> None | Some u \<Rightarrow> re_uuid_parse E u)))"

definition known_route :: "RouteIdentity list \<Rightarrow> uuid \<Rightarrow> uuid option \<Rightarrow> bool" where
  "known_route known project deployment =
     (case deployment of
        Some d \<Rightarrow> list_ex (\<lambda>i. i = \<lparr>rid_project_id = project, rid_deployment_id = Some d\<rparr>) known
      | None \<Rightarrow> list_ex (\<lambda>i. rid_project_id i = project) known)"

definition project_of_name :: "route_env \<Rightarrow> string \<Rightarrow> uuid option" where
  "project_of_name E name =
     (if \<not> utf8_valid name then None
      else (case strip_suffix name ''.Caddyfile'' of None \<Rightarrow> None | Some s \<Rightarrow> re_uuid_parse E s))"

definition read_to_string :: "route_env \<Rightarrow> string \<Rightarrow> ('x route_world, string) async" where
  "read_to_string E name =
     abind (io_try (fs_read E name)) (\<lambda>c.
       if utf8_valid c then aret c else athrow (Filesystem ''stream did not contain valid UTF-8''))"

fun is_file :: "node \<Rightarrow> bool" where
  "is_file (File _) = True"
| "is_file _ = False"

fun discover_entries :: "route_env \<Rightarrow> RouteIdentity list \<Rightarrow> dir \<Rightarrow> RuntimeStaleRoute list
    \<Rightarrow> ('x route_world, RuntimeStaleRoute list) async" where
  "discover_entries E known [] stale = abind (io_try (fs_observe E)) (\<lambda>_. aret stale)"
| "discover_entries E known ((name, n) # es) stale =
     abind (io_try (fs_observe E)) (\<lambda>_.
     abind (io_try (fs_observe E)) (\<lambda>_.
       if \<not> is_file n then discover_entries E known es stale
       else (case project_of_name E name of
           None \<Rightarrow> discover_entries E known es stale
         | Some project \<Rightarrow>
             abind (read_to_string E name) (\<lambda>content.
               if \<not> starts_with content (owned_prefix E project) then discover_entries E known es stale
               else
                 let deployment = route_deployment E project content
                 in if known_route known project deployment then discover_entries E known es stale
                    else discover_entries E known es
                      (stale @ [\<lparr>sr_path = route_path E name, sr_project_id = project,
                        sr_deployment_id = deployment\<rparr>])))))"

definition discover_stale_routes :: "route_env \<Rightarrow> RouteIdentity list \<Rightarrow> ('x route_world, RuntimeStaleRoute list) async" where
  "discover_stale_routes E known =
     abind (io_found (fs_read_dir E)) (\<lambda>entries.
       case entries of None \<Rightarrow> aret [] | Some es \<Rightarrow> discover_entries E known es [])"

fun cleanup_routes :: "route_env \<Rightarrow> 'x reloader \<Rightarrow> RuntimeStaleRoute list \<Rightarrow> nat \<Rightarrow> ('x route_world, nat) async" where
  "cleanup_routes E L [] cleaned = aret cleaned"
| "cleanup_routes E L (s # ss) cleaned =
     abind (deactivate E L \<lparr>rid_project_id = sr_project_id s, rid_deployment_id = sr_deployment_id s\<rparr>) (\<lambda>removed.
       cleanup_routes E L ss (if removed then cleaned + 1 else cleaned))"

definition cleanup_stale_routes :: "route_env \<Rightarrow> 'x reloader \<Rightarrow> RouteIdentity list \<Rightarrow> ('x route_world, nat) async" where
  "cleanup_stale_routes E L known =
     abind (discover_stale_routes E known) (\<lambda>stale. cleanup_routes E L stale 0)"

subsection \<open>What the file operations change\<close>

definition reads :: "'x route_world \<Rightarrow> string \<Rightarrow> io_error + string" where
  "reads w name = lookup_content name (rw_dir w)"

lemma map_of_dir_remove [simp]: "map_of (dir_remove name es) n = (if n = name then None else map_of es n)"
  by (induction es) (auto simp: dir_remove_def)

lemma written_content: "written n c = Inr n' \<Longrightarrow> node_content n' = Inr c"
  by (cases "(n, c)" rule: written.cases) auto

lemma do_write_reads:
  assumes "do_write name c d = Inr (u, d')"
  shows "lookup_content n d' = (if n = name then Inr c else lookup_content n d)"
  using assms
  by (auto simp: do_write_def lookup_content_def update_conv' written_content split: option.splits sum.splits)

lemma spoil_write_reads: "n \<noteq> name \<Longrightarrow> lookup_content n (spoil_write name c d) = lookup_content n d"
  by (cases "do_write name c d") (auto simp: spoil_write_def do_write_reads)

lemma do_rename_reads:
  assumes "do_rename a b d = Inr (u, d')" "a \<noteq> b"
  shows "lookup_content n d' =
    (if n = b then lookup_content a d else if n = a then Inl NotFound else lookup_content n d)"
  using assms by (auto simp: do_rename_def lookup_content_def update_conv' split: option.splits if_splits)

lemma do_remove_reads:
  assumes "do_remove name d = Inr (u, d')"
  shows "lookup_content n d' = (if n = name then Inl NotFound else lookup_content n d)"
  using assms by (auto simp: do_remove_def lookup_content_def split: option.splits node.splits)

lemma io_step_outcome:
  assumes "io_step E work spoil w = (r, w')"
  shows "rw_env w' = rw_env w"
    and "r = Ready (Inr x) \<Longrightarrow> work (rw_dir w) = Inr (x, rw_dir w')"
    and "r = Ready (Inl e) \<Longrightarrow> rw_dir w' = rw_dir w \<or> (\<exists>c. rw_dir w' = spoil c (rw_dir w))"
    and "r = Cut \<Longrightarrow> rw_dir w' = rw_dir w \<or> (\<exists>x. work (rw_dir w) = Inr (x, rw_dir w'))"
    and "(\<And>n. re_io E n = Io_Ok) \<Longrightarrow> r \<noteq> Cut"
    and "r = Ready (Inl e) \<Longrightarrow> (\<And>n. re_io E n = Io_Ok) \<Longrightarrow> work (rw_dir w) = Inl e \<and> rw_dir w' = rw_dir w"
  using assms by (auto simp: io_step_def Let_def split: io_fault.splits sum.splits prod.splits option.splits if_splits)

text \<open>What each operation does to what reading the directory gives, for any behaviour of the file
  system: its effect, or a failure that leaves things as they were (a write may leave anything in its
  own file), or a cut with either.\<close>

lemma io_step_not_found:
  "io_step E work spoil w = (Ready (Inl NotFound), w') \<Longrightarrow> work (rw_dir w) = Inl NotFound \<and> rw_dir w' = rw_dir w"
  by (auto simp: io_step_def Let_def split: io_fault.splits sum.splits prod.splits option.splits if_splits)

lemma wp_io_try:
  assumes "\<And>x w'. work (rw_dir w) = Inr (x, rw_dir w') \<Longrightarrow> Q (Ready (Inr x)) w'"
    and "\<And>e w'. rw_dir w' = rw_dir w \<or> (\<exists>c. rw_dir w' = spoil c (rw_dir w)) \<Longrightarrow> Q (Ready (Inl e)) w'"
    and "\<And>w'. rw_dir w' = rw_dir w \<or> (\<exists>x. work (rw_dir w) = Inr (x, rw_dir w')) \<Longrightarrow> Q Cut w'"
  shows "wp (io_try (io_step E work spoil)) Q w"
proof (cases "io_step E work spoil w" rule: fut_cases)
  case (ok x w')
  then show ?thesis using assms(1) [OF io_step_outcome(2) [OF ok refl]] by (simp add: wp_def io_try_def)
next
  case (err e w')
  then show ?thesis using assms(2) [OF io_step_outcome(3) [OF err refl]] by (simp add: wp_def io_try_def)
next
  case (cut w')
  then show ?thesis using assms(3) [OF io_step_outcome(4) [OF cut refl]] by (simp add: wp_def io_try_def)
qed

lemma wp_io_found:
  assumes "wp (io_try m) (\<lambda>r. Q (case r of Ready (Inr x) \<Rightarrow> Ready (Inr (Some x)) | Ready (Inl e) \<Rightarrow> Ready (Inl e) | Cut \<Rightarrow> Cut)) w"
    and "\<And>w'. m w = (Ready (Inl NotFound), w') \<Longrightarrow> Q (Ready (Inr None)) w'"
  shows "wp (io_found m) Q w"
proof (cases "m w" rule: fut_cases)
  case (err e w')
  with assms show ?thesis by (cases e) (simp_all add: wp_def io_try_def io_found_def)
qed (use assms in \<open>simp_all add: wp_def io_try_def io_found_def\<close>)

lemma reads_same: "rw_dir w' = rw_dir w \<Longrightarrow> reads w' = reads w"
  by (rule ext) (simp add: reads_def)

lemma wp_create [wp_intro]:
  assumes "\<And>u w'. reads w' = reads w \<Longrightarrow> Q (Ready (Inr u)) w'" "\<And>e w'. reads w' = reads w \<Longrightarrow> Q (Ready (Inl e)) w'"
    "\<And>w'. reads w' = reads w \<Longrightarrow> Q Cut w'"
  shows "wp (io_try (fs_create_dir_all E)) Q w"
proof -
  have *: "lookup_content n (Some (case d of None \<Rightarrow> [] | Some es \<Rightarrow> es)) = lookup_content n d" for n d
    by (simp add: lookup_content_def split: option.splits)
  have r: "reads w' = reads w" if "Some (case rw_dir w of None \<Rightarrow> [] | Some es \<Rightarrow> es) = rw_dir w'" for w' :: "'a route_world"
    by (rule ext) (simp only: reads_def that [symmetric] *)
  show ?thesis unfolding fs_create_dir_all_def
    by (rule wp_io_try; rule assms) (auto simp: no_spoil_def intro: r reads_same)
qed

lemma wp_observe [wp_intro]:
  assumes "\<And>u w'. reads w' = reads w \<Longrightarrow> Q (Ready (Inr u)) w'" "\<And>e w'. reads w' = reads w \<Longrightarrow> Q (Ready (Inl e)) w'"
    "\<And>w'. reads w' = reads w \<Longrightarrow> Q Cut w'"
  shows "wp (io_try (fs_observe E)) Q w"
  unfolding fs_observe_def
  by (rule wp_io_try; rule assms) (auto simp: no_spoil_def intro!: reads_same)

lemma wp_read [wp_intro]:
  assumes "\<And>c w'. reads w' = reads w \<Longrightarrow> reads w n = Inr c \<Longrightarrow> Q (Ready (Inr c)) w'"
    "\<And>e w'. reads w' = reads w \<Longrightarrow> Q (Ready (Inl e)) w'" "\<And>w'. reads w' = reads w \<Longrightarrow> Q Cut w'"
  shows "wp (io_try (fs_read E n)) Q w"
  unfolding fs_read_def
  by (rule wp_io_try; rule assms) (auto simp: no_spoil_def reads_def split: sum.splits)

definition found :: "string option \<Rightarrow> io_error + string" where
  "found x = (case x of None \<Rightarrow> Inl NotFound | Some c \<Rightarrow> Inr c)"

lemma wp_find [wp_intro]:
  assumes "\<And>x w'. reads w' = reads w \<Longrightarrow> reads w n = found x \<Longrightarrow> Q (Ready (Inr x)) w'"
    "\<And>e w'. reads w' = reads w \<Longrightarrow> Q (Ready (Inl e)) w'" "\<And>w'. reads w' = reads w \<Longrightarrow> Q Cut w'"
  shows "wp (io_found (fs_read E n)) Q w"
proof (rule wp_io_found)
  show "Q (Ready (Inr None)) w'" if "fs_read E n w = (Ready (Inl NotFound), w')" for w'
    using io_step_not_found [OF that [unfolded fs_read_def]]
    by (intro assms(1)) (auto simp: reads_def found_def split: sum.splits)
next
  show "wp (io_try (fs_read E n)) (\<lambda>r. Q (case r of Ready (Inr x) \<Rightarrow> Ready (Inr (Some x)) | Ready (Inl e) \<Rightarrow> Ready (Inl e)
      | Cut \<Rightarrow> Cut)) w"
    by (rule wp_read) (auto simp: found_def intro: assms)
qed

lemma do_write_view: "do_write n c (rw_dir w) = Inr (u, rw_dir w') \<Longrightarrow> reads w' = (reads w)(n := Inr c)"
  by (rule ext) (auto simp: reads_def do_write_reads)

lemma wp_write [wp_intro]:
  assumes "\<And>u w'. reads w' = (reads w)(n := Inr c) \<Longrightarrow> Q (Ready (Inr u)) w'"
    "\<And>e w'. reads w' = reads w \<or> (\<exists>c'. reads w' = (reads w)(n := Inr c')) \<Longrightarrow> Q (Ready (Inl e)) w'"
    "\<And>w'. reads w' = reads w \<or> reads w' = (reads w)(n := Inr c) \<Longrightarrow> Q Cut w'"
  shows "wp (io_try (fs_write E n c)) Q w"
proof -
  have spoil: "reads w' = reads w \<or> (\<exists>c'. reads w' = (reads w)(n := Inr c'))"
    if "rw_dir w' = rw_dir w \<or> (\<exists>c'. rw_dir w' = spoil_write n c' (rw_dir w))" for w'
    using that
  proof (elim disjE exE)
    fix c' assume s: "rw_dir w' = spoil_write n c' (rw_dir w)"
    show ?thesis
    proof (cases "do_write n c' (rw_dir w)")
      case (Inr p)
      then have "do_write n c' (rw_dir w) = Inr (fst p, rw_dir w')" using s by (cases p) (simp add: spoil_write_def)
      then show ?thesis using do_write_view by blast
    qed (use s reads_same [of w' w] in \<open>simp add: spoil_write_def\<close>)
  qed (blast intro: reads_same)
  show ?thesis unfolding fs_write_def
    by (rule wp_io_try; rule assms) (rule do_write_view, assumption, rule spoil, assumption, blast intro: reads_same do_write_view)
qed

lemma wp_rename [wp_intro]:
  assumes ne: "a \<noteq> b" and "\<And>u w'. reads w' = (reads w)(b := reads w a, a := Inl NotFound) \<Longrightarrow> Q (Ready (Inr u)) w'"
    "\<And>e w'. reads w' = reads w \<Longrightarrow> Q (Ready (Inl e)) w'"
    "\<And>w'. reads w' = reads w \<or> reads w' = (reads w)(b := reads w a, a := Inl NotFound) \<Longrightarrow> Q Cut w'"
  shows "wp (io_try (fs_rename E a b)) Q w"
proof -
  have v: "reads w' = (reads w)(b := reads w a, a := Inl NotFound)"
    if "do_rename a b (rw_dir w) = Inr (u, rw_dir w')" for w' u
    using do_rename_reads [OF that ne] ne by (intro ext) (auto simp: reads_def)
  show ?thesis unfolding fs_rename_def
    by (rule wp_io_try; rule assms) (auto simp: no_spoil_def dest: v reads_same)
qed

lemma wp_remove:
  assumes "\<And>u w'. reads w' = (reads w)(n := Inl NotFound) \<Longrightarrow> rw_dir w' \<noteq> None \<Longrightarrow> Q (Ready (Inr u)) w'"
    "\<And>e w'. reads w' = reads w \<Longrightarrow> Q (Ready (Inl e)) w'"
    "\<And>w'. reads w' = reads w \<or> reads w' = (reads w)(n := Inl NotFound) \<Longrightarrow> Q Cut w'"
  shows "wp (io_try (fs_remove_file E n)) Q w"
proof -
  have v: "reads w' = (reads w)(n := Inl NotFound)" if "do_remove n (rw_dir w) = Inr (u, rw_dir w')" for w' u
    using do_remove_reads [OF that] by (intro ext) (auto simp: reads_def)
  have d: "d' \<noteq> None" if "do_remove n d = Inr (u, d')" for d d' u
    using that by (auto simp: do_remove_def split: option.splits node.splits)
  show ?thesis unfolding fs_remove_file_def
    by (rule wp_io_try; rule assms) (auto simp: no_spoil_def dest: v d reads_same)
qed

lemma wp_in_env [wp_intro]:
  assumes "\<And>x w'. reads w' = reads w \<Longrightarrow> Q (Ready (Inr x)) w'" "\<And>e w'. reads w' = reads w \<Longrightarrow> Q (Ready (Inl e)) w'"
    "\<And>w'. reads w' = reads w \<Longrightarrow> Q Cut w'"
  shows "wp (in_env m) Q w"
  by (rule wp_outcomes) (auto simp: in_env_def split: prod.splits intro!: assms reads_same)

lemma wp_find_remove:
  assumes "\<And>u w'. reads w' = (reads w)(n := Inl NotFound) \<Longrightarrow> Q (Ready (Inr u)) w'"
    "\<And>e w'. reads w' = reads w \<Longrightarrow> Q (Ready (Inl e)) w'"
    "\<And>w'. reads w' = reads w \<or> reads w' = (reads w)(n := Inl NotFound) \<Longrightarrow> Q Cut w'"
  shows "wp (io_found (fs_remove_file E n)) Q w"
proof (rule wp_io_found)
  show "Q (Ready (Inr None)) w'" if "fs_remove_file E n w = (Ready (Inl NotFound), w')" for w'
  proof (rule assms(1))
    from io_step_not_found [OF that [unfolded fs_remove_file_def]]
    have d: "do_remove n (rw_dir w) = Inl NotFound" "rw_dir w' = rw_dir w" by auto
    then have "reads w n = Inl NotFound"
      by (auto simp: reads_def do_remove_def lookup_content_def split: option.splits node.splits)
    then show "reads w' = (reads w)(n := Inl NotFound)" using reads_same [OF d(2)] by auto
  qed
next
  show "wp (io_try (fs_remove_file E n)) (\<lambda>r. Q (case r of Ready (Inr x) \<Rightarrow> Ready (Inr (Some x)) | Ready (Inl e) \<Rightarrow> Ready (Inl e)
      | Cut \<Rightarrow> Cut)) w"
    by (rule wp_remove) (auto intro: assms)
qed

subsection \<open>Activation\<close>

lemma temporary_not_route [simp]: "temporary_file E p \<noteq> route_file E p" "route_file E p \<noteq> temporary_file E p"
  by (auto simp: temporary_file_def route_file_def dest: arg_cong [of _ _ length])

text \<open>The route file of a project while its route is replaced: what it was or what it becomes, and every
  other file of the directory, the temporary one apart, as it was.\<close>

definition replaced :: "route_env \<Rightarrow> RouteSpec \<Rightarrow> (string \<Rightarrow> io_error + string) \<Rightarrow> (string \<Rightarrow> io_error + string) \<Rightarrow> bool" where
  "replaced E r v0 v \<longleftrightarrow>
     v (route_file E (rs_project_id r)) \<in> {v0 (route_file E (rs_project_id r)), Inr (route_content E r)}
     \<and> (\<forall>n. n \<noteq> route_file E (rs_project_id r) \<and> n \<noteq> temporary_file E (rs_project_id r) \<longrightarrow> v n = v0 n)"

fun written_post :: "route_env \<Rightarrow> RouteSpec \<Rightarrow> (string \<Rightarrow> io_error + string) \<Rightarrow> (RuntimeError, RouteSnapshot) fut
    \<Rightarrow> 'x route_world \<Rightarrow> bool" where
  "written_post E r v0 (Ready (Inr s)) w \<longleftrightarrow>
     replaced E r v0 (reads w) \<and> reads w (route_file E (rs_project_id r)) = Inr (route_content E r)
     \<and> sn_name s = route_file E (rs_project_id r) \<and> v0 (route_file E (rs_project_id r)) = found (sn_previous s)"
| "written_post E r v0 (Ready (Inl _)) w \<longleftrightarrow>
     replaced E r v0 (reads w) \<and> reads w (route_file E (rs_project_id r)) = v0 (route_file E (rs_project_id r))"
| "written_post E r v0 Cut w \<longleftrightarrow> replaced E r v0 (reads w)"

lemma wp_write_route: "wp (write_route E r) (written_post E r (reads w)) w"
  unfolding write_route_def
  by (auto intro!: wp_intro simp: replaced_def)

text \<open>Replacing a route is atomic. Whatever the file system does, whichever operation fails or is cut,
  the route file of the project reads exactly as before or exactly as the new route, never a part of
  one, and no other route is touched; when the operation succeeds it is the new route, and the snapshot
  holds the previous content; when it fails it is what it was before.\<close>

theorem write_route_atomic:
  "case write_route E r w of
     (Ready (Inr s), w') \<Rightarrow>
        reads w' (route_file E (rs_project_id r)) = Inr (route_content E r)
        \<and> reads w (route_file E (rs_project_id r)) = found (sn_previous s)
        \<and> replaced E r (reads w) (reads w')
   | (Ready (Inl e), w') \<Rightarrow>
        reads w' (route_file E (rs_project_id r)) = reads w (route_file E (rs_project_id r))
        \<and> replaced E r (reads w) (reads w')
   | (Cut, w') \<Rightarrow> replaced E r (reads w) (reads w')"
  using wp_write_route [of E r w] by (cases "write_route E r w" rule: fut_cases) (auto simp: wp_def)

text \<open>The same for the removal of a route: a file that does not belong to the identity is left alone.\<close>

definition owned_by :: "route_env \<Rightarrow> RouteIdentity \<Rightarrow> string \<Rightarrow> bool" where
  "owned_by E i content =
     (case rid_deployment_id i of
        Some d \<Rightarrow> starts_with content (expected_prefix E (rid_project_id i) d)
      | None \<Rightarrow> starts_with content (legacy_prefix E (rid_project_id i)))"

definition removable :: "route_env \<Rightarrow> RouteIdentity \<Rightarrow> (string \<Rightarrow> io_error + string) \<Rightarrow> bool" where
  "removable E i v \<longleftrightarrow> (\<exists>c. v (route_file E (rid_project_id i)) = Inr c \<and> owned_by E i c)"

fun removed_post :: "route_env \<Rightarrow> RouteIdentity \<Rightarrow> (string \<Rightarrow> io_error + string) \<Rightarrow> (RuntimeError, RouteSnapshot) fut
    \<Rightarrow> 'x route_world \<Rightarrow> bool" where
  "removed_post E i v0 (Ready (Inr s)) w \<longleftrightarrow>
     (if sn_changed s then
        removable E i v0 \<and> reads w = v0(route_file E (rid_project_id i) := Inl NotFound) \<and> rw_dir w \<noteq> None
        \<and> sn_name s = route_file E (rid_project_id i) \<and> v0 (route_file E (rid_project_id i)) = found (sn_previous s)
      else reads w = v0)"
| "removed_post E i v0 _ w \<longleftrightarrow>
     reads w = v0 \<or> removable E i v0 \<and> reads w = v0(route_file E (rid_project_id i) := Inl NotFound)"

lemma wp_remove_route: "wp (remove_route E i) (removed_post E i (reads w)) w"
  unfolding remove_route_def Let_def
  by (auto intro!: wp_find wp_remove simp: removable_def owned_by_def found_def split: option.splits)

text \<open>Restoring a snapshot touches its own file only; when the file system works it brings back what was there.\<close>

lemma wp_restore:
  assumes "\<And>x w'. (\<forall>n. n \<noteq> sn_name s \<longrightarrow> reads w' n = reads w n) \<Longrightarrow> Q (Ready (Inr x)) w'"
    "\<And>e w'. (\<forall>n. n \<noteq> sn_name s \<longrightarrow> reads w' n = reads w n) \<Longrightarrow> Q (Ready (Inl e)) w'"
    "\<And>w'. (\<forall>n. n \<noteq> sn_name s \<longrightarrow> reads w' n = reads w n) \<Longrightarrow> Q Cut w'"
  shows "wp (restore E s) Q w"
  unfolding restore_def
  by (auto intro!: wp_write wp_find_remove assms split: option.splits)

lemma io_step_works:
  assumes "\<And>n. re_io E n = Io_Ok"
  shows "io_step E work spoil w =
    (case work (rw_dir w) of
       Inl e \<Rightarrow> (Ready (Inl e), w\<lparr>rw_io := Suc (rw_io w)\<rparr>)
     | Inr (x, d) \<Rightarrow> (Ready (Inr x), w\<lparr>rw_io := Suc (rw_io w), rw_dir := d\<rparr>))"
  by (simp add: io_step_def assms split: sum.splits prod.splits)

lemma restore_works:
  assumes works: "\<And>n. re_io E n = Io_Ok" and d: "rw_dir w = Some es" and x: "reads w (sn_name s) = found x"
  obtains w' where "restore E s w = (Ready (Inr ()), w')" "reads w' = (reads w)(sn_name s := found (sn_previous s))"
proof (cases "sn_previous s")
  case None
  have "wp (io_found (fs_remove_file E (sn_name s))) (\<lambda>r w'. \<exists>u. r = Ready (Inr u) \<and> reads w' = (reads w)(sn_name s := Inl NotFound)) w"
  proof (cases "map_of es (sn_name s)")
    case None
    with d x show ?thesis
      by (auto simp: wp_def io_found_def fs_remove_file_def io_step_works [OF works] do_remove_def reads_def lookup_content_def)
  next
    case (Some n)
    with d x have "n \<noteq> Directory" by (auto simp: reads_def lookup_content_def found_def split: option.splits)
    with Some d have "do_remove (sn_name s) (rw_dir w) = Inr ((), Some (dir_remove (sn_name s) es))"
      by (cases n) (auto simp: do_remove_def)
    then show ?thesis
      by (auto simp: wp_def io_found_def fs_remove_file_def io_step_works [OF works] reads_def do_remove_reads fun_eq_iff)
  qed
  with None that show ?thesis
    by (auto simp: wp_def restore_def abind_def found_def split: prod.splits)
next
  case (Some c)
  have "\<exists>d'. do_write (sn_name s) c (rw_dir w) = Inr ((), d')"
    using d x by (auto simp: do_write_def reads_def lookup_content_def found_def split: option.splits sum.splits elim: written.elims)
  then obtain d' where w: "do_write (sn_name s) c (rw_dir w) = Inr ((), d')" by blast
  with Some that show ?thesis
    by (auto simp: restore_def io_try_def fs_write_def io_step_works [OF works] found_def reads_def do_write_reads fun_eq_iff)
qed

lemma in_env_dir:
  "in_env m w = (r, w') \<Longrightarrow> rw_dir w' = rw_dir w"
  by (auto simp: in_env_def split: prod.splits)

text \<open>After a change, reloading Caddy either works and keeps the change, or fails and takes it back.\<close>

fun settled :: "string \<Rightarrow> (string \<Rightarrow> io_error + string) \<Rightarrow> (string \<Rightarrow> io_error + string) \<Rightarrow> (RuntimeError, 'a) fut
    \<Rightarrow> 'x route_world \<Rightarrow> bool" where
  "settled f changed old (Ready (Inr _)) w \<longleftrightarrow> reads w = changed"
| "settled f changed old (Ready (Inl _)) w \<longleftrightarrow> reads w = changed(f := old f)"
| "settled f changed old Cut w \<longleftrightarrow> reads w \<in> {changed, changed(f := old f)}"

lemma wp_reload_or_restore:
  assumes works: "\<And>n. re_io E n = Io_Ok" and d: "rw_dir w \<noteq> None" and x: "reads w (sn_name s) = found x"
    and old: "old (sn_name s) = found (sn_previous s)"
  shows "wp (reload_or_restore E L s) (settled (sn_name s) (reads w) old) w"
proof -
  from d obtain es where es: "rw_dir w = Some es" by auto
  show ?thesis
  proof (cases "in_env (rl_validate_and_reload L) w" rule: fut_cases)
    case (ok u w')
    with reads_same [OF in_env_dir [OF ok]] show ?thesis by (simp add: reload_or_restore_def wp_def)
  next
    case (cut w')
    with reads_same [OF in_env_dir [OF cut]] show ?thesis by (simp add: reload_or_restore_def wp_def)
  next
    case (err e w1)
    note same = in_env_dir [OF err] reads_same [OF in_env_dir [OF err]]
    obtain w2 where w2: "restore E s w1 = (Ready (Inr ()), w2)" "reads w2 = (reads w1)(sn_name s := found (sn_previous s))"
      by (rule restore_works [OF works, of w1 es s x]) (use es x same in auto)
    show ?thesis
    proof (cases "in_env (rl_reload_after_rollback L) w2" rule: fut_cases)
      case (ok u w3)
      with err w2 same old reads_same [OF in_env_dir [OF ok]] show ?thesis
        by (simp add: reload_or_restore_def wp_def)
    next
      case (err e' w3)
      with \<open>in_env (rl_validate_and_reload L) w = _\<close> w2 same old reads_same [OF in_env_dir [OF err]] show ?thesis
        by (simp add: reload_or_restore_def wp_def)
    next
      case (cut w3)
      with err w2 same old reads_same [OF in_env_dir [OF cut]] show ?thesis
        by (simp add: reload_or_restore_def wp_def)
    qed
  qed
qed

text \<open>What an activation leaves behind, by its outcome.\<close>

fun activated_post :: "route_env \<Rightarrow> RouteSpec \<Rightarrow> (string \<Rightarrow> io_error + string) \<Rightarrow> (RuntimeError, unit) fut
    \<Rightarrow> 'x route_world \<Rightarrow> bool" where
  "activated_post E r v0 (Ready (Inr _)) w \<longleftrightarrow>
     replaced E r v0 (reads w) \<and> reads w (route_file E (rs_project_id r)) = Inr (route_content E r)"
| "activated_post E r v0 (Ready (Inl _)) w \<longleftrightarrow>
     replaced E r v0 (reads w) \<and> reads w (route_file E (rs_project_id r)) = v0 (route_file E (rs_project_id r))"
| "activated_post E r v0 Cut w \<longleftrightarrow> replaced E r v0 (reads w)"

lemma activate_settles:
  assumes "\<And>n. re_io E n = Io_Ok"
  shows "case activate E L r w of (outcome, w') \<Rightarrow> activated_post E r (reads w) outcome w'"
proof -
  let ?f = "route_file E (rs_project_id r)"
  show ?thesis
  proof (cases "write_route E r w" rule: fut_cases)
    case (ok s w1)
    with wp_write_route [of E r w] have w1: "replaced E r (reads w) (reads w1)" "reads w1 ?f = Inr (route_content E r)"
        "sn_name s = ?f" "reads w ?f = found (sn_previous s)"
      by (simp_all add: wp_def)
    have "wp (reload_or_restore E L s) (settled (sn_name s) (reads w1) (reads w)) w1"
      by (rule wp_reload_or_restore [OF assms, where x = "Some (route_content E r)"])
        (use w1 in \<open>auto simp: reads_def lookup_content_def found_def split: option.splits\<close>)
    with ok w1 show ?thesis
      by (cases "reload_or_restore E L s w1" rule: fut_cases) (auto simp: activate_def wp_def replaced_def)
  qed (use wp_write_route [of E r w] in \<open>auto simp: activate_def wp_def\<close>)
qed

text \<open>As long as the file system works, activating a route is all or nothing whatever Caddy does: it
  succeeds and the project's file is the new route, or it fails (Caddy rejects the configuration or
  cannot be reloaded) and the project's file is byte for byte what it was, or absent if it was absent;
  the files of other projects never change.\<close>

theorem activate_all_or_nothing:
  assumes "\<And>n. re_io E n = Io_Ok"
  shows "case activate E L r w of (outcome, w') \<Rightarrow> activated_post E r (reads w) outcome w'"
  using assms by (rule activate_settles)

lemma activate_interrupted:
  assumes "write_route E r w = (Ready (Inr s), w1)" "rl_validate_and_reload L (rw_env w1) = (Cut, x)"
  shows "activate E L r w = (Cut, w1\<lparr>rw_env := x\<rparr>)"
    and "reads (w1\<lparr>rw_env := x\<rparr>) (route_file E (rs_project_id r)) = Inr (route_content E r)"
proof -
  have "in_env (rl_validate_and_reload L) w1 = (Cut, w1\<lparr>rw_env := x\<rparr>)" using assms(2) by (simp add: in_env_def)
  with assms(1) show "activate E L r w = (Cut, w1\<lparr>rw_env := x\<rparr>)" by (simp add: activate_def reload_or_restore_def)
  show "reads (w1\<lparr>rw_env := x\<rparr>) (route_file E (rs_project_id r)) = Inr (route_content E r)"
    using wp_write_route [of E r w] assms(1) by (simp add: wp_def reads_def)
qed

text \<open>An activation whose future is dropped while Caddy is being reloaded leaves the new route in
  place: nothing takes it back, although it was never reported as active. This is what cancelling a
  deployment at that moment does, and the candidate container the route names is removed next.\<close>

theorem interrupted_activation_keeps_route:
  assumes "write_route E r w = (Ready (Inr s), w1)" "rl_validate_and_reload L (rw_env w1) = (Cut, x)"
  shows "case activate E L r w of (outcome, w') \<Rightarrow>
     outcome = Cut \<and> reads w' (route_file E (rs_project_id r)) = Inr (route_content E r)"
  using activate_interrupted [OF assms] by simp

subsection \<open>Deactivation\<close>

fun deactivated_post :: "route_env \<Rightarrow> RouteIdentity \<Rightarrow> (string \<Rightarrow> io_error + string) \<Rightarrow> (RuntimeError, 'a) fut
    \<Rightarrow> 'x route_world \<Rightarrow> bool" where
  "deactivated_post E i v0 outcome w \<longleftrightarrow>
     (\<forall>n. n \<noteq> route_file E (rid_project_id i) \<longrightarrow> reads w n = v0 n)
     \<and> (reads w = v0 \<or> removable E i v0)"

lemma wp_deactivate: "wp (deactivate E L i) (deactivated_post E i (reads w)) w"
proof (cases "remove_route E i w" rule: fut_cases)
  case (ok s w1)
  with wp_remove_route [of E i w] have post: "removed_post E i (reads w) (Ready (Inr s)) w1" by (simp add: wp_def)
  show ?thesis
  proof (cases "sn_changed s")
    case True
    have "wp (reload_or_restore E L s) (\<lambda>_ w'. \<forall>n. n \<noteq> sn_name s \<longrightarrow> reads w' n = reads w1 n) w1"
      unfolding reload_or_restore_def
      by (auto intro!: wp_in_env wp_restore)
    with ok True post show ?thesis
      by (cases "reload_or_restore E L s w1" rule: fut_cases) (auto simp: deactivate_def wp_def)
  qed (use ok post in \<open>auto simp: deactivate_def wp_def\<close>)
qed (use wp_remove_route [of E i w] in \<open>auto simp: deactivate_def wp_def\<close>)

text \<open>C19: whatever the file system and Caddy do, deactivating a route touches no file but the route file of
  the project, and that one only when it is owned by Sakala and names exactly the deployment asked for
  (or is a route of the old format when no deployment is given). A route that already belongs to a newer
  deployment, and a file somebody else wrote, are left as they are.\<close>

theorem deactivate_only_owned:
  "case deactivate E L i w of (outcome, w') \<Rightarrow>
     (\<forall>n. n = route_file E (rid_project_id i) \<or> reads w' n = reads w n)
     \<and> (reads w' = reads w \<or>
        (\<exists>content. reads w (route_file E (rid_project_id i)) = Inr content \<and> owned_by E i content))"
  using wp_deactivate [of E L i w] by (auto simp: wp_def removable_def split: prod.splits)

subsection \<open>Stale routes\<close>

text \<open>What is relied on of the \<^verbatim>\<open>uuid\<close> crate: the hyphenated text of a UUID has 36 characters, all of
  them hexadecimal digits or hyphens, and is parsed back to it.\<close>

definition uuid_text_ok :: "route_env \<Rightarrow> bool" where
  "uuid_text_ok E \<longleftrightarrow>
     (\<forall>u. length (re_uuid_str E u) = 36 \<and> list_all (\<lambda>c. is_ascii_hexdigit c \<or> c = CHR ''-'') (re_uuid_str E u)
        \<and> re_uuid_parse E (re_uuid_str E u) = Some u)"

lemma uuid_str_inject: "uuid_text_ok E \<Longrightarrow> re_uuid_str E u = re_uuid_str E v \<longleftrightarrow> u = v"
  unfolding uuid_text_ok_def by (metis option.inject)

lemma expected_prefix_unique:
  assumes "uuid_text_ok E" "starts_with c (expected_prefix E p d)" "starts_with c (expected_prefix E p d')"
  shows "d = d'"
proof -
  from assms(2,3) obtain t t' where "expected_prefix E p d @ t = expected_prefix E p d' @ t'" by (auto simp: starts_with_iff)
  moreover have "length (re_uuid_str E d) = length (re_uuid_str E d')" using assms(1) by (simp add: uuid_text_ok_def)
  ultimately have "re_uuid_str E d = re_uuid_str E d'" by (simp add: expected_prefix_def)
  then show ?thesis using uuid_str_inject [OF assms(1)] by simp
qed

lemma legacy_not_current: "starts_with c (legacy_prefix E p) \<Longrightarrow> \<not> starts_with c (expected_prefix E p d)"
  by (auto simp: starts_with_iff legacy_prefix_def expected_prefix_def current_prefix_def)

lemma owned_by_expected:
  assumes "uuid_text_ok E" "starts_with c (expected_prefix E p d)" "owned_by E i c" "rid_project_id i = p"
  shows "rid_deployment_id i = Some d"
proof (cases "rid_deployment_id i")
  case None
  with assms(2-4) legacy_not_current show ?thesis by (simp add: owned_by_def)
next
  case (Some d')
  with assms(3,4) have "starts_with c (expected_prefix E p d')" by (simp add: owned_by_def)
  from expected_prefix_unique [OF assms(1,2) this] Some show ?thesis by simp
qed

lemma wp_read_to_string:
  assumes "\<And>c w'. reads w' = reads w \<Longrightarrow> Q (Ready (Inr c)) w'" "\<And>e w'. reads w' = reads w \<Longrightarrow> Q (Ready (Inl e)) w'"
    "\<And>w'. reads w' = reads w \<Longrightarrow> Q Cut w'"
  shows "wp (read_to_string E n) Q w"
  unfolding read_to_string_def using assms by (auto intro!: wp_read)

text \<open>Discovery changes nothing and reports no route that is known.\<close>

fun discovered_post :: "RouteIdentity list \<Rightarrow> (string \<Rightarrow> io_error + string) \<Rightarrow> (RuntimeError, RuntimeStaleRoute list) fut
    \<Rightarrow> 'x route_world \<Rightarrow> bool" where
  "discovered_post known v0 (Ready (Inr stale)) w \<longleftrightarrow>
     reads w = v0 \<and> (\<forall>s\<in>set stale. \<not> known_route known (sr_project_id s) (sr_deployment_id s))"
| "discovered_post known v0 _ w \<longleftrightarrow> reads w = v0"

lemma wp_discover_entries:
  assumes "\<forall>s\<in>set stale. \<not> known_route known (sr_project_id s) (sr_deployment_id s)" "reads w = v0"
  shows "wp (discover_entries E known es stale) (discovered_post known v0) w"
  using assms
proof (induction es arbitrary: stale w)
  case Nil
  then show ?case by (auto intro!: wp_observe)
next
  case (Cons entry es)
  then show ?case
    by (cases entry) (auto intro!: wp_observe wp_read_to_string Cons.IH simp: Let_def split: option.splits)
qed

lemma wp_discover: "wp (discover_stale_routes E known) (discovered_post known (reads w)) w"
proof -
  have "wp (io_found (fs_read_dir E)) (\<lambda>r w'. reads w' = reads w) w"
    unfolding fs_read_dir_def
    by (rule wp_io_found [OF wp_io_try])
      (auto simp: no_spoil_def dest!: io_step_not_found intro!: reads_same split: option.splits)
  then show ?thesis
    unfolding discover_stale_routes_def wp_abind
    by (rule wp_mono, intro wp_then_cases) (auto intro: wp_discover_entries split: option.splits)
qed

text \<open>Cleaning up keeps the file of a route that no entry of the list names.\<close>

lemma cleanup_routes_keep:
  assumes "uuid_text_ok E" "starts_with c (expected_prefix E p d)"
    and "\<forall>s\<in>set stale. sr_project_id s = p \<longrightarrow> sr_deployment_id s \<noteq> Some d" "reads w (route_file E p) = Inr c"
  shows "wp (cleanup_routes E L stale cleaned) (\<lambda>_ w'. reads w' (route_file E p) = Inr c) w"
  using assms(3,4)
proof (induction stale arbitrary: cleaned w)
  case (Cons s stale)
  let ?i = "\<lparr>rid_project_id = sr_project_id s, rid_deployment_id = sr_deployment_id s\<rparr>"
  have keep: "reads w' (route_file E p) = Inr c" if "deactivated_post E ?i (reads w) r w'" for r :: "(RuntimeError, bool) fut" and w'
  proof (cases "sr_project_id s = p")
    case True
    with that Cons.prems owned_by_expected [OF assms(1,2), of ?i] show ?thesis by (auto simp: removable_def)
  next
    case False
    then have "route_file E p \<noteq> route_file E (sr_project_id s)"
      using uuid_str_inject [OF assms(1)] by (simp add: route_file_def)
    with that Cons.prems show ?thesis by simp
  qed
  have "wp (deactivate E L ?i) (\<lambda>_ w'. reads w' (route_file E p) = Inr c) w"
    by (rule wp_mono [OF wp_deactivate]) (rule keep)
  then show ?case
    unfolding cleanup_routes.simps wp_abind
    by (rule wp_mono, intro wp_then_cases) (use Cons in auto)
qed simp

lemma cleanup_stale_keeps:
  assumes "uuid_text_ok E" "\<lparr>rid_project_id = p, rid_deployment_id = Some d\<rparr> \<in> set known"
    and "reads w (route_file E p) = Inr c" "starts_with c (expected_prefix E p d)"
  shows "reads (snd (cleanup_stale_routes E L known w)) (route_file E p) = Inr c"
proof (cases "discover_stale_routes E known w" rule: fut_cases)
  case (ok stale w1)
  with wp_discover [of E known w] have w1: "reads w1 = reads w" "\<forall>s\<in>set stale. \<not> known_route known (sr_project_id s) (sr_deployment_id s)"
    by (simp_all add: wp_def)
  have "wp (cleanup_routes E L stale 0) (\<lambda>_ w'. reads w' (route_file E p) = Inr c) w1"
    by (rule cleanup_routes_keep [OF assms(1,4)])
      (use w1 assms(2,3) in \<open>auto simp: known_route_def list_ex_iff\<close>)
  with ok show ?thesis by (simp add: cleanup_stale_routes_def wp_def split: prod.splits)
qed (use wp_discover [of E known w] assms in \<open>auto simp: cleanup_stale_routes_def wp_def\<close>)

text \<open>Cleaning up stale routes never removes or changes the route of a known workload: a route file
  that names a deployment the runtime still knows reads the same afterwards, whatever else lies in the
  directory and whatever fails or is cut on the way.\<close>

theorem cleanup_keeps_known_routes:
  assumes "uuid_text_ok E" "\<lparr>rid_project_id = p, rid_deployment_id = Some d\<rparr> \<in> set known"
    and "reads w (route_file E p) = Inr c" "starts_with c (expected_prefix E p d)"
  shows "reads (snd (cleanup_stale_routes E L known w)) (route_file E p) = Inr c"
  using assms by (rule cleanup_stale_keeps)

lemma lines_first:
  assumes "CHR 0x0A \<notin> set l" "l = [] \<or> last l \<noteq> CHR 0x0D"
  shows "lines (l @ CHR 0x0A # rest) = l # lines rest"
  using assms by (auto simp: lines_def Let_def split_on_append_sep strip_cr_def)

text \<open>What is written is what is read back: the first line of a route file the agent writes yields the
  deployment the route belongs to, the file counts as owned by Sakala for that project and deployment,
  and for no other deployment.\<close>

theorem route_file_roundtrip:
  assumes "uuid_text_ok E"
  shows "route_deployment E (rs_project_id r) (route_content E r) = Some (rs_deployment_id r)
    \<and> starts_with (route_content E r) (owned_prefix E (rs_project_id r))
    \<and> (owned_by E i (route_content E r) \<and> rid_project_id i = rs_project_id r
        \<longleftrightarrow> i = \<lparr>rid_project_id = rs_project_id r, rid_deployment_id = Some (rs_deployment_id r)\<rparr>)"
proof (intro conjI)
  let ?l = "expected_prefix E (rs_project_id r) (rs_deployment_id r)"
  have u: "CHR 0x0A \<notin> set (re_uuid_str E v)" for v
    using assms by (fastforce simp: uuid_text_ok_def list_all_iff is_ascii_hexdigit_def is_ascii_digit_def)
  have start: "starts_with (route_content E r) ?l" unfolding route_content_def by (rule starts_with_append)
  have "CHR 0x0A \<notin> set ?l" using u
    by (simp add: expected_prefix_def current_prefix_def owned_prefix_def MANAGED_ROUTE_PREFIX_def)
  moreover have "last ?l \<noteq> CHR 0x0D" by (simp add: expected_prefix_def)
  moreover have "\<exists>rest. route_content E r = ?l @ CHR 0x0A # rest" by (simp add: route_content_def)
  ultimately have "\<exists>rest. lines (route_content E r) = ?l # rest" using lines_first by metis
  then show "route_deployment E (rs_project_id r) (route_content E r) = Some (rs_deployment_id r)"
    using assms by (auto simp: route_deployment_def expected_prefix_def uuid_text_ok_def)
  show "starts_with (route_content E r) (owned_prefix E (rs_project_id r))"
    unfolding route_content_def expected_prefix_def current_prefix_def append_assoc by (rule starts_with_append)
  show "owned_by E i (route_content E r) \<and> rid_project_id i = rs_project_id r
      \<longleftrightarrow> i = \<lparr>rid_project_id = rs_project_id r, rid_deployment_id = Some (rs_deployment_id r)\<rparr>"
    using owned_by_expected [OF assms start, of i] start by (auto simp: owned_by_def)
qed

subsection \<open>Concrete runs\<close>

text \<open>The hyphenated form of a UUID.\<close>

definition hex_char :: "nat \<Rightarrow> char" where
  "hex_char d = (if d < 10 then char_of (48 + d) else char_of (87 + d))"

definition hex_val :: "char \<Rightarrow> nat" where
  "hex_val c = (if byte c < 58 then byte c - 48 else byte c - 87)"

fun hexd :: "nat \<Rightarrow> nat \<Rightarrow> string" where
  "hexd 0 n = []"
| "hexd (Suc k) n = hexd k (n div 16) @ [hex_char (n mod 16)]"

definition unhex :: "string \<Rightarrow> nat" where
  "unhex s = foldl (\<lambda>a c. a * 16 + hex_val c) 0 s"

definition uuid_hyphenated :: "uuid \<Rightarrow> string" where
  "uuid_hyphenated u =
     (let h = hexd 32 (unat u)
      in take 8 h @ ''-'' @ take 4 (drop 8 h) @ ''-'' @ take 4 (drop 12 h) @ ''-'' @ take 4 (drop 16 h) @ ''-'' @ drop 20 h)"

definition uuid_parse :: "string \<Rightarrow> uuid option" where
  "uuid_parse s =
     (if length s = 36 \<and> list_all (\<lambda>c. is_ascii_hexdigit c \<or> c = CHR ''-'') s
      then Some (of_nat (unhex (filter (\<lambda>c. c \<noteq> CHR ''-'') s))) else None)"

lemma hex_char_props:
  assumes "d < 16"
  shows "hex_val (hex_char d) = d" "is_ascii_hexdigit (hex_char d)" "hex_char d \<noteq> CHR ''-''"
proof -
  have "\<forall>d\<in>set [0..<16]. hex_val (hex_char d) = d \<and> is_ascii_hexdigit (hex_char d) \<and> hex_char d \<noteq> CHR ''-''"
    by code_simp
  with assms show "hex_val (hex_char d) = d" "is_ascii_hexdigit (hex_char d)" "hex_char d \<noteq> CHR ''-''" by simp_all
qed

lemma hexd_props: "length (hexd k n) = k" "\<forall>c\<in>set (hexd k n). is_ascii_hexdigit c \<and> c \<noteq> CHR ''-''"
  by (induction k arbitrary: n) (auto simp: hex_char_props)

lemma unhex_hexd: "unhex (hexd k n) = n mod 16 ^ k"
proof (induction k arbitrary: n)
  case (Suc k)
  have "unhex (hexd (Suc k) n) = unhex (hexd k (n div 16)) * 16 + n mod 16" by (simp add: unhex_def hex_char_props)
  then show ?case by (simp add: Suc mod_mult2_eq)
qed (simp add: unhex_def)

lemma uuid_hyphenated_roundtrip:
  "length (uuid_hyphenated u) = 36 \<and> list_all (\<lambda>c. is_ascii_hexdigit c \<or> c = CHR ''-'') (uuid_hyphenated u)
   \<and> uuid_parse (uuid_hyphenated u) = Some u"
proof -
  let ?h = "hexd 32 (unat u)"
  have h: "length ?h = 32" "\<forall>c\<in>set ?h. is_ascii_hexdigit c \<and> c \<noteq> CHR ''-''" by (simp_all add: hexd_props)
  have len: "length (uuid_hyphenated u) = 36" using h(1) by (simp add: uuid_hyphenated_def Let_def)
  have chars: "list_all (\<lambda>c. is_ascii_hexdigit c \<or> c = CHR ''-'') (uuid_hyphenated u)"
    using h(2) by (auto simp: uuid_hyphenated_def Let_def list_all_iff dest!: in_set_takeD in_set_dropD)
  have id: "filter (\<lambda>c. c \<noteq> CHR ''-'') s = s" if "set s \<subseteq> set ?h" for s
    using that h(2) by (auto intro: filter_True)
  have sub: "set (take a (drop b ?h)) \<subseteq> set ?h" for a b by (meson order_trans set_drop_subset set_take_subset)
  have "filter (\<lambda>c. c \<noteq> CHR ''-'') (uuid_hyphenated u)
      = take 8 ?h @ take 4 (drop 8 ?h) @ take 4 (drop 12 ?h) @ take 4 (drop 16 ?h) @ drop 20 ?h"
    by (simp add: uuid_hyphenated_def Let_def id sub set_take_subset set_drop_subset)
  also have "\<dots> = ?h"
    using append_take_drop_id [of 4 "drop 16 ?h"] append_take_drop_id [of 4 "drop 12 ?h"]
      append_take_drop_id [of 4 "drop 8 ?h"] append_take_drop_id [of 8 ?h] by simp
  finally have "unhex (filter (\<lambda>c. c \<noteq> CHR ''-'') (uuid_hyphenated u)) = unat u"
    using unsigned_less [of u, where ?'a = nat] by (simp add: unhex_hexd)
  with len chars show ?thesis by (simp add: uuid_parse_def)
qed

text \<open>A directory with the route of one project and a file of somebody else, a file system that works, and
  a Caddy that rejects its configuration or is interrupted.\<close>

definition example_route_env :: route_env where
  "example_route_env = \<lparr>re_sites_dir = ''/etc/caddy/sites'', re_uuid_str = uuid_hyphenated, re_uuid_parse = uuid_parse,
     re_io = (\<lambda>_. Io_Ok)\<rparr>"

definition example_route :: "uuid \<Rightarrow> RouteSpec" where
  "example_route deployment = \<lparr>rs_project_id = 1, rs_deployment_id = deployment, rs_domain = ''app.run.sakala.dev'',
     rs_upstream = ''sakala-app'', rs_port = 3000\<rparr>"

definition example_sites :: "unit route_world" where
  "example_sites = \<lparr>rw_dir = Some [(uuid_hyphenated 1 @ ''.Caddyfile'', File (route_content example_route_env (example_route 7))),
     (''README'', File ''notes'')], rw_io = 0, rw_env = ()\<rparr>"

definition rejecting_caddy :: "unit reloader" where
  "rejecting_caddy = \<lparr>rl_validate_and_reload = athrow (Routing ''caddy-validate exited with status Some(1)''),
     rl_reload_after_rollback = aret ()\<rparr>"

definition interrupted_caddy :: "unit reloader" where
  "interrupted_caddy = \<lparr>rl_validate_and_reload = (\<lambda>w. (Cut, w)), rl_reload_after_rollback = aret ()\<rparr>"

lemma example_uuid_text: "uuid_text_ok example_route_env"
  using uuid_hyphenated_roundtrip by (simp add: uuid_text_ok_def example_route_env_def)

lemma example_io: "re_io example_route_env n = Io_Ok"
  by (simp add: example_route_env_def)

lemma example_file:
  "reads example_sites (route_file example_route_env 1) = Inr (route_content example_route_env (example_route 7))"
  by (simp add: example_sites_def reads_def lookup_content_def route_file_def example_route_env_def)

theorem activate_all_or_nothing_witness:
  "(case activate example_route_env rejecting_caddy (example_route 8) example_sites of
      (outcome, w') \<Rightarrow> activated_post example_route_env (example_route 8) (reads example_sites) outcome w')
   \<and> fst (activate example_route_env rejecting_caddy (example_route 8) example_sites)
       = Ready (Inl (Routing ''caddy-validate exited with status Some(1)''))"
  by (rule conjI, rule activate_all_or_nothing, rule example_io) code_simp

theorem interrupted_activation_keeps_route_witness:
  "\<exists>s w1. write_route example_route_env (example_route 8) example_sites = (Ready (Inr s), w1)
   \<and> (case activate example_route_env interrupted_caddy (example_route 8) example_sites of (outcome, w') \<Rightarrow>
        outcome = Cut \<and> reads w' (route_file example_route_env 1) = Inr (route_content example_route_env (example_route 8)))"
proof -
  have "case fst (write_route example_route_env (example_route 8) example_sites) of Ready (Inr s) \<Rightarrow> True | _ \<Rightarrow> False"
    by code_simp
  then obtain s w1 where w: "write_route example_route_env (example_route 8) example_sites = (Ready (Inr s), w1)"
    by (cases "write_route example_route_env (example_route 8) example_sites" rule: fut_cases) auto
  have "rl_validate_and_reload interrupted_caddy (rw_env w1) = (Cut, rw_env w1)" by (simp add: interrupted_caddy_def)
  from interrupted_activation_keeps_route [OF w this] w show ?thesis by (auto simp: example_route_def)
qed

theorem route_file_roundtrip_witness:
  "route_deployment example_route_env 1 (route_content example_route_env (example_route 7)) = Some 7"
  using route_file_roundtrip [OF example_uuid_text, of "example_route 7"] by (simp add: example_route_def)

theorem cleanup_keeps_known_routes_witness:
  "reads (snd (cleanup_stale_routes example_route_env rejecting_caddy [\<lparr>rid_project_id = 1, rid_deployment_id = Some 7\<rparr>] example_sites))
     (route_file example_route_env 1) = Inr (route_content example_route_env (example_route 7))"
proof (rule cleanup_keeps_known_routes [OF example_uuid_text _ example_file, of 7])
  show "starts_with (route_content example_route_env (example_route 7)) (expected_prefix example_route_env 1 7)"
    by (simp add: route_content_def example_route_def starts_with_append)
qed simp

end
