(* ===== verification/Runtime_Services.thy ===== *)
theory Runtime_Services
  imports Routing
begin

text \<open>
  The traits through which the executor of \<^verbatim>\<open>sakala-agent-runtime\<close> reaches the host
  (\<^verbatim>\<open>workspace/mod.rs\<close>, \<^verbatim>\<open>builders/mod.rs\<close>, \<^verbatim>\<open>containers/mod.rs\<close>, \<^verbatim>\<open>health/mod.rs\<close>, \<^verbatim>\<open>inspections/mod.rs\<close>,
  \<^verbatim>\<open>routing/mod.rs\<close>), as records of operations on a world \<open>'w\<close>, with their requests; and the checks a
  command has to pass before any of them is called (\<^verbatim>\<open>executor/docker.rs\<close>, from \<^verbatim>\<open>validate_payload\<close> on).

  A reporter an operation is called with is an argument only where more than one is in use
  (\<^verbatim>\<open>start_log_follower\<close>); elsewhere it is the one of the command and part of the operation.
\<close>

subsection \<open>Requests\<close>

record RepositorySource =
  src_repository_url :: string
  src_commit_sha :: string
  src_credential :: "RepositoryCredential option"

definition without_credential :: "RepositorySource \<Rightarrow> RepositorySource" where
  "without_credential s = s\<lparr>src_credential := None\<rparr>"

record DeploymentWorkspace =
  ws_root :: string
  ws_source :: string

definition workspace_new :: "string \<Rightarrow> DeploymentWorkspace" where
  "workspace_new root = \<lparr>ws_root = root, ws_source = root @ ''/source''\<rparr>"

record BuildRequest =
  br_project_id :: uuid
  br_deployment_id :: uuid
  br_workspace :: string
  br_source :: string
  br_image :: string
  br_requested :: DeploymentBuilder

record RunContainerRequest =
  rq_command_id :: uuid
  rq_project_id :: uuid
  rq_deployment_id :: uuid
  rq_name :: string
  rq_image :: string
  rq_workspace :: string
  rq_environment :: "(string \<times> string) list"
  rq_resources :: AppliedRuntimeResources
  rq_domain :: string
  rq_port :: u16
  rq_log_bounds :: LogBounds

record ManagedWorkload =
  mw_container_id :: string
  mw_status :: string
  mw_project_id :: uuid
  mw_deployment_id :: uuid
  mw_domain :: string
  mw_port :: u16
  mw_command_id :: "uuid option"
  mw_log_bounds :: LogBounds

definition is_up :: "ManagedWorkload \<Rightarrow> bool" where
  "is_up m \<longleftrightarrow> starts_with (to_ascii_lowercase (mw_status m)) ''up''"

text \<open>Slicing the commit is in range: it has been checked to be forty hexadecimal digits.\<close>

definition image_name :: "(uuid \<Rightarrow> string) \<Rightarrow> uuid \<Rightarrow> uuid \<Rightarrow> string \<Rightarrow> string" where
  "image_name us project_id deployment_id commit_sha =
     ''sakala/project-'' @ us project_id @ '':'' @ take 12 commit_sha @ ''-'' @ take 8 (us deployment_id)"

definition container_name :: "(uuid \<Rightarrow> string) \<Rightarrow> uuid \<Rightarrow> uuid \<Rightarrow> string" where
  "container_name us project_id deployment_id =
     ''sakala-app-'' @ take 8 (us project_id) @ ''-'' @ us deployment_id"

subsection \<open>Services\<close>

record 'w workspace_manager =
  wm_checkout :: "uuid \<Rightarrow> RepositorySource \<Rightarrow> ('w, DeploymentWorkspace) async"
  wm_cleanup :: "DeploymentWorkspace \<Rightarrow> ('w, unit) async"
  wm_cleanup_stale :: "duration \<Rightarrow> ('w, nat) async"
  wm_available_disk_bytes :: "('w, u64) async"

record 'w container_engine =
  ce_resolve_resources :: "RuntimeResourceLimits \<Rightarrow> RuntimeError + AppliedRuntimeResources"
  ce_ensure_capacity :: "uuid \<Rightarrow> ('w, unit) async"
  ce_detect_orphans :: "('w, RuntimeReconciliationReport) async"
  ce_capacity :: "('w, RuntimeCapacity) async"
  ce_health_snapshot :: "('w, RuntimeHealthSnapshot list) async"
  ce_workload :: "uuid \<Rightarrow> uuid \<Rightarrow> ('w, ManagedWorkload option) async"
  ce_restart :: "ManagedWorkload \<Rightarrow> u64 \<Rightarrow> ('w, unit) async"
  ce_stop :: "ManagedWorkload \<Rightarrow> u64 \<Rightarrow> ('w, unit) async"
  ce_start_existing :: "ManagedWorkload \<Rightarrow> ('w, unit) async"
  ce_remove :: "ManagedWorkload \<Rightarrow> ('w, unit) async"
  ce_start :: "RunContainerRequest \<Rightarrow> ('w, unit) async"
  ce_report_startup_logs :: "string \<Rightarrow> ('w, unit) async"
  ce_start_log_follower :: "string \<Rightarrow> uuid \<Rightarrow> LogBounds \<Rightarrow> 'w \<Rightarrow> bool \<times> 'w"
  ce_cleanup_previous :: "uuid \<Rightarrow> string \<Rightarrow> ('w, unit) async"
  ce_cleanup_candidate :: "string \<Rightarrow> string \<Rightarrow> ('w, unit) async"
  ce_detect_stale_images :: "duration \<Rightarrow> ('w, RuntimeStaleImage list) async"
  ce_cleanup_stale_images :: "duration \<Rightarrow> ('w, u64) async"
  ce_shutdown :: "'w \<Rightarrow> 'w"

record 'w route_manager =
  rm_discover_stale_routes :: "RouteIdentity list \<Rightarrow> ('w, RuntimeStaleRoute list) async"
  rm_activate :: "RouteSpec \<Rightarrow> ('w, unit) async"
  rm_deactivate :: "RouteIdentity \<Rightarrow> ('w, bool) async"
  rm_cleanup_stale_routes :: "RouteIdentity list \<Rightarrow> ('w, nat) async"

text \<open>The Caddy implementation of the route manager.\<close>

definition caddy_route_manager :: "route_env \<Rightarrow> 'x reloader \<Rightarrow> 'x route_world route_manager" where
  "caddy_route_manager E L =
     \<lparr>rm_discover_stale_routes = discover_stale_routes E, rm_activate = activate E L,
      rm_deactivate = deactivate E L, rm_cleanup_stale_routes = cleanup_stale_routes E L\<rparr>"

subsection \<open>Checks on a payload\<close>

text \<open>What the \<^verbatim>\<open>url\<close> crate says of a parsed URL.\<close>

record url =
  url_scheme :: string
  url_host :: "string option"
  url_username :: string
  url_password :: "string option"
  url_query :: "string option"
  url_fragment :: "string option"
  url_path_segments :: "string list option"

type_synonym url_parser = "string \<Rightarrow> string + url"

definition invalid_payload :: "string \<Rightarrow> RuntimeError + 'a" where
  "invalid_payload m = Inl (InvalidCommand m)"

definition validate_repository_source :: "url_parser \<Rightarrow> string \<Rightarrow> string \<Rightarrow> RuntimeError + unit" where
  "validate_repository_source U repository_url commit_sha =
     (case U repository_url of
        Inl error \<Rightarrow> invalid_payload (''invalid repository URL: '' @ error)
      | Inr repository \<Rightarrow>
          if url_scheme repository \<noteq> ''https'' \<or> url_host repository \<noteq> Some ''github.com''
             \<or> url_username repository \<noteq> [] \<or> url_password repository \<noteq> None
             \<or> url_query repository \<noteq> None \<or> url_fragment repository \<noteq> None
          then invalid_payload ''repository URL must be a credential-free https://github.com URL''
          else
            let segments = (case url_path_segments repository of None \<Rightarrow> [] | Some ss \<Rightarrow> filter (\<lambda>s. s \<noteq> []) ss)
            in if length segments \<noteq> 2
               then invalid_payload ''MVP repository URL must identify one GitHub owner and repository''
               else if length commit_sha \<noteq> 40 \<or> \<not> list_all is_ascii_hexdigit commit_sha
               then invalid_payload ''commit_sha must be a complete 40-character Git SHA''
               else Inr ())"

definition valid_label :: "string \<Rightarrow> bool" where
  "valid_label label \<longleftrightarrow>
     label \<noteq> [] \<and> length label \<le> 63 \<and> \<not> starts_with label ''-'' \<and> \<not> ends_with label ''-''
     \<and> list_all (\<lambda>b. is_ascii_lowercase b \<or> is_ascii_digit b \<or> b = CHR ''-'') label"

definition valid_domain :: "string \<Rightarrow> bool" where
  "valid_domain domain \<longleftrightarrow>
     (ends_with domain ''.run.sakala.localhost'' \<or> ends_with domain ''.run.staging.sakala.dev''
      \<or> ends_with domain ''.run.sakala.dev'')
     \<and> length domain \<le> 253 \<and> list_all valid_label (split_on CHR ''.'' domain)"

fun valid_env_key :: "string \<Rightarrow> bool" where
  "valid_env_key [] = False"
| "valid_env_key (b # bs) =
     ((b = CHR ''_'' \<or> is_ascii_uppercase b)
      \<and> list_all (\<lambda>b. b = CHR ''_'' \<or> is_ascii_uppercase b \<or> is_ascii_digit b) bs)"

definition safe_env_value :: "string \<Rightarrow> bool" where
  "safe_env_value v \<longleftrightarrow> CHR 0x0A \<notin> set v \<and> CHR 0x0D \<notin> set v \<and> CHR 0x00 \<notin> set v"

text \<open>The entries are checked in key order; the first bad one is named in the error, in its \<^verbatim>\<open>Debug\<close> form,
  which is a parameter.\<close>

fun validate_environment :: "(string \<Rightarrow> string) \<Rightarrow> (string \<times> string) list \<Rightarrow> RuntimeError + unit" where
  "validate_environment dbg [] = Inr ()"
| "validate_environment dbg ((key, v) # rest) =
     (if \<not> valid_env_key key \<or> \<not> safe_env_value v
      then invalid_payload (''environment entry '' @ dbg key @ '' is not safe for a Docker env file'')
      else validate_environment dbg rest)"

definition validate_payload :: "url_parser \<Rightarrow> (string \<Rightarrow> string) \<Rightarrow> DeployProjectPayload \<Rightarrow> RuntimeError + unit" where
  "validate_payload U dbg p =
     res_bind (validate_repository_source U (dp_repository_url p) (dp_commit_sha p)) (\<lambda>_.
       if dp_container_port p = 0 then invalid_payload ''container_port must be greater than zero''
       else if \<not> valid_domain (dp_domain p)
       then invalid_payload ''domain must be a valid *.run.sakala.localhost, *.run.staging.sakala.dev, or *.run.sakala.dev hostname''
       else res_bind (validate_environment dbg (dp_environment p)) (\<lambda>_.
         case map_of (dp_environment p) ''PORT'' of
           None \<Rightarrow> Inr ()
         | Some port \<Rightarrow>
             if parse_u16 port \<noteq> Some (dp_container_port p)
             then invalid_payload (''environment PORT='' @ port @ '' must match container_port '' @ show_word (dp_container_port p))
             else Inr ()))"

definition deployment_source :: "url_parser \<Rightarrow> DeployProjectPayload \<Rightarrow> RepositoryCredential option \<Rightarrow> RuntimeError + RepositorySource" where
  "deployment_source U p credential =
     res_bind (validate_repository_source U (dp_repository_url p) (dp_commit_sha p)) (\<lambda>_.
       Inr \<lparr>src_repository_url = dp_repository_url p, src_commit_sha = dp_commit_sha p, src_credential = credential\<rparr>)"

definition inspection_source :: "url_parser \<Rightarrow> InspectProjectPayload \<Rightarrow> RepositoryCredential option \<Rightarrow> RuntimeError + RepositorySource" where
  "inspection_source U p credential =
     res_bind (validate_repository_source U (ip_repository_url p) (ip_commit_sha p)) (\<lambda>_.
       Inr \<lparr>src_repository_url = ip_repository_url p, src_commit_sha = ip_commit_sha p, src_credential = credential\<rparr>)"

subsection \<open>What a payload that passes is like\<close>

definition route_safe :: "string \<Rightarrow> bool" where
  "route_safe s \<longleftrightarrow> list_all (\<lambda>b. is_ascii_lowercase b \<or> is_ascii_digit b \<or> b = CHR ''-'' \<or> b = CHR ''.'') s"

lemma split_on_chars: "\<forall>p\<in>set (split_on c s). list_all P p \<Longrightarrow> list_all (\<lambda>b. P b \<or> b = c) s"
proof (induction c s rule: split_on.induct)
  case (2 c b bs)
  then show ?case by (cases "split_on c bs") (auto split: if_splits)
qed simp

lemma valid_domain_route_safe: "valid_domain d \<Longrightarrow> route_safe d"
  unfolding valid_domain_def route_safe_def
  using split_on_chars [of "CHR ''.''" d "\<lambda>b. is_ascii_lowercase b \<or> is_ascii_digit b \<or> b = CHR ''-''"]
  by (auto simp: list_all_iff valid_label_def)

lemma validate_environment_ok:
  "validate_environment dbg es = Inr u \<longleftrightarrow> (\<forall>(k, v)\<in>set es. valid_env_key k \<and> safe_env_value v)"
  by (induction dbg es rule: validate_environment.induct) (auto simp: invalid_payload_def)

text \<open>C26: a deployment payload that is accepted is safe to write into a route file, an env file and an image
  name: its domain lies in one of the three runtime zones, has at most 253 octets of lower-case letters,
  digits, hyphens and dots (so no white space, brace or line end can reach the Caddy configuration),
  its labels have 1 to 63 octets, its port is not zero and agrees with PORT if that is set, every
  environment entry is one line with a shell-safe key, and the commit is a full hexadecimal hash.\<close>

theorem validated_payload_safe:
  assumes "validate_payload U dbg p = Inr u"
  shows "route_safe (dp_domain p) \<and> length (dp_domain p) \<le> 253
    \<and> (\<exists>zone\<in>{''.run.sakala.localhost'', ''.run.staging.sakala.dev'', ''.run.sakala.dev''}. \<exists>host.
         dp_domain p = host @ zone)
    \<and> (\<forall>label\<in>set (split_on CHR ''.'' (dp_domain p)). 0 < length label \<and> length label \<le> 63)
    \<and> dp_container_port p \<noteq> 0
    \<and> (\<forall>port. map_of (dp_environment p) ''PORT'' = Some port \<longrightarrow> parse_u16 port = Some (dp_container_port p))
    \<and> (\<forall>(k, v)\<in>set (dp_environment p). valid_env_key k \<and> safe_env_value v)
    \<and> length (dp_commit_sha p) = 40 \<and> list_all is_ascii_hexdigit (dp_commit_sha p)"
proof -
  from assms have r: "validate_repository_source U (dp_repository_url p) (dp_commit_sha p) = Inr ()"
    and port: "dp_container_port p \<noteq> 0" and dom: "valid_domain (dp_domain p)"
    and env: "\<forall>(k, v)\<in>set (dp_environment p). valid_env_key k \<and> safe_env_value v"
    and pe: "\<forall>port. map_of (dp_environment p) ''PORT'' = Some port \<longrightarrow> parse_u16 port = Some (dp_container_port p)"
    by (auto simp: validate_payload_def invalid_payload_def res_bind_Inr validate_environment_ok split: if_splits option.splits)
  from r have sha: "length (dp_commit_sha p) = 40" "list_all is_ascii_hexdigit (dp_commit_sha p)"
    by (auto simp: validate_repository_source_def invalid_payload_def Let_def split: sum.splits if_splits)
  from dom have "\<exists>zone\<in>{''.run.sakala.localhost'', ''.run.staging.sakala.dev'', ''.run.sakala.dev''}. \<exists>host.
      dp_domain p = host @ zone"
    unfolding valid_domain_def ends_with_iff by blast
  moreover from dom have "\<forall>label\<in>set (split_on CHR ''.'' (dp_domain p)). 0 < length label \<and> length label \<le> 63"
    by (simp add: valid_domain_def list_all_iff valid_label_def)
  moreover have "length (dp_domain p) \<le> 253" using dom by (simp add: valid_domain_def)
  ultimately show ?thesis using valid_domain_route_safe [OF dom] port env pe sha by simp
qed

definition github_parser :: url_parser where
  "github_parser s = Inr \<lparr>url_scheme = ''https'', url_host = Some ''github.com'', url_username = [], url_password = None,
     url_query = None, url_fragment = None, url_path_segments = Some [''gmedia'', ''example-app.git'']\<rparr>"

definition example_payload :: DeployProjectPayload where
  "example_payload =
     \<lparr>dp_repository_url = ''https://github.com/gmedia/example-app.git'',
      dp_commit_sha = ''0123456789abcdef0123456789abcdef01234567'', dp_repository_access = Public,
      dp_domain = ''portfolio.run.staging.sakala.dev'', dp_container_port = 3000, dp_builder = Builder_Auto,
      dp_environment = [(''PORT'', ''3000'')],
      dp_resources = \<lparr>rl_memory_mb = None, rl_cpu_millis = None, rl_pids_limit = None\<rparr>,
      dp_timeouts = \<lparr>tl_build_timeout_seconds = None, tl_start_timeout_seconds = None, tl_command_timeout_seconds = None\<rparr>,
      dp_log_bounds = \<lparr>lb_max_line_length = None, lb_max_batch_lines = None, lb_max_total_bytes = None\<rparr>\<rparr>"

lemma example_payload_valid: "validate_payload github_parser id example_payload = Inr ()"
  by code_simp

theorem validated_payload_safe_witness:
  "validate_payload github_parser id example_payload = Inr () \<and> route_safe (dp_domain example_payload)"
  using validated_payload_safe [OF example_payload_valid] example_payload_valid by simp

text \<open>The name of a container doubles as the host name of the route: it is a DNS label.\<close>

lemma container_name_fits:
  "length (us project_id) = 36 \<Longrightarrow> length (us deployment_id) = 36 \<Longrightarrow> length (container_name us project_id deployment_id) = 56"
  by (simp add: container_name_def)

end
