(* ===== verification/Deployment.thy ===== *)
theory Deployment
  imports Runtime_Services Dispatcher
begin

text \<open>
  The Docker executor, \<^verbatim>\<open>executor/docker.rs\<close> of \<^verbatim>\<open>sakala-agent-runtime\<close>: deployments, inspections and the
  lifecycle of workloads, over the services of \<open>Runtime_Services\<close>.

  The executor's world adds to the world of the services what the code itself keeps: the permit of the
  build semaphore, the admission lock, the flag \<^verbatim>\<open>route_activated\<close>, and the future of a cancelled
  deployment that has not been dropped yet. It also records the calls the executor makes, in order, with
  how each ended: the properties of a deployment are about that record.

  A service call that ends with \<open>Cut\<close> was dropped while it ran. Who dropped it is given by \<open>dx_cause\<close>: the
  timer, when the call is inside \<^verbatim>\<open>tokio::time::timeout\<close>; the cancellation branch of \<^verbatim>\<open>select!\<close>; or the
  caller of the executor, which drops everything. A cause that is not possible where the call stands
  counts as the last.
\<close>

subsection \<open>The executor and its world\<close>

datatype cut_cause = By_Timer | By_Cancel | By_Caller

record serialisers =
  se_limits :: "RuntimeResourceLimits \<Rightarrow> json"
  se_applied :: "AppliedRuntimeResources \<Rightarrow> json"
  se_builder :: "DeploymentBuilder \<Rightarrow> json"
  se_inspection :: "ProjectInspection \<Rightarrow> string + json"
  se_deploy_result :: "DeployProjectResult \<Rightarrow> string + json"

record 'w docker_executor =
  dx_workspace :: "'w workspace_manager"
  dx_inspect :: "DeploymentWorkspace \<Rightarrow> RepositorySource \<Rightarrow> ('w, ProjectInspection) async"
  dx_build :: "BuildRequest \<Rightarrow> ('w, DeploymentBuilder) async"
  dx_containers :: "'w container_engine"
  dx_wait_until_ready :: "string \<Rightarrow> ('w, unit) async"
  dx_routes :: "'w route_manager"
  dx_timeout_safety :: TimeoutSafetyConfig
  dx_acquire_build :: "('w, unit) async"
  dx_lock_admission :: "('w, unit) async"
  dx_max_concurrent_builds :: nat
  dx_workspace_gc_max_age :: duration
  dx_image_gc_max_age :: duration
  dx_min_workspace_free_bytes :: u64
  dx_uuid_str :: "uuid \<Rightarrow> string"
  dx_url :: url_parser
  dx_debug :: "string \<Rightarrow> string"
  dx_ser :: serialisers
  dx_cause :: "nat \<Rightarrow> cut_cause"

datatype svc =
    S_DiskSpace | S_EnsureCapacity | S_Event string | S_Log | S_Checkout | S_BuildPermit | S_Build | S_Admission
  | S_Start | S_Ready | S_Activate | S_Commit | S_StartupLogs | S_CleanupPrevious | S_Follower
  | S_CleanupCandidate | S_CleanupWorkspace | S_Inspect | S_Workload | S_Restart | S_Stop | S_StartExisting
  | S_Remove | S_Deactivate | S_DetectOrphans | S_StaleRoutes | S_StaleImages | S_StaleWorkspaces
  | S_CleanupRoutes | S_CleanupImages

datatype ending = Finished | Failed | Dropped_Midway

record 'w dworld =
  dw_env :: 'w
  dw_calls :: "(svc \<times> ending) list"
  dw_build_permit :: bool
  dw_admission :: bool
  dw_route_activated :: bool
  dw_inflight :: "svc option"

fun ending_of :: "(RuntimeError, 'a) fut \<Rightarrow> ending" where
  "ending_of (Ready (Inr _)) = Finished"
| "ending_of (Ready (Inl _)) = Failed"
| "ending_of Cut = Dropped_Midway"

definition logged :: "svc \<Rightarrow> ending \<Rightarrow> 'w \<Rightarrow> 'w dworld \<Rightarrow> 'w dworld" where
  "logged s e x w = w\<lparr>dw_env := x, dw_calls := dw_calls w @ [(s, e)]\<rparr>"

definition call :: "svc \<Rightarrow> ('w, 'a) async \<Rightarrow> ('w dworld, 'a) async" where
  "call s m w = (case m (dw_env w) of (r, x) \<Rightarrow> (r, logged s (ending_of r) x w))"

definition call_sync :: "svc \<Rightarrow> ('w \<Rightarrow> 'a \<times> 'w) \<Rightarrow> ('w dworld, 'a) async" where
  "call_sync s f w = (case f (dw_env w) of (a, x) \<Rightarrow> (Ready (Inr a), logged s Finished x w))"

definition modify :: "('w \<Rightarrow> 'w) \<Rightarrow> ('w, unit) async" where
  "modify f w = (Ready (Inr ()), f w)"

definition awhen :: "('w \<Rightarrow> bool) \<Rightarrow> ('w, unit) async \<Rightarrow> ('w, unit) async" where
  "awhen c m w = (if c w then m w else aret () w)"

definition cause_of :: "'w docker_executor \<Rightarrow> 'w dworld \<Rightarrow> cut_cause" where
  "cause_of X w = dx_cause X (length (dw_calls w))"

text \<open>\<^verbatim>\<open>tokio::time::timeout\<close>: the inner future is dropped with everything it owns, here the admission
  lock, before the error is returned.\<close>

definition timeout :: "'w docker_executor \<Rightarrow> string \<Rightarrow> duration \<Rightarrow> ('w dworld, 'a) async \<Rightarrow> ('w dworld, 'a) async" where
  "timeout X operation d m w =
     (case m w of
        (Ready r, w') \<Rightarrow> (Ready r, w'\<lparr>dw_admission := False\<rparr>)
      | (Cut, w') \<Rightarrow>
          if cause_of X w' = By_Timer
          then (Ready (Inl (Timeout operation (as_secs d))), w'\<lparr>dw_admission := False\<rparr>)
          else (Cut, w'))"

subsection \<open>Reports\<close>

definition emit_event :: "'w reporter \<Rightarrow> string \<Rightarrow> string \<Rightarrow> json \<Rightarrow> ('w dworld, unit) async" where
  "emit_event R event_type message metadata =
     call (S_Event event_type) (\<lambda>w.
       case rep_event R \<lparr>ev_event_type = event_type, ev_level = Level_Info, ev_message = message,
              ev_metadata = metadata, ev_occurred_at = rep_now R w\<rparr> w of
         (Ready (Inr _), w') \<Rightarrow> (Ready (Inr ()), w')
       | (Ready (Inl e), w') \<Rightarrow> (Ready (Inl (runtime_of_ree e)), w')
       | (Cut, w') \<Rightarrow> (Cut, w'))"

text \<open>\<^verbatim>\<open>let _ = reporter.log(system_log(...)).await\<close>.\<close>

definition warn_log :: "'w reporter \<Rightarrow> string \<Rightarrow> ('w dworld, unit) async" where
  "warn_log R message =
     call S_Log (\<lambda>w.
       case rep_log R \<lparr>log_stream = System, log_message = message, log_recorded_at = rep_now R w\<rparr> w of
         (Ready _, w') \<Rightarrow> (Ready (Inr ()), w')
       | (Cut, w') \<Rightarrow> (Cut, w'))"

subsection \<open>Deployment\<close>

definition ensure_workspace_capacity :: "'w docker_executor \<Rightarrow> ('w dworld, unit) async" where
  "ensure_workspace_capacity X =
     abind (call S_DiskSpace (wm_available_disk_bytes (dx_workspace X))) (\<lambda>available.
       if available < dx_min_workspace_free_bytes X
       then athrow (DiskPressure (''workspace has '' @ show_word available @ '' free bytes; node requires at least ''
              @ show_word (dx_min_workspace_free_bytes X) @ '' bytes before a deployment build''))
       else aret ())"

definition run_container_request :: "DeployProjectRequest \<Rightarrow> DeploymentWorkspace \<Rightarrow> string \<Rightarrow> string \<Rightarrow> AppliedRuntimeResources
    \<Rightarrow> RunContainerRequest" where
  "run_container_request q ws img container applied =
     \<lparr>rq_command_id = dpq_command_id q, rq_project_id = dpq_project_id q, rq_deployment_id = dpq_deployment_id q,
      rq_name = container, rq_image = img, rq_workspace = ws_root ws,
      rq_environment = dp_environment (dpq_payload q), rq_resources = applied,
      rq_domain = dp_domain (dpq_payload q), rq_port = dp_container_port (dpq_payload q),
      rq_log_bounds = dp_log_bounds (dpq_payload q)\<rparr>"

definition start_candidate :: "'w docker_executor \<Rightarrow> DeployProjectRequest \<Rightarrow> DeploymentWorkspace \<Rightarrow> string \<Rightarrow> string
    \<Rightarrow> AppliedRuntimeResources \<Rightarrow> ('w dworld, unit) async" where
  "start_candidate X q ws img container applied =
     abind (call S_Admission (dx_lock_admission X)) (\<lambda>_.
     abind (modify (\<lambda>w. w\<lparr>dw_admission := True\<rparr>)) (\<lambda>_.
     abind (call S_EnsureCapacity (ce_ensure_capacity (dx_containers X) (dpq_project_id q))) (\<lambda>_.
     abind (call S_Start (ce_start (dx_containers X) (run_container_request q ws img container applied))) (\<lambda>_.
     abind (modify (\<lambda>w. w\<lparr>dw_admission := False\<rparr>)) (\<lambda>_.
     call S_Ready (dx_wait_until_ready X container))))))"

text \<open>Once the route is active nothing takes the deployment back: failures of what follows are logged, and
  only a failed cleanup of the previous container is returned.\<close>

definition finalize_deployment :: "'w docker_executor \<Rightarrow> 'w reporter \<Rightarrow> DeployProjectRequest \<Rightarrow> string \<Rightarrow> string
    \<Rightarrow> AppliedRuntimeResources \<Rightarrow> DeploymentBuilder \<Rightarrow> ('w dworld, unit) async" where
  "finalize_deployment X R q img container applied builder =
     abind (atry (call S_StartupLogs (ce_report_startup_logs (dx_containers X) container))) (\<lambda>logs.
     abind (case logs of
              Inr _ \<Rightarrow> aret ()
            | Inl error \<Rightarrow> warn_log R (''startup log collection warning for '' @ container @ '': '' @ runtime_error_text error)) (\<lambda>_.
     abind (atry (call S_CleanupPrevious (ce_cleanup_previous (dx_containers X) (dpq_project_id q) container))) (\<lambda>previous.
     abind (case previous of
              Inr _ \<Rightarrow> aret ()
            | Inl error \<Rightarrow> warn_log R (''previous container cleanup warning for project '' @ dx_uuid_str X (dpq_project_id q)
                @ '': '' @ runtime_error_text error)) (\<lambda>_.
     abind (atry (emit_event R ''deployment.runtime.ready'' ''Application container and route are ready.''
       (JObject [(''builder'', se_builder (dx_ser X) builder), (''container'', JString container),
          (''domain'', JString (dp_domain (dpq_payload q))), (''image'', JString img),
          (''resources'', se_applied (dx_ser X) applied)]))) (\<lambda>_.
     abind (call_sync S_Follower (ce_start_log_follower (dx_containers X) container (dpq_command_id q)
              (dp_log_bounds (dpq_payload q)))) (\<lambda>_.
     case previous of Inr _ \<Rightarrow> aret () | Inl error \<Rightarrow> athrow error))))))"

definition deploy_steps :: "'w docker_executor \<Rightarrow> 'w reporter \<Rightarrow> DeployProjectRequest \<Rightarrow> DeploymentWorkspace \<Rightarrow> string \<Rightarrow> string
    \<Rightarrow> AppliedRuntimeResources \<Rightarrow> AppliedRuntimeTimeouts \<Rightarrow> ('w dworld, unit) async" where
  "deploy_steps X R q ws img container applied timeouts =
     abind (call S_BuildPermit (dx_acquire_build X)) (\<lambda>_.
     abind (modify (\<lambda>w. w\<lparr>dw_build_permit := True\<rparr>)) (\<lambda>_.
     abind (emit_event R ''deployment.build.started'' ''Preparing application image.''
       (JObject [(''requested_builder'', se_builder (dx_ser X) (dp_builder (dpq_payload q)))])) (\<lambda>_.
     abind (timeout X ''deployment-build'' (at_build timeouts) (call S_Build (dx_build X
       \<lparr>br_project_id = dpq_project_id q, br_deployment_id = dpq_deployment_id q, br_workspace = ws_root ws,
        br_source = ws_source ws, br_image = img, br_requested = dp_builder (dpq_payload q)\<rparr>))) (\<lambda>builder.
     abind (modify (\<lambda>w. w\<lparr>dw_build_permit := False\<rparr>)) (\<lambda>_.
     abind (emit_event R ''deployment.container.started'' ''Starting candidate application container.''
       (JObject [(''container'', JString container), (''image'', JString img)])) (\<lambda>_.
     abind (timeout X ''deployment-start'' (at_start timeouts) (start_candidate X q ws img container applied)) (\<lambda>_.
     abind (call S_Activate (rm_activate (dx_routes X)
       \<lparr>rs_project_id = dpq_project_id q, rs_deployment_id = dpq_deployment_id q, rs_domain = dp_domain (dpq_payload q),
        rs_upstream = container, rs_port = dp_container_port (dpq_payload q)\<rparr>)) (\<lambda>_.
     abind (modify (\<lambda>w. w\<lparr>dw_route_activated := True\<rparr>)) (\<lambda>_.
     abind (call_sync S_Commit (\<lambda>x. ((), rep_commit R (JObject
       [(''requested_resources'', se_limits (dx_ser X) (dp_resources (dpq_payload q))),
        (''applied_resources'', se_applied (dx_ser X) applied)]) x))) (\<lambda>_.
     finalize_deployment X R q img container applied builder))))))))))"

text \<open>The build permit is dropped when the function returns.\<close>

definition deploy_inner :: "'w docker_executor \<Rightarrow> 'w reporter \<Rightarrow> DeployProjectRequest \<Rightarrow> DeploymentWorkspace \<Rightarrow> string \<Rightarrow> string
    \<Rightarrow> AppliedRuntimeResources \<Rightarrow> AppliedRuntimeTimeouts \<Rightarrow> ('w dworld, unit) async" where
  "deploy_inner X R q ws img container applied timeouts w =
     (case deploy_steps X R q ws img container applied timeouts w of
        (Ready r, w') \<Rightarrow> (Ready r, w'\<lparr>dw_build_permit := False\<rparr>)
      | (Cut, w') \<Rightarrow> (Cut, w'))"

text \<open>The biased \<^verbatim>\<open>select!\<close> on the pinned deployment: a cancellation before the route is active yields
  \<open>Cancelled\<close>, and the future stays where it was cut, with all it owns, until \<^verbatim>\<open>run_deployment\<close> returns.\<close>

definition select_deployment :: "'w docker_executor \<Rightarrow> ('w dworld, unit) async \<Rightarrow> ('w dworld, RuntimeError + unit) async" where
  "select_deployment X deployment w =
     (case deployment w of
        (Ready r, w') \<Rightarrow> (Ready (Inr r), w')
      | (Cut, w') \<Rightarrow>
          if cause_of X w' = By_Cancel \<and> \<not> dw_route_activated w'
          then (Ready (Inr (Inl Cancelled)), w'\<lparr>dw_inflight := map_option fst (case dw_calls w' of [] \<Rightarrow> None | cs \<Rightarrow> Some (last cs))\<rparr>)
          else (Cut, w'))"

definition settle_deployment :: "'w docker_executor \<Rightarrow> 'w reporter \<Rightarrow> DeployProjectRequest \<Rightarrow> DeploymentWorkspace \<Rightarrow> string \<Rightarrow> string
    \<Rightarrow> AppliedRuntimeResources \<Rightarrow> RuntimeError + unit \<Rightarrow> ('w dworld, json) async" where
  "settle_deployment X R q ws img container applied result =
     abind (awhen (\<lambda>w. is_err result \<and> \<not> dw_route_activated w)
       (abind (atry (call S_CleanupCandidate (ce_cleanup_candidate (dx_containers X) container img))) (\<lambda>cleanup.
          case cleanup of
            Inr _ \<Rightarrow> aret ()
          | Inl error \<Rightarrow> warn_log R (''candidate cleanup warning for '' @ container @ '': '' @ runtime_error_text error)))) (\<lambda>_.
     abind (atry (call S_CleanupWorkspace (wm_cleanup (dx_workspace X) ws))) (\<lambda>cleanup.
     abind (case cleanup of
              Inr _ \<Rightarrow> aret ()
            | Inl error \<Rightarrow> warn_log R (''workspace cleanup warning for '' @ ws_root ws @ '': '' @ runtime_error_text error)) (\<lambda>_.
     case result of
       Inl error \<Rightarrow> athrow error
     | Inr _ \<Rightarrow>
         (case se_deploy_result (dx_ser X)
             \<lparr>dpr_requested_resources = dp_resources (dpq_payload q), dpr_applied_resources = applied,
              dpr_finalization_deferred = False, dpr_finalization_deferred_reason = None\<rparr> of
            Inl error \<Rightarrow> athrow (Execution (''failed to serialize deployment result: '' @ error))
          | Inr completion \<Rightarrow> aret completion))))"

definition deployment_steps :: "'w docker_executor \<Rightarrow> 'w reporter \<Rightarrow> DeployProjectRequest \<Rightarrow> ('w dworld, json) async" where
  "deployment_steps X R q =
     (let payload = dpq_payload q
      in abind (alift (validate_payload (dx_url X) (dx_debug X) payload)) (\<lambda>_.
         abind (alift (resolve_timeouts (dx_timeout_safety X) (dp_timeouts payload))) (\<lambda>timeouts.
         abind (alift (ce_resolve_resources (dx_containers X) (dp_resources payload))) (\<lambda>applied.
         abind (alift (deployment_source (dx_url X) payload (dpq_repository_credential q))) (\<lambda>source.
         abind (ensure_workspace_capacity X) (\<lambda>_.
         abind (call S_EnsureCapacity (ce_ensure_capacity (dx_containers X) (dpq_project_id q))) (\<lambda>_.
         abind (emit_event R ''deployment.resources.resolved'' ''Runtime resource request passed node safety checks.''
           (JObject [(''requested'', se_limits (dx_ser X) (dp_resources payload)), (''applied'', se_applied (dx_ser X) applied)])) (\<lambda>_.
         abind (emit_event R ''deployment.timeouts.resolved'' ''Runtime timeout request passed node safety checks.''
           (JObject [(''build_timeout_seconds'', JInt (uint (as_secs (at_build timeouts)))),
              (''start_timeout_seconds'', JInt (uint (as_secs (at_start timeouts))))])) (\<lambda>_.
         abind (emit_event R ''deployment.checkout.started'' ''Cloning repository at the requested commit.''
           (JObject [(''commit_sha'', JString (dp_commit_sha payload))])) (\<lambda>_.
         abind (call S_Checkout (wm_checkout (dx_workspace X) (dpq_command_id q) source)) (\<lambda>ws.
         let img = image_name (dx_uuid_str X) (dpq_project_id q) (dpq_deployment_id q) (dp_commit_sha payload);
             container = container_name (dx_uuid_str X) (dpq_project_id q) (dpq_deployment_id q)
         in abind (modify (\<lambda>w. w\<lparr>dw_route_activated := False\<rparr>)) (\<lambda>_.
            abind (select_deployment X (deploy_inner X R q ws img container applied timeouts)) (\<lambda>result.
            settle_deployment X R q ws img container applied result)))))))))))))"

text \<open>When the function returns, or its own future is dropped, everything it owns is dropped.\<close>

definition drop_owned :: "'w dworld \<Rightarrow> 'w dworld" where
  "drop_owned w = w\<lparr>dw_build_permit := False, dw_admission := False, dw_inflight := None\<rparr>"

definition run_deployment :: "'w docker_executor \<Rightarrow> 'w reporter \<Rightarrow> DeployProjectRequest \<Rightarrow> ('w dworld, json) async" where
  "run_deployment X R q w = (case deployment_steps X R q w of (r, w') \<Rightarrow> (r, drop_owned w'))"

subsection \<open>The protocol of a deployment\<close>

definition fresh :: "'w \<Rightarrow> 'w dworld" where
  "fresh x = \<lparr>dw_env = x, dw_calls = [], dw_build_permit = False, dw_admission = False, dw_route_activated = False,
     dw_inflight = None\<rparr>"

text \<open>What must have been finished before a service may be called.\<close>

fun requires :: "svc \<Rightarrow> (svc \<times> ending) list \<Rightarrow> bool" where
  "requires S_BuildPermit cs = ((S_Checkout, Finished) \<in> set cs)"
| "requires S_Build cs = ((S_BuildPermit, Finished) \<in> set cs)"
| "requires S_Start cs = ((S_Build, Finished) \<in> set cs \<and> (S_Admission, Finished) \<in> set cs)"
| "requires S_Ready cs = ((S_Start, Finished) \<in> set cs)"
| "requires S_Activate cs = ((S_Ready, Finished) \<in> set cs)"
| "requires S_Commit cs = ((S_Activate, Finished) \<in> set cs)"
| "requires S_StartupLogs cs = ((S_Activate, Finished) \<in> set cs)"
| "requires S_CleanupPrevious cs = ((S_Activate, Finished) \<in> set cs \<and> (S_Commit, Finished) \<in> set cs)"
| "requires S_Follower cs = ((S_Activate, Finished) \<in> set cs)"
| "requires S_CleanupCandidate cs = ((S_Checkout, Finished) \<in> set cs \<and> (S_Activate, Finished) \<notin> set cs)"
| "requires S_CleanupWorkspace cs = ((S_Checkout, Finished) \<in> set cs)"
| "requires _ cs = True"

definition lawful :: "(svc \<times> ending) list \<Rightarrow> bool" where
  "lawful cs \<longleftrightarrow> (\<forall>i<length cs. requires (fst (cs ! i)) (take i cs))"

lemma lawful_Nil [simp]: "lawful []"
  by (simp add: lawful_def)

lemma lawful_snoc: "lawful (cs @ [(s, e)]) \<longleftrightarrow> lawful cs \<and> requires s cs"
  by (auto simp: lawful_def nth_append less_Suc_eq)

fun lawful_from :: "(svc \<times> ending) list \<Rightarrow> (svc \<times> ending) list \<Rightarrow> bool" where
  "lawful_from cs [] = True"
| "lawful_from cs ((s, e) # rest) = (requires s cs \<and> lawful_from (cs @ [(s, e)]) rest)"

lemma lawful_append [simp]: "lawful (cs @ rest) \<longleftrightarrow> lawful cs \<and> lawful_from cs rest"
proof (induction cs rest rule: lawful_from.induct)
  case (2 cs s e rest)
  then show ?case using lawful_snoc [of cs s e] by auto
qed simp

lemma lawful_Cons [simp]: "lawful (c # cs) = lawful_from [] (c # cs)"
  using lawful_append [of "[]" "c # cs"] by simp

abbreviation did :: "svc \<Rightarrow> 'w dworld \<Rightarrow> bool" where
  "did s w \<equiv> (s, Finished) \<in> set (dw_calls w)"

definition attempted :: "svc \<Rightarrow> 'w dworld \<Rightarrow> bool" where
  "attempted s w \<longleftrightarrow> s \<in> fst ` set (dw_calls w)"

lemma logged_simps [simp]:
  "dw_calls (logged s e x w) = dw_calls w @ [(s, e)]" "dw_route_activated (logged s e x w) = dw_route_activated w"
  "dw_build_permit (logged s e x w) = dw_build_permit w" "dw_admission (logged s e x w) = dw_admission w"
  by (simp_all add: logged_def)

lemma attempted_simps [simp]:
  "attempted s (logged s' e x w) \<longleftrightarrow> s = s' \<or> attempted s w"
  by (auto simp: attempted_def)

lemma attempted_cong [simp]:
  "attempted s (w\<lparr>dw_build_permit := b\<rparr>) = attempted s w" "attempted s (w\<lparr>dw_admission := b\<rparr>) = attempted s w"
  "attempted s (w\<lparr>dw_route_activated := b\<rparr>) = attempted s w" "attempted s (w\<lparr>dw_inflight := f\<rparr>) = attempted s w"
  by (simp_all add: attempted_def)

lemma wp_call [wp_intro]:
  assumes "\<And>a x. Q (Ready (Inr a)) (logged s Finished x w)" "\<And>e x. Q (Ready (Inl e)) (logged s Failed x w)"
    "\<And>x. Q Cut (logged s Dropped_Midway x w)"
  shows "wp (call s m) Q w"
  by (cases "m (dw_env w)" rule: fut_cases) (simp_all add: wp_def call_def assms)

lemma wp_emit_event [wp_intro]:
  assumes "\<And>a x. Q (Ready (Inr a)) (logged (S_Event ty) Finished x w)" "\<And>e x. Q (Ready (Inl e)) (logged (S_Event ty) Failed x w)"
    "\<And>x. Q Cut (logged (S_Event ty) Dropped_Midway x w)"
  shows "wp (emit_event R ty msg meta) Q w"
  unfolding emit_event_def by (rule wp_call) (rule assms)+

lemma wp_warn_log [wp_intro]:
  assumes "\<And>a x. Q (Ready (Inr a)) (logged S_Log Finished x w)" "\<And>x. Q Cut (logged S_Log Dropped_Midway x w)"
  shows "wp (warn_log R msg) Q w"
  using assms by (simp add: wp_def warn_log_def call_def split: prod.splits fut.splits)

lemma wp_call_sync [wp_intro]: "(\<And>a x. Q (Ready (Inr a)) (logged s Finished x w)) \<Longrightarrow> wp (call_sync s f) Q w"
  by (simp add: wp_def call_sync_def split: prod.splits)

lemma wp_modify [simp]: "wp (modify f) Q w = Q (Ready (Inr ())) (f w)"
  by (simp add: wp_def modify_def)

lemma wp_awhen [simp]: "wp (awhen c m) Q w = (if c w then wp m Q w else Q (Ready (Inr ())) w)"
  by (simp add: wp_def awhen_def)

fun timed :: "'w docker_executor \<Rightarrow> string \<Rightarrow> duration \<Rightarrow> ((RuntimeError, 'a) fut \<Rightarrow> 'w dworld \<Rightarrow> bool)
    \<Rightarrow> (RuntimeError, 'a) fut \<Rightarrow> 'w dworld \<Rightarrow> bool" where
  "timed X operation d Q (Ready r) w = Q (Ready r) (w\<lparr>dw_admission := False\<rparr>)"
| "timed X operation d Q Cut w =
     (if cause_of X w = By_Timer then Q (Ready (Inl (Timeout operation (as_secs d)))) (w\<lparr>dw_admission := False\<rparr>)
      else Q Cut w)"

lemma wp_timeout [simp]: "wp (timeout X operation d m) Q w = wp m (timed X operation d Q) w"
  by (cases "m w" rule: fut_cases) (simp_all add: wp_def timeout_def)

fun selected :: "'w docker_executor \<Rightarrow> ((RuntimeError, RuntimeError + unit) fut \<Rightarrow> 'w dworld \<Rightarrow> bool)
    \<Rightarrow> (RuntimeError, unit) fut \<Rightarrow> 'w dworld \<Rightarrow> bool" where
  "selected X Q (Ready r) w = Q (Ready (Inr r)) w"
| "selected X Q Cut w =
     (if cause_of X w = By_Cancel \<and> \<not> dw_route_activated w
      then Q (Ready (Inr (Inl Cancelled)))
        (w\<lparr>dw_inflight := map_option fst (case dw_calls w of [] \<Rightarrow> None | cs \<Rightarrow> Some (last cs))\<rparr>)
      else Q Cut w)"

lemma wp_select [simp]: "wp (select_deployment X m) Q w = wp m (selected X Q) w"
  by (cases "m w" rule: fut_cases) (simp_all add: wp_def select_deployment_def)

text \<open>The state of a deployment after its checkout.\<close>

definition dinv :: "'w dworld \<Rightarrow> bool" where
  "dinv w \<longleftrightarrow> lawful (dw_calls w) \<and> did S_Checkout w \<and> (dw_route_activated w \<longleftrightarrow> did S_Activate w)
     \<and> (did S_Commit w \<longleftrightarrow> did S_Activate w)"

definition running :: "'w dworld \<Rightarrow> bool" where
  "running w \<longleftrightarrow> dinv w \<and> \<not> attempted S_CleanupCandidate w"

definition unpublished :: "'w dworld \<Rightarrow> bool" where
  "unpublished w \<longleftrightarrow> running w \<and> \<not> did S_Activate w"

fun deployed :: "(RuntimeError, unit) fut \<Rightarrow> 'w dworld \<Rightarrow> bool" where
  "deployed (Ready (Inr _)) w \<longleftrightarrow> running w \<and> did S_Activate w"
| "deployed (Ready (Inl _)) w \<longleftrightarrow> running w \<and> (did S_Activate w \<longrightarrow> (S_CleanupPrevious, Failed) \<in> set (dw_calls w))"
| "deployed Cut w \<longleftrightarrow> running w"

lemma wp_finalize:
  assumes "running w" "did S_Activate w"
  shows "wp (finalize_deployment X R q img container applied builder) deployed w"
  unfolding finalize_deployment_def
  using assms by (auto intro!: wp_intro simp: running_def dinv_def split: sum.splits)

lemma wp_start_candidate:
  assumes "unpublished w" "did S_Build w"
    and "\<And>a w'. unpublished w' \<Longrightarrow> did S_Ready w' \<Longrightarrow> Q (Ready (Inr a)) w'"
    and "\<And>e w'. unpublished w' \<Longrightarrow> Q (Ready (Inl e)) w'" "\<And>w'. unpublished w' \<Longrightarrow> Q Cut w'"
  shows "wp (start_candidate X q ws img container applied) Q w"
  unfolding start_candidate_def
  using assms(1,2) by (auto intro!: wp_call assms(3-5) simp: running_def dinv_def unpublished_def)

lemma wp_deploy_steps:
  assumes "unpublished w"
  shows "wp (deploy_steps X R q ws img container applied timeouts) deployed w"
  unfolding deploy_steps_def
  using assms
  by (auto intro!: wp_call wp_emit_event wp_call_sync wp_start_candidate wp_finalize
      simp: running_def dinv_def unpublished_def)

lemma deployed_permit [simp]: "deployed r (w\<lparr>dw_build_permit := b\<rparr>) = deployed r w"
  by (cases "(r, w)" rule: deployed.cases) (simp_all add: running_def dinv_def)

lemma wp_deploy_inner:
  assumes "unpublished w"
    and "\<And>a w'. deployed (Ready (Inr a)) w' \<Longrightarrow> Q (Ready (Inr a)) w'" "\<And>e w'. deployed (Ready (Inl e)) w' \<Longrightarrow> Q (Ready (Inl e)) w'"
      "\<And>w'. deployed Cut w' \<Longrightarrow> Q Cut w'"
  shows "wp (deploy_inner X R q ws img container applied timeouts) Q w"
  using wp_deploy_steps [OF assms(1), of X R q ws img container applied timeouts] assms(2-)
  by (cases "deploy_steps X R q ws img container applied timeouts w" rule: fut_cases)
    (simp_all add: wp_def deploy_inner_def del: deployed.simps)

text \<open>How a deployment ends once its checkout has succeeded.\<close>

fun concluded :: "(RuntimeError, json) fut \<Rightarrow> 'w dworld \<Rightarrow> bool" where
  "concluded (Ready (Inr _)) w \<longleftrightarrow> dinv w \<and> did S_Activate w \<and> attempted S_CleanupWorkspace w"
| "concluded (Ready (Inl e)) w \<longleftrightarrow> dinv w \<and> attempted S_CleanupWorkspace w
     \<and> (did S_Activate w \<noteq> attempted S_CleanupCandidate w)
     \<and> (did S_Activate w \<longrightarrow> (S_CleanupPrevious, Failed) \<in> set (dw_calls w) \<or> (\<exists>m. e = Execution m))"
| "concluded Cut w \<longleftrightarrow> dinv w"

lemma wp_settle:
  assumes "running w" "if is_err result then did S_Activate w \<longrightarrow> (S_CleanupPrevious, Failed) \<in> set (dw_calls w) else did S_Activate w"
  shows "wp (settle_deployment X R q ws img container applied result) concluded w"
  unfolding settle_deployment_def
  using assms by (cases result) (auto intro!: wp_intro simp: running_def dinv_def split: sum.splits)

text \<open>The whole run: before the checkout nothing has to be undone.\<close>

fun run_post :: "(RuntimeError, json) fut \<Rightarrow> 'w dworld \<Rightarrow> bool" where
  "run_post r w \<longleftrightarrow> (if did S_Checkout w then concluded r w else lawful (dw_calls w) \<and> (\<forall>a. r \<noteq> Ready (Inr a)))"

lemma concluded_did: "concluded r w \<Longrightarrow> did S_Checkout w"
  by (cases "(r, w)" rule: concluded.cases) (simp_all add: dinv_def)

lemma wp_deployment_steps: "wp (deployment_steps X R q) run_post (fresh x)"
proof -
  have settle: "wp (settle_deployment X R q ws img container applied result) run_post w"
    if "running w" "if is_err result then did S_Activate w \<longrightarrow> (S_CleanupPrevious, Failed) \<in> set (dw_calls w) else did S_Activate w" for ws img container applied result and w :: "'a dworld"
    by (rule wp_mono [OF wp_settle [OF that]]) (simp add: concluded_did)
  show ?thesis
    unfolding deployment_steps_def ensure_workspace_capacity_def Let_def
    by (auto intro!: wp_alift wp_call wp_emit_event wp_deploy_inner settle
        simp: fresh_def unpublished_def running_def dinv_def attempted_def)
qed

lemma run_deployment_post:
  "run_post (fst (run_deployment X R q (fresh x))) (snd (run_deployment X R q (fresh x)))"
proof -
  have "run_post r (drop_owned w) = run_post r w" for r and w :: "'a dworld"
    by (cases "(r, w)" rule: concluded.cases) (simp_all add: drop_owned_def dinv_def attempted_def)
  with wp_deployment_steps [of X R q x] show ?thesis
    by (simp add: run_deployment_def wp_def split: prod.splits del: run_post.simps)
qed

text \<open>What a lawful sequence of calls says of any call in it.\<close>

lemma lawful_before:
  assumes "lawful cs" "(s, e) \<in> set cs" "\<And>ds. requires s ds \<Longrightarrow> c \<in> set ds"
  shows "c \<in> set cs"
proof -
  from assms(1,2) obtain i where "requires s (take i cs)" by (force simp: lawful_def in_set_conv_nth)
  with assms(3) show ?thesis by (meson in_set_takeD)
qed

lemma lawful_checkout:
  assumes "lawful cs"
  shows "(S_CleanupWorkspace, e) \<in> set cs \<Longrightarrow> (S_Checkout, Finished) \<in> set cs"
    and "(S_CleanupCandidate, e) \<in> set cs \<Longrightarrow> (S_Checkout, Finished) \<in> set cs"
    and "(S_Activate, e) \<in> set cs \<Longrightarrow> (S_Checkout, Finished) \<in> set cs"
    and "(S_Commit, e) \<in> set cs \<Longrightarrow> (S_Activate, Finished) \<in> set cs"
proof -
  note before = lawful_before [OF assms]
  show "(S_CleanupWorkspace, e) \<in> set cs \<Longrightarrow> (S_Checkout, Finished) \<in> set cs" by (erule before) simp
  show "(S_CleanupCandidate, e) \<in> set cs \<Longrightarrow> (S_Checkout, Finished) \<in> set cs" by (erule before) simp
  show "(S_Commit, e) \<in> set cs \<Longrightarrow> (S_Activate, Finished) \<in> set cs" by (erule before) simp
  assume "(S_Activate, e) \<in> set cs"
  then have "(S_Ready, Finished) \<in> set cs" by (rule before) simp
  then have "(S_Start, Finished) \<in> set cs" by (rule before) simp
  then have "(S_Build, Finished) \<in> set cs" by (rule before) simp
  then have "(S_BuildPermit, Finished) \<in> set cs" by (rule before) simp
  then show "(S_Checkout, Finished) \<in> set cs" by (rule before) simp
qed

lemma run_post_lawful: "run_post r w \<Longrightarrow> lawful (dw_calls w)"
  by (cases "(r, w)" rule: concluded.cases) (auto simp: dinv_def split: if_splits)



text \<open>The first of the checks that fails, if any.\<close>

definition deployment_refusal :: "'w docker_executor \<Rightarrow> DeployProjectRequest \<Rightarrow> RuntimeError option" where
  "deployment_refusal X q =
     (case (validate_payload (dx_url X) (dx_debug X) (dpq_payload q),
            resolve_timeouts (dx_timeout_safety X) (dp_timeouts (dpq_payload q)),
            ce_resolve_resources (dx_containers X) (dp_resources (dpq_payload q))) of
        (Inl e, _, _) \<Rightarrow> Some e
      | (_, Inl e, _) \<Rightarrow> Some e
      | (_, _, Inl e) \<Rightarrow> Some e
      | _ \<Rightarrow> None)"

text \<open>A deployment whose payload, timeouts, resources or source are refused has no effect at all: no
  service is called, nothing is reported, and the error is that of the first check that fails.\<close>

theorem refused_deployment_has_no_effect:
  assumes "deployment_refusal X q = Some e"
  shows "run_deployment X R q (fresh x) = (Ready (Inl e), fresh x)"
proof -
  have "deployment_steps X R q (fresh x) = (Ready (Inl e), fresh x)"
    using assms by (auto simp: deployment_refusal_def deployment_steps_def Let_def split: sum.splits)
  then show ?thesis by (simp add: run_deployment_def drop_owned_def fresh_def)
qed

subsection \<open>A concrete executor\<close>

text \<open>Services that all work, over any route manager.\<close>

definition demo_workload :: ManagedWorkload where
  "demo_workload =
     \<lparr>mw_container_id = ''c0ffee'', mw_status = ''Exited (1) 2 hours ago'', mw_project_id = 1, mw_deployment_id = 8,
      mw_domain = ''portfolio.run.staging.sakala.dev'', mw_port = 3000, mw_command_id = Some 4,
      mw_log_bounds = \<lparr>lb_max_line_length = None, lb_max_batch_lines = None, lb_max_total_bytes = None\<rparr>\<rparr>"

definition demo_engine :: "'w container_engine" where
  "demo_engine =
     \<lparr>ce_resolve_resources = resolve_resources default_resource_safety, ce_ensure_capacity = (\<lambda>_. aret ()),
      ce_detect_orphans = athrow (Container ''not listed''), ce_capacity = athrow (Container ''not listed''),
      ce_health_snapshot = aret [], ce_workload = (\<lambda>_ _. aret (Some demo_workload)), ce_restart = (\<lambda>_ _. aret ()),
      ce_stop = (\<lambda>_ _. aret ()), ce_start_existing = (\<lambda>_. aret ()), ce_remove = (\<lambda>_. aret ()), ce_start = (\<lambda>_. aret ()),
      ce_report_startup_logs = (\<lambda>_. aret ()), ce_start_log_follower = (\<lambda>_ _ _ w. (True, w)),
      ce_cleanup_previous = (\<lambda>_ _. aret ()), ce_cleanup_candidate = (\<lambda>_ _. aret ()),
      ce_detect_stale_images = (\<lambda>_. aret []), ce_cleanup_stale_images = (\<lambda>_. aret 0), ce_shutdown = id\<rparr>"

definition demo_executor :: "cut_cause \<Rightarrow> 'w route_manager \<Rightarrow> 'w docker_executor" where
  "demo_executor cause routes =
     \<lparr>dx_workspace = \<lparr>wm_checkout = (\<lambda>_ _. aret (workspace_new ''/var/lib/sakala/4'')), wm_cleanup = (\<lambda>_. aret ()),
        wm_cleanup_stale = (\<lambda>_. aret 0), wm_available_disk_bytes = aret 1000\<rparr>,
      dx_inspect = (\<lambda>_ _. athrow (Execution ''no inspector'')), dx_build = (\<lambda>_. aret Builder_Dockerfile),
      dx_containers = demo_engine, dx_wait_until_ready = (\<lambda>_. aret ()), dx_routes = routes,
      dx_timeout_safety = default_timeout_safety, dx_acquire_build = aret (), dx_lock_admission = aret (),
      dx_max_concurrent_builds = 1, dx_workspace_gc_max_age = 0, dx_image_gc_max_age = 0,
      dx_min_workspace_free_bytes = 100, dx_uuid_str = uuid_hyphenated, dx_url = github_parser, dx_debug = id,
      dx_ser = \<lparr>se_limits = (\<lambda>_. JNull), se_applied = (\<lambda>_. JNull), se_builder = (\<lambda>_. JNull),
        se_inspection = (\<lambda>_. Inr JNull), se_deploy_result = (\<lambda>_. Inr JNull)\<rparr>,
      dx_cause = (\<lambda>_. cause)\<rparr>"

definition demo_reporter :: "'w reporter" where
  "demo_reporter = \<lparr>rep_event = (\<lambda>_ w. (Ready (Inr ()), w)), rep_log = (\<lambda>_ w. (Ready (Inr ()), w)), rep_commit = (\<lambda>_ w. w),
     rep_now = (\<lambda>_. 0)\<rparr>"

definition demo_request :: DeployProjectRequest where
  "demo_request = \<lparr>dpq_command_id = 4, dpq_project_id = 1, dpq_deployment_id = 8, dpq_payload = example_payload,
     dpq_repository_credential = None\<rparr>"

definition demo_routes :: "'w route_manager" where
  "demo_routes = \<lparr>rm_discover_stale_routes = (\<lambda>_. aret []), rm_activate = (\<lambda>_. aret ()), rm_deactivate = (\<lambda>_. aret True),
     rm_cleanup_stale_routes = (\<lambda>_. aret 0)\<rparr>"

definition portless_request :: DeployProjectRequest where
  "portless_request = demo_request\<lparr>dpq_payload := example_payload\<lparr>dp_container_port := 0\<rparr>\<rparr>"

theorem refused_deployment_has_no_effect_witness:
  "run_deployment (demo_executor By_Caller demo_routes) demo_reporter portless_request (fresh ())
     = (Ready (Inl (InvalidCommand ''container_port must be greater than zero'')), fresh ())"
proof (rule refused_deployment_has_no_effect)
  show "deployment_refusal (demo_executor By_Caller (demo_routes :: unit route_manager)) portless_request
      = Some (InvalidCommand ''container_port must be greater than zero'')"
    by code_simp
qed

end
