(* ===== verification/Lifecycle.thy ===== *)
theory Lifecycle
  imports Deployment
begin

text \<open>
  The rest of the Docker executor (\<^verbatim>\<open>executor/docker.rs\<close>): project inspection, the lifecycle commands of
  a workload, reconciliation, recovery after a restart of the agent, approved cleanup and the preflight
  checks. The world and the recorded calls are those of \<open>Deployment\<close>. \<open>cancelled k\<close> is what the
  cancellation token says the \<open>k\<close>-th time a loop asks it.
\<close>

subsection \<open>Inspection\<close>

text \<open>The \<^verbatim>\<open>select!\<close> here owns the inspection, so a cancelled one is dropped at once.\<close>

definition select_inspection :: "'w docker_executor \<Rightarrow> ('w dworld, 'a) async \<Rightarrow> ('w dworld, RuntimeError + 'a) async" where
  "select_inspection X m w =
     (case m w of
        (Ready r, w') \<Rightarrow> (Ready (Inr r), w')
      | (Cut, w') \<Rightarrow> if cause_of X w' = By_Cancel then (Ready (Inr (Inl Cancelled)), w') else (Cut, w'))"

definition run_inspection :: "'w docker_executor \<Rightarrow> 'w reporter \<Rightarrow> InspectProjectRequest \<Rightarrow> ('w dworld, json) async" where
  "run_inspection X R q =
     abind (alift (inspection_source (dx_url X) (ipr_payload q) (ipr_repository_credential q))) (\<lambda>source.
     abind (emit_event R ''project.inspection.started'' ''Checking out repository for project preview.''
       (JObject [(''commit_sha'', JString (src_commit_sha source))])) (\<lambda>_.
     abind (call S_Checkout (wm_checkout (dx_workspace X) (ipr_command_id q) source)) (\<lambda>ws.
     abind (select_inspection X (call S_Inspect (dx_inspect X ws (without_credential source)))) (\<lambda>result.
     abind (atry (call S_CleanupWorkspace (wm_cleanup (dx_workspace X) ws))) (\<lambda>cleanup.
     abind (alift result) (\<lambda>inspection.
     abind (alift cleanup) (\<lambda>_.
     abind (emit_event R ''project.inspection.completed'' ''Project stack preview is ready.''
       (JObject [(''dockerfile_found'', JBool (pi_dockerfile_found inspection)),
          (''package_manager'', jstr (pi_package_manager inspection))])) (\<lambda>_.
     case se_inspection (dx_ser X) inspection of
       Inl error \<Rightarrow> athrow (Execution (''failed to serialize project inspection: '' @ error))
     | Inr v \<Rightarrow> aret v))))))))"

subsection \<open>Lifecycle commands\<close>

definition find_workload :: "'w docker_executor \<Rightarrow> uuid \<Rightarrow> uuid \<Rightarrow> ('w dworld, ManagedWorkload option) async" where
  "find_workload X project deployment = call S_Workload (ce_workload (dx_containers X) project deployment)"

definition the_workload :: "'w docker_executor \<Rightarrow> WorkloadLifecycleRequest \<Rightarrow> ('w dworld, ManagedWorkload) async" where
  "the_workload X q =
     abind (find_workload X (wlr_project_id q) (wlr_deployment_id q)) (\<lambda>m. alift (ok_or m WorkloadNotFound))"

definition activate_workload :: "'w docker_executor \<Rightarrow> ManagedWorkload \<Rightarrow> ('w dworld, unit) async" where
  "activate_workload X m =
     abind (call S_Ready (dx_wait_until_ready X (mw_container_id m))) (\<lambda>_.
     call S_Activate (rm_activate (dx_routes X)
       \<lparr>rs_project_id = mw_project_id m, rs_deployment_id = mw_deployment_id m, rs_domain = mw_domain m,
        rs_upstream = container_name (dx_uuid_str X) (mw_project_id m) (mw_deployment_id m), rs_port = mw_port m\<rparr>))"

definition workload_ids :: "'w docker_executor \<Rightarrow> ManagedWorkload \<Rightarrow> json" where
  "workload_ids X m = JObject [(''project_id'', JString (dx_uuid_str X (mw_project_id m))),
     (''deployment_id'', JString (dx_uuid_str X (mw_deployment_id m)))]"

definition status_json :: "string \<Rightarrow> json" where
  "status_json s = JObject [(''status'', JString s)]"

definition run_restart :: "'w docker_executor \<Rightarrow> 'w reporter \<Rightarrow> WorkloadLifecycleRequest \<Rightarrow> ('w dworld, json) async" where
  "run_restart X R q =
     abind (the_workload X q) (\<lambda>m.
       if \<not> is_up m then athrow WorkloadNotRunning
       else
         abind (call S_Restart (ce_restart (dx_containers X) m 10)) (\<lambda>_.
         abind (activate_workload X m) (\<lambda>_.
         abind (emit_event R ''workload.restart.completed'' ''Workload restarted and route revalidated.'' (workload_ids X m)) (\<lambda>_.
         aret (status_json ''ready'')))))"

definition run_stop :: "'w docker_executor \<Rightarrow> 'w reporter \<Rightarrow> WorkloadLifecycleRequest \<Rightarrow> bool \<Rightarrow> ('w dworld, json) async" where
  "run_stop X R q remove =
     abind (find_workload X (wlr_project_id q) (wlr_deployment_id q)) (\<lambda>mo.
       case mo of
         None \<Rightarrow>
           if remove then
             abind (call S_Deactivate (rm_deactivate (dx_routes X)
               \<lparr>rid_project_id = wlr_project_id q, rid_deployment_id = Some (wlr_deployment_id q)\<rparr>)) (\<lambda>_.
             aret (status_json ''already_stopped''))
           else athrow WorkloadNotFound
       | Some m \<Rightarrow>
           abind (call S_Stop (ce_stop (dx_containers X) m 10)) (\<lambda>_.
           abind (call S_Deactivate (rm_deactivate (dx_routes X)
             \<lparr>rid_project_id = mw_project_id m, rid_deployment_id = Some (mw_deployment_id m)\<rparr>)) (\<lambda>_.
           abind (if remove then call S_Remove (ce_remove (dx_containers X) m) else aret ()) (\<lambda>_.
           abind (emit_event R
             (if remove then ''workload.stop.completed'' else ''workload.sleep.completed'')
             (if remove then ''Workload stopped and container removed; image is retained.''
              else ''Workload stopped for sleep; container and image are retained.'')
             (workload_ids X m)) (\<lambda>_.
           aret (status_json (if remove then ''stopped'' else ''sleeping'')))))))"

definition run_wake :: "'w docker_executor \<Rightarrow> 'w reporter \<Rightarrow> WorkloadLifecycleRequest \<Rightarrow> ('w dworld, json) async" where
  "run_wake X R q =
     abind (the_workload X q) (\<lambda>m.
     abind (call S_StartExisting (ce_start_existing (dx_containers X) m)) (\<lambda>_.
     abind (activate_workload X m) (\<lambda>_.
     abind (emit_event R ''workload.wake.completed'' ''Sleeping workload is ready and its route is restored.'' (workload_ids X m)) (\<lambda>_.
     aret (status_json ''ready'')))))"

definition run_health_check :: "'w docker_executor \<Rightarrow> WorkloadLifecycleRequest \<Rightarrow> ('w dworld, json) async" where
  "run_health_check X q =
     abind (the_workload X q) (\<lambda>m.
     abind (if is_up m then atry (call S_Ready (dx_wait_until_ready X (mw_container_id m)))
            else aret (Inl WorkloadNotRunning)) (\<lambda>readiness.
     aret (JObject [(''container_id'', JString (mw_container_id m)), (''running'', JBool (is_up m)),
       (''ready'', JBool (\<not> is_err readiness)), (''docker_status'', JString (mw_status m)),
       (''reason'', case readiness of Inl e \<Rightarrow> JString (runtime_error_text e) | Inr _ \<Rightarrow> JNull)])))"

definition run_refresh_route :: "'w docker_executor \<Rightarrow> WorkloadLifecycleRequest \<Rightarrow> ('w dworld, json) async" where
  "run_refresh_route X q =
     abind (the_workload X q) (\<lambda>m.
       if \<not> is_up m then athrow WorkloadNotRunning
       else abind (activate_workload X m) (\<lambda>_. aret (status_json ''ready'')))"

subsection \<open>Reconciliation\<close>

text \<open>The set of routes that must stay, as a list.\<close>

definition routable_routes :: "RuntimeReconciliationReport \<Rightarrow> RouteIdentity list" where
  "routable_routes rep =
     map (\<lambda>m. \<lparr>rid_project_id = wl_project_id m, rid_deployment_id = Some (wl_deployment_id m)\<rparr>)
       (filter (\<lambda>m. starts_with (to_ascii_lowercase (wl_status m)) ''up'') (rr_workloads rep))"

definition reconcile :: "'w docker_executor \<Rightarrow> ('w dworld, RuntimeReconciliationReport) async" where
  "reconcile X =
     abind (call S_DetectOrphans (ce_detect_orphans (dx_containers X))) (\<lambda>rep.
     abind (call S_StaleRoutes (rm_discover_stale_routes (dx_routes X) (routable_routes rep))) (\<lambda>routes.
     abind (call S_StaleImages (ce_detect_stale_images (dx_containers X) (dx_image_gc_max_age X))) (\<lambda>images.
     abind (call S_StaleWorkspaces (wm_cleanup_stale (dx_workspace X) (dx_workspace_gc_max_age X))) (\<lambda>cleaned.
     aret (rep\<lparr>rr_stale_routes := routes, rr_stale_images := images, rr_cleaned_workspaces := cleaned\<rparr>)))))"

definition compatibility_issue :: "RuntimeWorkload \<Rightarrow> string \<Rightarrow> RuntimeCompatibilityIssue" where
  "compatibility_issue d reason =
     \<lparr>ci_container_id = wl_container_id d, ci_project_id = wl_project_id d, ci_deployment_id = wl_deployment_id d,
      ci_reason = reason\<rparr>"

definition add_issue :: "RuntimeWorkload \<Rightarrow> string \<Rightarrow> RuntimeReconciliationReport \<Rightarrow> RuntimeReconciliationReport" where
  "add_issue d reason rep =
     rep\<lparr>rr_compatibility_issues := rr_compatibility_issues rep @ [compatibility_issue d reason]\<rparr>"

definition recover_workload :: "'w docker_executor \<Rightarrow> bool \<Rightarrow> RuntimeWorkload \<Rightarrow> RuntimeReconciliationReport
    \<Rightarrow> ('w dworld, RuntimeReconciliationReport) async" where
  "recover_workload X has_factory d rep =
     abind (atry (find_workload X (wl_project_id d) (wl_deployment_id d))) (\<lambda>mo.
       case mo of
         Inl error \<Rightarrow>
           aret (add_issue d (''managed workload metadata is incompatible with this Agent: '' @ runtime_error_text error
             @ ''; redeploy is required'') rep)
       | Inr None \<Rightarrow> aret rep
       | Inr (Some m) \<Rightarrow>
           (case mw_command_id m of
              None \<Rightarrow> aret (add_issue d ''managed workload predates recovery command-id labels; redeploy is required'' rep)
            | Some command_id \<Rightarrow>
                let rep' = rep\<lparr>rr_recovered_execution_records := rr_recovered_execution_records rep + 1\<rparr>
                in if \<not> is_up m \<or> \<not> has_factory then aret rep'
                   else
                     abind (call_sync S_Follower (ce_start_log_follower (dx_containers X) (mw_container_id m) command_id (mw_log_bounds m))) (\<lambda>started.
                     aret (if started
                           then rep'\<lparr>rr_reattached_log_followers := rr_reattached_log_followers rep' + 1\<rparr>
                           else rep'))))"

fun recover_all :: "'w docker_executor \<Rightarrow> bool \<Rightarrow> RuntimeWorkload list \<Rightarrow> RuntimeReconciliationReport
    \<Rightarrow> ('w dworld, RuntimeReconciliationReport) async" where
  "recover_all X has_factory [] rep = aret rep"
| "recover_all X has_factory (d # ds) rep =
     abind (recover_workload X has_factory d rep) (recover_all X has_factory ds)"

definition recover :: "'w docker_executor \<Rightarrow> bool \<Rightarrow> ('w dworld, RuntimeReconciliationReport) async" where
  "recover X has_factory =
     abind (reconcile X) (\<lambda>rep. recover_all X has_factory (rr_workloads rep) rep)"

definition executor_capacity :: "'w docker_executor \<Rightarrow> nat \<Rightarrow> ('w, RuntimeCapacity) async" where
  "executor_capacity X available_permits =
     abind (ce_capacity (dx_containers X)) (\<lambda>c.
     aret (c\<lparr>cap_active_builds := Some (dx_max_concurrent_builds X - available_permits),
       cap_maximum_concurrent_builds := Some (dx_max_concurrent_builds X)\<rparr>))"

fun actual_state :: "ManagedWorkload option \<Rightarrow> string" where
  "actual_state None = ''missing''"
| "actual_state (Some m) = (if is_up m then ''running'' else ''stopped'')"

fun desired_state_text :: "DesiredWorkloadState \<Rightarrow> string" where
  "desired_state_text Workload_Running = ''running''"
| "desired_state_text Workload_Stopped = ''stopped''"
| "desired_state_text Workload_Missing = ''missing''"

definition failed_candidate :: "ManagedWorkload \<Rightarrow> bool" where
  "failed_candidate m \<longleftrightarrow>
     (let status = to_ascii_lowercase (mw_status m)
      in starts_with status ''created'' \<or> starts_with status ''exited'' \<or> starts_with status ''dead'')"

fun reconcile_action :: "'w docker_executor \<Rightarrow> bool \<Rightarrow> ManagedWorkload \<Rightarrow> ReconcileWorkloadAction \<Rightarrow> ('w dworld, json) async" where
  "reconcile_action X has_factory m RestartLogFollower =
     (if \<not> is_up m then athrow WorkloadNotRunning
      else (case mw_command_id m of
          None \<Rightarrow> athrow (InvalidCommand ''managed workload predates recovery command-id labels; redeploy is required before its log follower can be restarted'')
        | Some command_id \<Rightarrow>
            if \<not> has_factory then athrow (InvalidCommand ''restart_log_follower requires a connected control plane reporter'')
            else
              abind (call_sync S_Follower (ce_start_log_follower (dx_containers X) (mw_container_id m) command_id (mw_log_bounds m))) (\<lambda>started.
              aret (JObject [(''action'', JString ''restart_log_follower''), (''started'', JBool started),
                (''command_id'', JString (dx_uuid_str X command_id))]))))"
| "reconcile_action X has_factory m CleanupFailedCandidate =
     (if \<not> failed_candidate m
      then athrow (InvalidCommand ''cleanup_failed_candidate requires a Created, Exited, or Dead workload'')
      else abind (call S_Remove (ce_remove (dx_containers X) m)) (\<lambda>_.
        aret (JObject [(''action'', JString ''cleanup_failed_candidate''), (''container_id'', JString (mw_container_id m))])))"
| "reconcile_action X has_factory m RestoreRoute =
     (if \<not> is_up m then athrow WorkloadNotRunning
      else abind (activate_workload X m) (\<lambda>_. aret (JObject [(''action'', JString ''restore_route'')])))"

fun reconcile_actions :: "'w docker_executor \<Rightarrow> bool \<Rightarrow> (nat \<Rightarrow> bool) \<Rightarrow> nat \<Rightarrow> ManagedWorkload option \<Rightarrow> ReconcileWorkloadAction list
    \<Rightarrow> json list \<Rightarrow> ('w dworld, json list) async" where
  "reconcile_actions X has_factory cancelled k mo [] applied = aret applied"
| "reconcile_actions X has_factory cancelled k mo (a # as) applied =
     (if cancelled k then athrow Cancelled
      else (case mo of
          None \<Rightarrow> athrow WorkloadNotFound
        | Some m \<Rightarrow>
            abind (reconcile_action X has_factory m a) (\<lambda>j.
            reconcile_actions X has_factory cancelled (Suc k) mo as (applied @ [j]))))"

definition reconcile_workload :: "'w docker_executor \<Rightarrow> (nat \<Rightarrow> bool) \<Rightarrow> ReconcileWorkloadRequest \<Rightarrow> ('w dworld, json) async" where
  "reconcile_workload X cancelled q =
     (if cancelled 0 then athrow Cancelled
      else
        abind (find_workload X (rwr_project_id q) (rwr_deployment_id q)) (\<lambda>mo.
        let actual = actual_state mo; desired = desired_state_text (rwr_desired_state q)
        in abind (reconcile_actions X (rwr_has_reporter_factory q) cancelled 1 mo (rwr_actions q) []) (\<lambda>applied.
           aret (JObject [(''desired_state'', JString desired), (''actual_state'', JString actual),
             (''in_sync'', JBool (desired = actual)),
             (''drift_reason'', if desired \<noteq> actual then JString ''workload_state_mismatch'' else JNull),
             (''container_id'', jstr (map_option mw_container_id mo)),
             (''actions_applied'', JArray applied)]))))"

subsection \<open>Approved cleanup\<close>

record cleanup_totals =
  ct_workspaces :: nat
  ct_image_bytes :: u64
  ct_routes :: nat

fun cleanup_target :: "'w docker_executor \<Rightarrow> RuntimeCleanupTarget \<Rightarrow> cleanup_totals \<Rightarrow> ('w dworld, cleanup_totals) async" where
  "cleanup_target X StaleWorkspaces t =
     abind (call S_StaleWorkspaces (wm_cleanup_stale (dx_workspace X) (dx_workspace_gc_max_age X))) (\<lambda>n.
     aret (t\<lparr>ct_workspaces := ct_workspaces t + n\<rparr>))"
| "cleanup_target X StaleImages t =
     abind (call S_CleanupImages (ce_cleanup_stale_images (dx_containers X) (dx_image_gc_max_age X))) (\<lambda>n.
     aret (t\<lparr>ct_image_bytes := ct_image_bytes t + n\<rparr>))"
| "cleanup_target X StaleRoutes t =
     abind (call S_DetectOrphans (ce_detect_orphans (dx_containers X))) (\<lambda>discovered.
     abind (call S_CleanupRoutes (rm_cleanup_stale_routes (dx_routes X) (routable_routes discovered))) (\<lambda>n.
     aret (t\<lparr>ct_routes := ct_routes t + n\<rparr>)))"

fun cleanup_targets :: "'w docker_executor \<Rightarrow> (nat \<Rightarrow> bool) \<Rightarrow> nat \<Rightarrow> RuntimeCleanupTarget list \<Rightarrow> cleanup_totals
    \<Rightarrow> ('w dworld, cleanup_totals) async" where
  "cleanup_targets X cancelled k [] t = aret t"
| "cleanup_targets X cancelled k (a # as) t =
     (if cancelled k then athrow Cancelled
      else abind (cleanup_target X a t) (cleanup_targets X cancelled (Suc k) as))"

definition cleanup_runtime :: "'w docker_executor \<Rightarrow> (nat \<Rightarrow> bool) \<Rightarrow> CleanupRuntimeRequest \<Rightarrow> ('w dworld, json) async" where
  "cleanup_runtime X cancelled q =
     (if \<not> crr_approved q then athrow (InvalidCommand ''runtime cleanup requires explicit approval'')
      else
        abind (cleanup_targets X cancelled 0 (crr_targets q) \<lparr>ct_workspaces = 0, ct_image_bytes = 0, ct_routes = 0\<rparr>) (\<lambda>t.
        aret (JObject [(''approved'', JBool True), (''cleaned_workspaces'', JInt (int (ct_workspaces t))),
          (''cleaned_routes'', JInt (int (ct_routes t))), (''reclaimed_image_bytes'', JInt (uint (ct_image_bytes t)))])))"

subsection \<open>Preflight\<close>

definition command_check :: "'w runner \<Rightarrow> string \<Rightarrow> CommandSpec \<Rightarrow> ('w, RuntimePreflightCheck) async" where
  "command_check run name command =
     abind (atry (run command null_sink)) (\<lambda>r.
     aret (case r of
        Inr out \<Rightarrow>
          if po_success out
          then \<lparr>pc_name = name, pc_fatal = True, pc_ready = True, pc_detail = trim (po_stdout out)\<rparr>
          else \<lparr>pc_name = name, pc_fatal = True, pc_ready = False, pc_detail = ''command exited with status '' @ status_debug (po_code out)\<rparr>
      | Inl error \<Rightarrow> \<lparr>pc_name = name, pc_fatal = True, pc_ready = False, pc_detail = runtime_error_text error\<rparr>))"

text \<open>\<open>mkdir\<close> is \<^verbatim>\<open>tokio::fs::create_dir_all\<close>; its error is its text.\<close>

definition directory_check :: "(string \<Rightarrow> 'w \<Rightarrow> (string, unit) fut \<times> 'w) \<Rightarrow> string \<Rightarrow> string \<Rightarrow> bool \<Rightarrow> ('w, RuntimePreflightCheck) async" where
  "directory_check mkdir name path fatal w =
     (case mkdir path w of
        (Ready (Inr _), w') \<Rightarrow> (Ready (Inr \<lparr>pc_name = name, pc_fatal = fatal, pc_ready = True, pc_detail = path\<rparr>), w')
      | (Ready (Inl e), w') \<Rightarrow>
          (Ready (Inr \<lparr>pc_name = name, pc_fatal = fatal, pc_ready = False, pc_detail = path @ '': '' @ e\<rparr>), w')
      | (Cut, w') \<Rightarrow> (Cut, w'))"

record docker_preflight =
  pf_workspace_root :: string
  pf_runtime_network :: string
  pf_caddy_sites_dir :: string
  pf_caddy_container :: string

definition preflight_commands :: "docker_preflight \<Rightarrow> (string \<times> CommandSpec) list" where
  "preflight_commands P =
     [(''git'', args [''--version''] (command_new ''git'')),
      (''docker'', args [''version'', ''--format'', ''{{.Server.Version}}''] (command_new ''docker'')),
      (''docker-buildx'', args [''buildx'', ''version''] (command_new ''docker'')),
      (''railpack'', args [''--version''] (command_new ''railpack'')),
      (''caddy-routing'', args [''inspect'', pf_caddy_container P] (command_new ''docker'')),
      (''runtime-network'', args [''network'', ''inspect'', pf_runtime_network P] (command_new ''docker'')),
      (''workspace-disk'', args [''-Pk'', pf_workspace_root P] (command_new ''df''))]"

fun command_checks :: "'w runner \<Rightarrow> (string \<times> CommandSpec) list \<Rightarrow> ('w, RuntimePreflightCheck list) async" where
  "command_checks run [] = aret []"
| "command_checks run ((name, command) # cs) =
     abind (command_check run name command) (\<lambda>c. abind (command_checks run cs) (\<lambda>rest. aret (c # rest)))"

definition preflight_run :: "'w runner \<Rightarrow> (string \<Rightarrow> 'w \<Rightarrow> (string, unit) fut \<times> 'w) \<Rightarrow> docker_preflight \<Rightarrow> ('w, RuntimePreflightCheck list) async" where
  "preflight_run run mkdir P =
     abind (command_checks run (preflight_commands P)) (\<lambda>checks.
     abind (directory_check mkdir ''workspace'' (pf_workspace_root P) True) (\<lambda>a.
     abind (directory_check mkdir ''caddy-sites'' (pf_caddy_sites_dir P) True) (\<lambda>b.
     aret (checks @ [a, b]))))"

subsection \<open>Order of the lifecycle commands\<close>

definition stepwise :: "svc list \<Rightarrow> (svc \<times> ending) list \<Rightarrow> bool" where
  "stepwise steps cs \<longleftrightarrow>
     map fst cs = take (length cs) steps \<and> list_all (\<lambda>c. snd c = Finished) (butlast cs)"

fun follows :: "svc list \<Rightarrow> (RuntimeError, json) fut \<Rightarrow> 'w dworld \<Rightarrow> bool" where
  "follows steps (Ready (Inr _)) w \<longleftrightarrow> dw_calls w = map (\<lambda>s. (s, Finished)) steps"
| "follows steps _ w \<longleftrightarrow> stepwise steps (dw_calls w)"

lemmas run_defs = the_workload_def find_workload_def activate_workload_def

lemma wp_run_restart:
  "wp (run_restart X R q) (follows [S_Workload, S_Restart, S_Ready, S_Activate, S_Event ''workload.restart.completed'']) (fresh x)"
  unfolding run_restart_def run_defs
  by (auto intro!: wp_call wp_emit_event wp_alift simp: fresh_def stepwise_def)

lemma wp_run_wake:
  "wp (run_wake X R q) (follows [S_Workload, S_StartExisting, S_Ready, S_Activate, S_Event ''workload.wake.completed'']) (fresh x)"
  unfolding run_wake_def run_defs
  by (auto intro!: wp_call wp_emit_event wp_alift simp: fresh_def stepwise_def)

lemma wp_run_refresh: "wp (run_refresh_route X q) (follows [S_Workload, S_Ready, S_Activate]) (fresh x)"
  unfolding run_refresh_route_def run_defs
  by (auto intro!: wp_call wp_alift simp: fresh_def stepwise_def)

lemma wp_run_sleep:
  "wp (run_stop X R q False) (follows [S_Workload, S_Stop, S_Deactivate, S_Event ''workload.sleep.completed'']) (fresh x)"
  unfolding run_stop_def run_defs
  by (auto intro!: wp_call wp_emit_event simp: fresh_def stepwise_def split: option.splits)

lemma wp_run_stop:
  "wp (run_stop X R q True)
     (\<lambda>r w. follows [S_Workload, S_Stop, S_Deactivate, S_Remove, S_Event ''workload.stop.completed''] r w
        \<or> follows [S_Workload, S_Deactivate] r w) (fresh x)"
  unfolding run_stop_def run_defs
  by (auto intro!: wp_call wp_emit_event simp: fresh_def stepwise_def split: option.splits)


subsection \<open>Inspection\<close>

fun inspected :: "'w docker_executor \<Rightarrow> (RuntimeError, json) fut \<Rightarrow> 'w dworld \<Rightarrow> bool" where
  "inspected X (Ready (Inr _)) w \<longleftrightarrow>
     dw_calls w = map (\<lambda>s. (s, Finished)) [S_Event ''project.inspection.started'', S_Checkout, S_Inspect, S_CleanupWorkspace,
       S_Event ''project.inspection.completed'']"
| "inspected X (Ready (Inl _)) w \<longleftrightarrow> (did S_Checkout w \<longleftrightarrow> attempted S_CleanupWorkspace w)"
| "inspected X Cut w \<longleftrightarrow> True"

lemma wp_select_inspection:
  assumes "\<And>a y. Q (Ready (Inr (Inr a))) (logged s Finished y w)" "\<And>e y. Q (Ready (Inr (Inl e))) (logged s Failed y w)"
    "\<And>y. Q (Ready (Inr (Inl Cancelled))) (logged s Dropped_Midway y w)" "\<And>y. Q Cut (logged s Dropped_Midway y w)"
  shows "wp (select_inspection X (call s m)) Q w"
  using assms by (cases "m (dw_env w)" rule: fut_cases) (simp_all add: wp_def select_inspection_def call_def)

text \<open>An inspection that returns has cleaned up its workspace exactly if it had checked one out, also when
  it failed or was cancelled, and it reports success only if checkout, inspection and cleanup all worked.\<close>

theorem inspection_cleans_up:
  "case run_inspection X R q (fresh x) of (r, w) \<Rightarrow> inspected X r w"
proof -
  have "wp (run_inspection X R q) (inspected X) (fresh x)"
    unfolding run_inspection_def
    by (auto intro!: wp_call wp_emit_event wp_alift wp_select_inspection simp: fresh_def attempted_def split: sum.splits)
  then show ?thesis by (simp add: wp_def)
qed

subsection \<open>Reconciliation and recovery\<close>

lemma up_not_failed: "is_up m \<Longrightarrow> \<not> failed_candidate m"
  by (cases "to_ascii_lowercase (mw_status m)") (auto simp: is_up_def failed_candidate_def starts_with_def Let_def)

text \<open>What a reconciliation may have called, for a workload in the given state.\<close>

definition respectful :: "ManagedWorkload \<Rightarrow> 'w dworld \<Rightarrow> bool" where
  "respectful m w \<longleftrightarrow>
     (attempted S_Remove w \<longrightarrow> failed_candidate m \<and> \<not> is_up m)
     \<and> (attempted S_Activate w \<or> attempted S_Ready w \<or> attempted S_Follower w \<longrightarrow> is_up m)"

lemma wp_reconcile_action:
  assumes "respectful m w" "\<And>r w'. respectful m w' \<Longrightarrow> Q (Ready r) w'" "\<And>w'. respectful m w' \<Longrightarrow> Q Cut w'"
  shows "wp (reconcile_action X has_factory m a) Q w"
  using assms(1) up_not_failed [of m]
  by (cases a) (auto intro!: wp_call wp_call_sync assms(2,3) simp: respectful_def activate_workload_def split: option.splits)

lemma wp_reconcile_actions:
  "respectful m w \<Longrightarrow> wp (reconcile_actions X has_factory cancelled k (Some m) as applied) (\<lambda>_. respectful m) w"
proof (induction as arbitrary: k applied w)
  case (Cons a as)
  have "wp (reconcile_action X has_factory m a)
      (wp_then (\<lambda>j. reconcile_actions X has_factory cancelled (Suc k) (Some m) as (applied @ [j])) (\<lambda>_. respectful m)) w"
    by (rule wp_mono [OF wp_reconcile_action [where Q = "\<lambda>_. respectful m"]], rule Cons.prems)
      (auto intro: wp_then_cases Cons.IH)
  with Cons.prems show ?case by simp
qed simp

text \<open>Reconciling a workload respects the state it was found in, whatever list of actions the control
  plane sends and whenever it is cancelled: a container is removed only if it was created, exited or
  dead, never if it is up; a route is restored and a log follower attached only if it is up; and if there
  is no such workload nothing at all is done to the host.\<close>

theorem reconcile_respects_state:
  assumes "ce_workload (dx_containers X) (rwr_project_id q) (rwr_deployment_id q) x = (Ready (Inr mo), y)"
  shows "case reconcile_workload X cancelled q (fresh x) of (r, w) \<Rightarrow>
    (case mo of
       None \<Rightarrow> dw_env w = (if cancelled 0 then x else y) \<and> (\<forall>c\<in>set (dw_calls w). fst c = S_Workload)
     | Some m \<Rightarrow> respectful m w)"
proof -
  let ?w = "logged S_Workload Finished y (fresh x)"
  have find: "find_workload X (rwr_project_id q) (rwr_deployment_id q) (fresh x) = (Ready (Inr mo), ?w)"
    using assms by (simp add: find_workload_def call_def fresh_def)
  show ?thesis
  proof (cases "cancelled 0")
    case True
    then show ?thesis
      by (auto simp: reconcile_workload_def respectful_def attempted_def fresh_def split: option.splits)
  next
    case ok: False
    show ?thesis
    proof (cases mo)
      case None
      have "reconcile_actions X h cancelled 1 None as [] w = (Ready (Inr []), w) \<and> as = []
          \<or> (\<exists>e. reconcile_actions X h cancelled 1 None as [] w = (Ready (Inl e), w))" for h as and w :: "'a dworld"
        by (cases as) auto
      from this [of "rwr_has_reporter_factory q" "rwr_actions q" ?w] ok None find show ?thesis
        by (auto simp: reconcile_workload_def Let_def logged_def fresh_def)
    next
      case (Some m)
      have "respectful m ?w" by (simp add: respectful_def) (simp add: attempted_def fresh_def)
      from wp_reconcile_actions [OF this, of X "rwr_has_reporter_factory q" cancelled 1 "rwr_actions q" "[]"]
      have "wp (reconcile_actions X (rwr_has_reporter_factory q) cancelled 1 mo (rwr_actions q) []) (\<lambda>_. respectful m) ?w"
        by (simp add: Some)
      with ok Some find show ?thesis
        by (cases "reconcile_actions X (rwr_has_reporter_factory q) cancelled 1 mo (rwr_actions q) [] ?w" rule: fut_cases)
          (auto simp: reconcile_workload_def wp_def Let_def)
    qed
  qed
qed

definition remove_request :: ReconcileWorkloadRequest where
  "remove_request = \<lparr>rwr_project_id = 1, rwr_deployment_id = 8, rwr_desired_state = Workload_Missing,
     rwr_actions = [CleanupFailedCandidate, RestoreRoute], rwr_has_reporter_factory = False\<rparr>"

theorem reconcile_respects_state_witness:
  "case reconcile_workload (demo_executor By_Caller demo_routes) (\<lambda>_. False) remove_request (fresh ()) of (r, w) \<Rightarrow>
     respectful demo_workload w \<and> r = Ready (Inl WorkloadNotRunning)
     \<and> dw_calls w = [(S_Workload, Finished), (S_Remove, Finished)]"
proof -
  let ?X = "demo_executor By_Caller (demo_routes :: unit route_manager)"
  have run: "reconcile_workload ?X (\<lambda>_. False) remove_request (fresh ()) =
      (Ready (Inl WorkloadNotRunning), (fresh ())\<lparr>dw_calls := [(S_Workload, Finished), (S_Remove, Finished)]\<rparr>)"
    by code_simp
  have "ce_workload (dx_containers ?X) (rwr_project_id remove_request) (rwr_deployment_id remove_request) () =
      (Ready (Inr (Some demo_workload)), ())"
    by (simp add: demo_executor_def demo_engine_def)
  from reconcile_respects_state [OF this, of "\<lambda>_. False"] show ?thesis by (simp add: run)
qed

text \<open>One workload of a recovery is counted at most once, and a log follower only for a counted one.\<close>

definition accounts :: "nat \<Rightarrow> RuntimeReconciliationReport \<Rightarrow> RuntimeReconciliationReport \<Rightarrow> bool" where
  "accounts n rep rep' \<longleftrightarrow>
     rr_recovered_execution_records rep \<le> rr_recovered_execution_records rep'
     \<and> length (rr_compatibility_issues rep) \<le> length (rr_compatibility_issues rep')
     \<and> rr_reattached_log_followers rep \<le> rr_reattached_log_followers rep'
     \<and> rr_reattached_log_followers rep' + rr_recovered_execution_records rep
         \<le> rr_reattached_log_followers rep + rr_recovered_execution_records rep'
     \<and> rr_recovered_execution_records rep' + length (rr_compatibility_issues rep')
         \<le> rr_recovered_execution_records rep + length (rr_compatibility_issues rep) + n
     \<and> rr_workloads rep' = rr_workloads rep \<and> rr_orphans rep' = rr_orphans rep"

lemma accounts_trans: "accounts m rep rep' \<Longrightarrow> accounts n rep' rep'' \<Longrightarrow> accounts (m + n) rep rep''"
  unfolding accounts_def by auto

definition looked :: "'w dworld \<Rightarrow> 'w dworld \<Rightarrow> bool" where
  "looked w w' \<longleftrightarrow> (\<exists>cs. dw_calls w' = dw_calls w @ cs \<and> set (map fst cs) \<subseteq> {S_Workload, S_Follower})"

fun recovered :: "nat \<Rightarrow> RuntimeReconciliationReport \<Rightarrow> 'w dworld \<Rightarrow> (RuntimeError, RuntimeReconciliationReport) fut \<Rightarrow> 'w dworld \<Rightarrow> bool" where
  "recovered n rep w (Ready (Inr rep')) w' \<longleftrightarrow> looked w w' \<and> accounts n rep rep'"
| "recovered n rep w (Ready (Inl _)) w' \<longleftrightarrow> False"
| "recovered n rep w Cut w' \<longleftrightarrow> looked w w'"

lemma accounts_steps:
  "accounts (Suc 0) rep rep" "accounts (Suc 0) rep (add_issue d r rep)"
  "accounts (Suc 0) rep (rep\<lparr>rr_recovered_execution_records := Suc (rr_recovered_execution_records rep)\<rparr>)"
  "accounts (Suc 0) rep (rep\<lparr>rr_recovered_execution_records := Suc (rr_recovered_execution_records rep),
     rr_reattached_log_followers := Suc (rr_reattached_log_followers rep)\<rparr>)"
  by (auto simp: accounts_def add_issue_def)

lemma wp_recover_workload: "wp (recover_workload X f d rep) (recovered (Suc 0) rep w) w"
  unfolding recover_workload_def find_workload_def
  by (auto intro!: wp_call wp_call_sync accounts_steps simp: looked_def Let_def split: sum.splits option.splits)

lemma looked_trans: "looked w w' \<Longrightarrow> looked w' w'' \<Longrightarrow> looked w w''"
  unfolding looked_def by (metis append.assoc map_append set_append Un_subset_iff)

lemma wp_recover_all: "wp (recover_all X f ds rep) (recovered (length ds) rep w) w"
proof (induction ds arbitrary: rep w)
  case Nil
  then show ?case by (simp add: wp_def looked_def accounts_def)
next
  case (Cons d ds)
  have next_one: "wp (recover_all X f ds rep') (recovered (Suc (length ds)) rep w) w'"
    if "recovered (Suc 0) rep w (Ready (Inr rep')) w'" for rep' w'
  proof (rule wp_mono [OF Cons.IH])
    fix r w'' assume "recovered (length ds) rep' w' r w''"
    with that show "recovered (Suc (length ds)) rep w r w''"
      using accounts_trans [of "Suc 0" rep rep' "length ds"] looked_trans [of w w' w'']
      by (cases "(length ds, rep', w', r, w'')" rule: recovered.cases) auto
  qed
  show ?case
    unfolding recover_all.simps wp_abind
  proof (rule wp_mono [OF wp_recover_workload])
    fix r w' assume "recovered (Suc 0) rep w r w'"
    then show "wp_then (recover_all X f ds) (recovered (length (d # ds)) rep w) r w'"
      using next_one by (cases "(Suc 0, rep, w, r, w')" rule: recovered.cases) auto
  qed
qed

text \<open>Recovery after a restart of the agent only looks at workloads and attaches log followers; it never
  fails on a single workload, counts each one at most once, as recovered or as incompatible, attaches at
  most one follower per recovered workload, and leaves the inventory as it was taken.\<close>

theorem recovery_only_observes:
  "case recover_all X f ds rep w of
     (Ready (Inr rep'), w') \<Rightarrow> looked w w' \<and> accounts (length ds) rep rep'
   | (Ready (Inl e), w') \<Rightarrow> False
   | (Cut, w') \<Rightarrow> looked w w'"
  using wp_recover_all [of X f ds rep w]
  by (cases "recover_all X f ds rep w" rule: fut_cases) (simp_all add: wp_def)

subsection \<open>Approved cleanup\<close>

fun target_services :: "RuntimeCleanupTarget \<Rightarrow> svc set" where
  "target_services StaleWorkspaces = {S_StaleWorkspaces}"
| "target_services StaleImages = {S_CleanupImages}"
| "target_services StaleRoutes = {S_DetectOrphans, S_CleanupRoutes}"

definition confined :: "svc set \<Rightarrow> 'w dworld \<Rightarrow> bool" where
  "confined S w \<longleftrightarrow> set (map fst (dw_calls w)) \<subseteq> S"

lemma wp_cleanup_target:
  assumes "confined S w" "target_services a \<subseteq> S"
    and "\<And>t w'. confined S w' \<Longrightarrow> Q (Ready (Inr t)) w'" "\<And>e w'. confined S w' \<Longrightarrow> Q (Ready (Inl e)) w'"
      "\<And>w'. confined S w' \<Longrightarrow> Q Cut w'"
  shows "wp (cleanup_target X a t) Q w"
  using assms(1,2) by (cases a) (auto intro!: wp_call assms(3-5) simp: confined_def)

lemma wp_cleanup_targets:
  "confined S w \<Longrightarrow> (\<forall>a\<in>set as. target_services a \<subseteq> S) \<Longrightarrow>
     wp (cleanup_targets X cancelled k as t) (\<lambda>_. confined S) w"
  by (induction as arbitrary: k t w) (auto intro!: wp_cleanup_target)

text \<open>Runtime cleanup without approval has no effect: it is refused before any service is called,
  whatever targets it names. An approved one calls only the services of its targets.\<close>

theorem cleanup_needs_approval:
  "case cleanup_runtime X cancelled q (fresh x) of (r, w) \<Rightarrow>
     if crr_approved q then set (map fst (dw_calls w)) \<subseteq> (\<Union>a\<in>set (crr_targets q). target_services a)
     else w = fresh x \<and> r = Ready (Inl (InvalidCommand ''runtime cleanup requires explicit approval''))"
proof (cases "crr_approved q")
  case True
  let ?S = "\<Union>a\<in>set (crr_targets q). target_services a"
  let ?t = "\<lparr>ct_workspaces = 0, ct_image_bytes = 0, ct_routes = 0\<rparr>"
  have "wp (cleanup_targets X cancelled 0 (crr_targets q) ?t) (\<lambda>_. confined ?S) (fresh x)"
    by (rule wp_cleanup_targets) (auto simp: confined_def fresh_def)
  with True show ?thesis
    by (cases "cleanup_targets X cancelled 0 (crr_targets q) ?t (fresh x)" rule: fut_cases)
      (auto simp: cleanup_runtime_def wp_def confined_def)
qed (simp add: cleanup_runtime_def)

end
