(* ===== verification/Host_Files.thy ===== *)
theory Host_Files
  imports Runtime_Services
begin

text \<open>
  The part of the host the services of \<^verbatim>\<open>sakala-agent-runtime\<close> work on beside the sites directory: the
  file system under the workspace root, as \<^verbatim>\<open>tokio::fs\<close> shows it, the clock, and the tasks that follow
  container logs. Docker, git and railpack run in the same world: what a command does to it is up to the
  \<open>runner\<close> a theorem is stated for.

  A path is its text and names its entry directly; a symbolic link as the last component is followed
  where the system follows it, at most forty times. As for the sites directory, every operation is one
  step of an I/O clock, \<open>hf_fault\<close> says of each step whether it works, fails after some part of its work,
  or is cut because its future is dropped; a cut one may still be carried out by its thread.
\<close>

datatype hnode = HFile string nat | HDir nat timestamp | HLink string

type_synonym files = "(string \<times> hnode) list"

datatype host_fault = H_Ok | H_Fail string nat | H_Cut bool

text \<open>\<open>hw_followers\<close> is the map \<^verbatim>\<open>log_followers\<close> of the container engine: the container, and whether its
  task has ended. \<open>hw_spawned\<close> lists the follower tasks that were started, with the command and the bounds of the
  reporter each writes to, \<open>hw_aborted\<close> the containers whose task was aborted.\<close>

record 'x host_world =
  hw_files :: files
  hw_io :: nat
  hw_now :: timestamp
  hw_followers :: "(string \<times> bool) list"
  hw_spawned :: "(uuid \<times> LogBounds \<times> CommandSpec) list"
  hw_aborted :: "string list"
  hw_env :: 'x

record host_env =
  hf_fault :: "nat \<Rightarrow> host_fault"
  hf_uuid_str :: "uuid \<Rightarrow> string"
  hf_uuid_parse :: "string \<Rightarrow> uuid option"

type_synonym ('x, 'a) hio = "'x host_world \<Rightarrow> (io_error, 'a) fut \<times> 'x host_world"

definition host_step :: "host_env \<Rightarrow> (files \<Rightarrow> io_error + 'a \<times> files) \<Rightarrow> (nat \<Rightarrow> files \<Rightarrow> files) \<Rightarrow> ('x, 'a) hio" where
  "host_step H work part w =
     (let w' = w\<lparr>hw_io := Suc (hw_io w)\<rparr>
      in case hf_fault H (hw_io w) of
           H_Ok \<Rightarrow>
             (case work (hw_files w) of
                Inl e \<Rightarrow> (Ready (Inl e), w')
              | Inr (x, fs) \<Rightarrow> (Ready (Inr x), w'\<lparr>hw_files := fs\<rparr>))
         | H_Fail e n \<Rightarrow> (Ready (Inl (Other_Io e)), w'\<lparr>hw_files := part n (hw_files w)\<rparr>)
         | H_Cut carried_out \<Rightarrow>
             (Cut, (case work (hw_files w) of
                      Inr (x, fs) \<Rightarrow> if carried_out then w'\<lparr>hw_files := fs\<rparr> else w'
                    | Inl e \<Rightarrow> w')))"

definition no_part :: "nat \<Rightarrow> files \<Rightarrow> files" where
  "no_part n fs = fs"

subsection \<open>Paths and entries\<close>

text \<open>\<^verbatim>\<open>Path::join\<close>.\<close>

definition path_join :: "string \<Rightarrow> string \<Rightarrow> string" where
  "path_join a b =
     (if starts_with b ''/'' \<or> a = [] then b else if ends_with a ''/'' then a @ b else a @ ''/'' @ b)"

definition below :: "string \<Rightarrow> string \<Rightarrow> bool" where
  "below p q \<longleftrightarrow> starts_with q (p @ ''/'')"

text \<open>The directories on the way to a path, the path last.\<close>

fun path_steps :: "string \<Rightarrow> string \<Rightarrow> string list" where
  "path_steps seen [] = (if seen = [] then [] else [seen])"
| "path_steps seen (c # cs) =
     (if c = CHR ''/'' \<and> seen \<noteq> [] then seen # path_steps (seen @ [c]) cs else path_steps (seen @ [c]) cs)"

fun follow :: "nat \<Rightarrow> files \<Rightarrow> string \<Rightarrow> string option" where
  "follow 0 fs p = None"
| "follow (Suc n) fs p =
     (case map_of fs p of
        Some (HLink t) \<Rightarrow> follow n fs t
      | Some _ \<Rightarrow> Some p
      | None \<Rightarrow> None)"

definition resolve :: "files \<Rightarrow> string \<Rightarrow> string option" where
  "resolve fs p = follow 41 fs p"

fun is_dir_node :: "hnode \<Rightarrow> bool" where
  "is_dir_node (HDir _ _) = True"
| "is_dir_node _ = False"

subsection \<open>Operations\<close>

definition do_remove_tree :: "string \<Rightarrow> files \<Rightarrow> files" where
  "do_remove_tree p fs = filter (\<lambda>(q, _). q \<noteq> p \<and> \<not> below p q) fs"

text \<open>A removal that stops half-way has removed some of what is below the directory.\<close>

fun remove_some :: "nat \<Rightarrow> string \<Rightarrow> files \<Rightarrow> files" where
  "remove_some n p [] = []"
| "remove_some 0 p fs = fs"
| "remove_some (Suc n) p ((q, x) # fs) =
     (if below p q then remove_some n p fs else (q, x) # remove_some (Suc n) p fs)"

definition fs_remove_dir_all :: "host_env \<Rightarrow> string \<Rightarrow> ('x, unit) hio" where
  "fs_remove_dir_all H p =
     host_step H
       (\<lambda>fs. case map_of fs p of
          None \<Rightarrow> Inl NotFound
        | Some (HFile _ _) \<Rightarrow> Inl (Other_Io ''Not a directory (os error 20)'')
        | Some (HLink _) \<Rightarrow> Inr ((), filter (\<lambda>(q, _). q \<noteq> p) fs)
        | Some (HDir _ _) \<Rightarrow> Inr ((), do_remove_tree p fs))
       (\<lambda>n. remove_some n p)"

fun make_dirs :: "timestamp \<Rightarrow> string list \<Rightarrow> files \<Rightarrow> io_error + unit \<times> files" where
  "make_dirs now [] fs = Inr ((), fs)"
| "make_dirs now (p # ps) fs =
     (case resolve fs p of
        None \<Rightarrow>
          if map_of fs p = None then make_dirs now ps (fs @ [(p, HDir 493 now)])
          else Inl (Other_Io ''File exists (os error 17)'')
      | Some t \<Rightarrow>
          (case map_of fs t of
             Some (HDir _ _) \<Rightarrow> make_dirs now ps fs
           | _ \<Rightarrow> Inl (Other_Io ''Not a directory (os error 20)'')))"

definition host_create_dir_all :: "host_env \<Rightarrow> string \<Rightarrow> ('x, unit) hio" where
  "host_create_dir_all H p w = host_step H (make_dirs (hw_now w) (path_steps [] p)) no_part w"

definition fs_try_exists :: "host_env \<Rightarrow> string \<Rightarrow> ('x, bool) hio" where
  "fs_try_exists H p = host_step H (\<lambda>fs. Inr (resolve fs p \<noteq> None, fs)) no_part"

fun with_mode :: "nat \<Rightarrow> hnode \<Rightarrow> hnode" where
  "with_mode m (HFile c _) = HFile c m"
| "with_mode m (HDir _ t) = HDir m t"
| "with_mode m (HLink t) = HLink t"

definition fs_set_permissions :: "host_env \<Rightarrow> string \<Rightarrow> nat \<Rightarrow> ('x, unit) hio" where
  "fs_set_permissions H p mode =
     host_step H
       (\<lambda>fs. case resolve fs p of
          None \<Rightarrow> Inl NotFound
        | Some t \<Rightarrow> (case map_of fs t of None \<Rightarrow> Inl NotFound | Some x \<Rightarrow> Inr ((), AList.update t (with_mode mode x) fs)))
       no_part"

text \<open>\<^verbatim>\<open>fs::write\<close>: creates the file, mode 0644 under the usual mask, or replaces the content of the one there.\<close>

definition put_content :: "string \<Rightarrow> string \<Rightarrow> files \<Rightarrow> io_error + unit \<times> files" where
  "put_content p c fs =
     (case map_of fs p of
        None \<Rightarrow> Inr ((), AList.update p (HFile c 420) fs)
      | Some _ \<Rightarrow>
          (case resolve fs p of
             None \<Rightarrow> Inl NotFound
           | Some t \<Rightarrow>
               (case map_of fs t of
                  Some (HFile _ m) \<Rightarrow> Inr ((), AList.update t (HFile c m) fs)
                | _ \<Rightarrow> Inl (Other_Io ''Is a directory (os error 21)''))))"

definition host_write :: "host_env \<Rightarrow> string \<Rightarrow> string \<Rightarrow> ('x, unit) hio" where
  "host_write H p c =
     host_step H (put_content p c)
       (\<lambda>n fs. case put_content p (take n c) fs of Inr (_, fs') \<Rightarrow> fs' | Inl _ \<Rightarrow> fs)"

text \<open>\<^verbatim>\<open>OpenOptions\<close> with \<^verbatim>\<open>create_new\<close> and a mode; and a write through the handle it gives.\<close>

definition fs_create_new :: "host_env \<Rightarrow> string \<Rightarrow> nat \<Rightarrow> ('x, unit) hio" where
  "fs_create_new H p mode =
     host_step H
       (\<lambda>fs. if map_of fs p = None then Inr ((), AList.update p (HFile [] mode) fs)
             else Inl (Other_Io ''File exists (os error 17)''))
       no_part"

definition append_content :: "string \<Rightarrow> string \<Rightarrow> files \<Rightarrow> files" where
  "append_content p c fs =
     (case map_of fs p of Some (HFile old m) \<Rightarrow> AList.update p (HFile (old @ c) m) fs | _ \<Rightarrow> fs)"

definition fs_write_all :: "host_env \<Rightarrow> string \<Rightarrow> string \<Rightarrow> ('x, unit) hio" where
  "fs_write_all H p c =
     host_step H (\<lambda>fs. Inr ((), append_content p c fs)) (\<lambda>n. append_content p (take n c))"

definition fs_flush :: "host_env \<Rightarrow> ('x, unit) hio" where
  "fs_flush H = host_step H (\<lambda>fs. Inr ((), fs)) no_part"

definition host_remove_file :: "host_env \<Rightarrow> string \<Rightarrow> ('x, unit) hio" where
  "host_remove_file H p =
     host_step H
       (\<lambda>fs. case map_of fs p of
          None \<Rightarrow> Inl NotFound
        | Some (HDir _ _) \<Rightarrow> Inl (Other_Io ''Is a directory (os error 21)'')
        | Some _ \<Rightarrow> Inr ((), filter (\<lambda>(q, _). q \<noteq> p) fs))
       no_part"

definition file_content :: "files \<Rightarrow> string \<Rightarrow> io_error + string" where
  "file_content fs p =
     (case resolve fs p of
        None \<Rightarrow> Inl NotFound
      | Some t \<Rightarrow>
          (case map_of fs t of
             Some (HFile c _) \<Rightarrow> Inr c
           | _ \<Rightarrow> Inl (Other_Io ''Is a directory (os error 21)'')))"

definition host_read :: "host_env \<Rightarrow> string \<Rightarrow> ('x, string) hio" where
  "host_read H p =
     host_step H (\<lambda>fs. case file_content fs p of Inl e \<Rightarrow> Inl e | Inr c \<Rightarrow> Inr (c, fs)) no_part"

text \<open>The length \<^verbatim>\<open>fs::metadata\<close> gives; that of a directory is up to the file system.\<close>

definition fs_metadata_len :: "host_env \<Rightarrow> (string \<Rightarrow> nat) \<Rightarrow> string \<Rightarrow> ('x, nat) hio" where
  "fs_metadata_len H dir_len p =
     host_step H
       (\<lambda>fs. case resolve fs p of
          None \<Rightarrow> Inl NotFound
        | Some t \<Rightarrow> (case map_of fs t of Some (HFile c _) \<Rightarrow> Inr (length c, fs) | _ \<Rightarrow> Inr (dir_len t, fs)))
       no_part"

text \<open>The entries of a directory: their names, in the order the system gives them.\<close>

definition child_name :: "string \<Rightarrow> string \<Rightarrow> string option" where
  "child_name p q =
     (case strip_prefix q (p @ ''/'') of
        None \<Rightarrow> None
      | Some n \<Rightarrow> if n = [] \<or> CHR ''/'' \<in> set n then None else Some n)"

definition entries_of :: "string \<Rightarrow> files \<Rightarrow> (string \<times> hnode) list" where
  "entries_of p fs = List.map_filter (\<lambda>(q, x). map_option (\<lambda>n. (n, x)) (child_name p q)) fs"

definition host_read_dir :: "host_env \<Rightarrow> string \<Rightarrow> ('x, (string \<times> hnode) list) hio" where
  "host_read_dir H p =
     host_step H
       (\<lambda>fs. case resolve fs p of
          None \<Rightarrow> Inl NotFound
        | Some t \<Rightarrow>
            (case map_of fs t of
               Some (HDir _ _) \<Rightarrow> Inr (entries_of t fs, fs)
             | _ \<Rightarrow> Inl (Other_Io ''Not a directory (os error 20)'')))
       no_part"

definition host_observe :: "host_env \<Rightarrow> ('x, unit) hio" where
  "host_observe H = host_step H (\<lambda>fs. Inr ((), fs)) no_part"

text \<open>The ways the code awaits an operation: with \<^verbatim>\<open>?\<close>, and with \<^verbatim>\<open>NotFound\<close> taken apart.\<close>

definition hio_try :: "('x, 'a) hio \<Rightarrow> ('x host_world, 'a) async" where
  "hio_try m w =
     (case m w of
        (Ready (Inr x), w') \<Rightarrow> (Ready (Inr x), w')
      | (Ready (Inl e), w') \<Rightarrow> (Ready (Inl (Filesystem (io_text e))), w')
      | (Cut, w') \<Rightarrow> (Cut, w'))"

definition hio_found :: "('x, 'a) hio \<Rightarrow> ('x host_world, 'a option) async" where
  "hio_found m w =
     (case m w of
        (Ready (Inr x), w') \<Rightarrow> (Ready (Inr (Some x)), w')
      | (Ready (Inl NotFound), w') \<Rightarrow> (Ready (Inr None), w')
      | (Ready (Inl e), w') \<Rightarrow> (Ready (Inl (Filesystem (io_text e))), w')
      | (Cut, w') \<Rightarrow> (Cut, w'))"

subsection \<open>Reasoning about file operations\<close>

text \<open>A host on which every file operation is carried out.\<close>

definition faultless :: "host_env \<Rightarrow> bool" where
  "faultless H \<longleftrightarrow> (\<forall>n. hf_fault H n = H_Ok)"

text \<open>The files an operation may leave behind: those its work makes, part of it, or what was there.\<close>

definition may_leave :: "(files \<Rightarrow> io_error + 'a \<times> files) \<Rightarrow> (nat \<Rightarrow> files \<Rightarrow> files) \<Rightarrow> files \<Rightarrow> files \<Rightarrow> bool" where
  "may_leave work part fs fs' \<longleftrightarrow> fs' = fs \<or> (\<exists>x. work fs = Inr (x, fs')) \<or> (\<exists>n. fs' = part n fs)"

definition moved :: "files \<Rightarrow> 'x host_world \<Rightarrow> 'x host_world" where
  "moved fs w = w\<lparr>hw_io := Suc (hw_io w), hw_files := fs\<rparr>"

lemma moved_simps [simp]:
  "hw_files (moved fs w) = fs" "hw_env (moved fs w) = hw_env w" "hw_now (moved fs w) = hw_now w"
  by (simp_all add: moved_def)

lemma host_step_outcome:
  "case host_step H work part w of
     (Ready (Inr x), w') \<Rightarrow> \<exists>fs. work (hw_files w) = Inr (x, fs) \<and> w' = moved fs w
   | (_, w') \<Rightarrow> \<exists>fs. may_leave work part (hw_files w) fs \<and> w' = moved fs w"
  by (auto simp: host_step_def may_leave_def moved_def Let_def split: host_fault.split sum.split)

text \<open>With faults: any outcome, on files the operation may leave.\<close>

lemma wp_hio_try:
  assumes "\<And>x fs. work (hw_files w) = Inr (x, fs) \<Longrightarrow> Q (Ready (Inr x)) (moved fs w)"
    and "\<And>e fs. may_leave work part (hw_files w) fs \<Longrightarrow> Q (Ready (Inl (Filesystem e))) (moved fs w)"
    and "\<And>fs. may_leave work part (hw_files w) fs \<Longrightarrow> Q Cut (moved fs w)"
  shows "wp (hio_try (host_step H work part)) Q w"
  using assms host_step_outcome [where H = H and work = work and part = part and w = w]
  by (auto simp: wp_def hio_try_def split: prod.splits fut.splits sum.splits)

lemma wp_hio_found:
  assumes "\<And>x fs. work (hw_files w) = Inr (x, fs) \<Longrightarrow> Q (Ready (Inr (Some x))) (moved fs w)"
    and "\<And>fs. may_leave work part (hw_files w) fs \<Longrightarrow> Q (Ready (Inr None)) (moved fs w)"
    and "\<And>e fs. may_leave work part (hw_files w) fs \<Longrightarrow> Q (Ready (Inl (Filesystem e))) (moved fs w)"
    and "\<And>fs. may_leave work part (hw_files w) fs \<Longrightarrow> Q Cut (moved fs w)"
  shows "wp (hio_found (host_step H work part)) Q w"
  using assms host_step_outcome [where H = H and work = work and part = part and w = w]
  by (auto simp: wp_def hio_found_def split: prod.splits fut.splits sum.splits io_error.splits)

text \<open>Without: what the work says.\<close>

lemma wp_hio_try_ok:
  assumes "faultless H" "\<And>x fs. work (hw_files w) = Inr (x, fs) \<Longrightarrow> Q (Ready (Inr x)) (moved fs w)"
    and "\<And>e. work (hw_files w) = Inl e \<Longrightarrow> Q (Ready (Inl (Filesystem (io_text e)))) (moved (hw_files w) w)"
  shows "wp (hio_try (host_step H work part)) Q w"
  using assms by (auto simp: wp_def hio_try_def host_step_def faultless_def moved_def Let_def split: sum.splits)

lemma wp_hio_found_ok:
  assumes "faultless H" "\<And>x fs. work (hw_files w) = Inr (x, fs) \<Longrightarrow> Q (Ready (Inr (Some x))) (moved fs w)"
    and "work (hw_files w) = Inl NotFound \<Longrightarrow> Q (Ready (Inr None)) (moved (hw_files w) w)"
    and "\<And>e. work (hw_files w) = Inl e \<Longrightarrow> Q (Ready (Inl (Filesystem (io_text e)))) (moved (hw_files w) w)"
  shows "wp (hio_found (host_step H work part)) Q w"
  using assms by (auto simp: wp_def hio_found_def host_step_def faultless_def moved_def Let_def split: sum.splits io_error.splits)

lemma wp_try_cases:
  "(\<And>s. r = Ready s \<Longrightarrow> Q (Ready (Inr s)) w) \<Longrightarrow> (r = Cut \<Longrightarrow> Q Cut w) \<Longrightarrow> wp_try Q r w"
  by (cases r) simp_all

lemma wp_any: "(\<And>r w'. Q r w') \<Longrightarrow> wp m Q w"
  by (simp add: wp_def split: prod.split)

lemma map_of_filter_key: "map_of (filter (\<lambda>(q, _). P q) fs) p = (if P p then map_of fs p else None)"
  by (induction fs) auto

lemma map_of_remove_some: "\<not> below p q \<Longrightarrow> map_of (remove_some n p fs) q = map_of fs q"
  by (induction n p fs rule: remove_some.induct) auto

text \<open>Removing a directory touches nothing outside it.\<close>

lemma remove_dir_outside:
  assumes "may_leave (\<lambda>fs. case map_of fs p of
          None \<Rightarrow> Inl NotFound
        | Some (HFile _ _) \<Rightarrow> Inl (Other_Io ''Not a directory (os error 20)'')
        | Some (HLink _) \<Rightarrow> Inr ((), filter (\<lambda>(q, _). q \<noteq> p) fs)
        | Some (HDir _ _) \<Rightarrow> Inr ((), do_remove_tree p fs)) (\<lambda>n. remove_some n p) fs fs'"
    and "q \<noteq> p" "\<not> below p q"
  shows "map_of fs' q = map_of fs q"
  using assms
  by (auto simp: may_leave_def do_remove_tree_def map_of_filter_key map_of_remove_some split: option.splits hnode.splits)

subsection \<open>Recording what is run\<close>

text \<open>A runner that keeps a record of its commands and their results, the newest first.\<close>

type_synonym trace = "(CommandSpec \<times> (RuntimeError, ProcessOutput) fut) list"

definition recorded :: "('w \<times> trace) runner \<Rightarrow> ('w \<times> trace) runner" where
  "recorded run c sink w = (case run c sink w of (r, w') \<Rightarrow> (r, fst w', (c, r) # snd w))"

lemma wp_Pair [simp]: "wp (Pair r) Q w = Q r w"
  by (simp add: wp_def)

lemma wp_recorded [wp_intro]: "(\<And>r x. Q r (x, (c, r) # snd w)) \<Longrightarrow> wp (recorded run c sink) Q w"
  by (simp add: wp_def recorded_def split: prod.split)

text \<open>The same on a host, whose other part then is the record.\<close>

definition recorded_host :: "trace host_world runner \<Rightarrow> trace host_world runner" where
  "recorded_host run c sink w = (case run c sink w of (r, w') \<Rightarrow> (r, w'\<lparr>hw_env := (c, r) # hw_env w\<rparr>))"

lemma wp_recorded_host:
  "(\<And>r w'. hw_env w' = (c, r) # hw_env w \<Longrightarrow> Q r w') \<Longrightarrow> wp (recorded_host run c sink) Q w"
  by (simp add: wp_def recorded_host_def split: prod.split)

subsection \<open>A concrete host\<close>

definition demo_host :: host_env where
  "demo_host = \<lparr>hf_fault = (\<lambda>_. H_Ok), hf_uuid_str = uuid_hyphenated, hf_uuid_parse = uuid_parse\<rparr>"

definition demo_world :: "unit host_world" where
  "demo_world = \<lparr>hw_files = [(''/srv'', HDir 493 0), (''/srv/4'', HDir 448 0)], hw_io = 0, hw_now = 0, hw_followers = [],
     hw_spawned = [], hw_aborted = [], hw_env = ()\<rparr>"

definition quiet_reporter :: "'w reporter" where
  "quiet_reporter = \<lparr>rep_event = (\<lambda>_ w. (Ready (Inr ()), w)), rep_log = (\<lambda>_ w. (Ready (Inr ()), w)), rep_commit = (\<lambda>_ w. w),
     rep_now = (\<lambda>_. 0)\<rparr>"

text \<open>A runner that answers every command with the same text.\<close>

definition answering :: "string \<Rightarrow> 'w runner" where
  "answering text c sink = aret \<lparr>po_success = True, po_code = Some 0, po_stdout = text, po_stderr = []\<rparr>"

lemma demo_faultless: "faultless demo_host"
  by (simp add: faultless_def demo_host_def)

end
