(* ===== verification/Containers.thy ===== *)
theory Containers
  imports Host_Files
begin

text \<open>
  The Docker container engine, \<^verbatim>\<open>containers/docker.rs\<close> of \<^verbatim>\<open>sakala-agent-runtime\<close>: every operation of the
  trait \<^verbatim>\<open>ContainerEngine\<close> as the docker commands it runs and what it makes of their output, and the map of
  log followers.

  Docker itself is the \<open>runner\<close>. The labels a container is started with are the only record of a workload
  outside the control plane; the properties are about that record (what \<open>start\<close> writes, \<open>workload\<close> and
  \<open>detect_orphans\<close> read back) and about which containers are stopped and removed.
\<close>

subsection \<open>The engine\<close>

record DockerContainerEngine =
  dc_runtime_network :: string
  dc_resource_safety :: ResourceSafetyConfig
  dc_max_active_containers :: u32
  dc_agent_id :: string

definition MANAGED_LABEL :: string where "MANAGED_LABEL = ''dev.sakala.managed=true''"
definition AGENT_ID_LABEL :: string where "AGENT_ID_LABEL = ''dev.sakala.agent-id''"
definition WORKLOAD_KIND_LABEL :: string where "WORKLOAD_KIND_LABEL = ''dev.sakala.workload-kind=web''"
definition DOMAIN_LABEL :: string where "DOMAIN_LABEL = ''dev.sakala.domain''"
definition PORT_LABEL :: string where "PORT_LABEL = ''dev.sakala.port''"
definition COMMAND_ID_LABEL :: string where "COMMAND_ID_LABEL = ''dev.sakala.command-id''"
definition LOG_MAX_LINE_LABEL :: string where "LOG_MAX_LINE_LABEL = ''dev.sakala.log-max-line-length''"
definition LOG_MAX_BATCH_LABEL :: string where "LOG_MAX_BATCH_LABEL = ''dev.sakala.log-max-batch-lines''"
definition LOG_MAX_TOTAL_LABEL :: string where "LOG_MAX_TOTAL_LABEL = ''dev.sakala.log-max-total-bytes''"

lemmas label_defs = MANAGED_LABEL_def AGENT_ID_LABEL_def WORKLOAD_KIND_LABEL_def DOMAIN_LABEL_def PORT_LABEL_def
  COMMAND_ID_LABEL_def LOG_MAX_LINE_LABEL_def LOG_MAX_BATCH_LABEL_def LOG_MAX_TOTAL_LABEL_def

definition docker :: "string list \<Rightarrow> CommandSpec" where
  "docker vs = args vs (command_new ''docker'')"

text \<open>A command whose output is read, and whose failure is an error of its own.\<close>

definition docker_output :: "'w runner \<Rightarrow> CommandSpec \<Rightarrow> string \<Rightarrow> ('w, string) async" where
  "docker_output run command what =
     abind (run command null_sink) (\<lambda>out.
       if po_success out then aret (po_stdout out)
       else athrow (Container (what @ '' exited with status '' @ status_debug (po_code out))))"

definition nonblank_lines :: "string \<Rightarrow> string list" where
  "nonblank_lines s = filter (\<lambda>l. trim l \<noteq> []) (lines s)"

definition field :: "string list \<Rightarrow> nat \<Rightarrow> string" where
  "field fs i = (case nth_opt fs i of None \<Rightarrow> [] | Some v \<Rightarrow> v)"

definition field_uuid :: "host_env \<Rightarrow> string list \<Rightarrow> nat \<Rightarrow> uuid option" where
  "field_uuid H fs i = Option.bind (nth_opt fs i) (hf_uuid_parse H)"

subsection \<open>Capacity\<close>

definition capacity_command :: CommandSpec where
  "capacity_command = docker [''ps'', ''--filter'', ''label='' @ MANAGED_LABEL, ''--format'',
     ''{{.Label \"dev.sakala.project-id\"}}'']"

definition active_projects :: "string \<Rightarrow> string list" where
  "active_projects stdout = filter (\<lambda>v. v \<noteq> []) (map trim (lines stdout))"

definition ensure_capacity :: "host_env \<Rightarrow> DockerContainerEngine \<Rightarrow> 'w runner \<Rightarrow> uuid \<Rightarrow> ('w, unit) async" where
  "ensure_capacity H D run project_id =
     abind (docker_output run capacity_command ''docker capacity inspection'') (\<lambda>stdout.
       let active = active_projects stdout;
           replacement = list_ex (\<lambda>a. a = hf_uuid_str H project_id) active
       in if \<not> replacement \<and> unat (dc_max_active_containers D) \<le> length active
          then athrow (Capacity (''node already runs '' @ dec (length active)
                 @ '' managed containers; configured maximum is '' @ show_word (dc_max_active_containers D)))
          else aret ())"

subsection \<open>Listing containers\<close>

definition listing_format :: string where
  "listing_format = ''{{.ID}}'' @ [CHR 0x09] @ ''{{.Status}}'' @ [CHR 0x09] @ ''{{.Label \"dev.sakala.project-id\"}}''
     @ [CHR 0x09] @ ''{{.Label \"dev.sakala.deployment-id\"}}''"

definition orphan_reason :: "uuid option \<Rightarrow> uuid option \<Rightarrow> string \<Rightarrow> string option" where
  "orphan_reason project_id deployment_id status =
     (if project_id = None then Some ''managed container has an unknown project identity''
      else if deployment_id = None then Some ''managed container has incomplete deployment identity labels''
      else if starts_with status ''Created'' then Some ''dangling candidate container was never started''
      else if starts_with status ''Exited'' \<or> starts_with status ''Dead'' then Some ''stale stopped deployment container''
      else None)"

definition classify_line :: "host_env \<Rightarrow> string \<Rightarrow> RuntimeReconciliationReport \<Rightarrow> RuntimeReconciliationReport" where
  "classify_line H line rep =
     (let rep = rep\<lparr>rr_inspected_containers := rr_inspected_containers rep + 1\<rparr>;
          fields = split_on CHR 0x09 line;
          container_id = field fields 0;
          status = field fields 1;
          project_id = field_uuid H fields 2;
          deployment_id = field_uuid H fields 3
      in case orphan_reason project_id deployment_id status of
           Some reason \<Rightarrow>
             rep\<lparr>rr_orphans := rr_orphans rep @
               [\<lparr>ro_container_id = container_id, ro_project_id = project_id, ro_reason = reason\<rparr>]\<rparr>
         | None \<Rightarrow>
             (case (project_id, deployment_id) of
                (Some p, Some d) \<Rightarrow>
                  rep\<lparr>rr_workloads := rr_workloads rep @
                    [\<lparr>wl_container_id = container_id, wl_project_id = p, wl_deployment_id = d, wl_status = status\<rparr>]\<rparr>
              | _ \<Rightarrow> rep))"

definition empty_report :: RuntimeReconciliationReport where
  "empty_report = \<lparr>rr_inspected_containers = 0, rr_cleaned_workspaces = 0, rr_reclaimed_image_bytes = 0, rr_workloads = [],
     rr_orphans = [], rr_stale_routes = [], rr_stale_images = [], rr_reattached_log_followers = 0,
     rr_recovered_execution_records = 0, rr_compatibility_issues = []\<rparr>"

definition orphans_command :: CommandSpec where
  "orphans_command = docker [''ps'', ''--all'', ''--filter'', ''label='' @ MANAGED_LABEL, ''--format'', listing_format]"

definition detect_orphans :: "host_env \<Rightarrow> 'w runner \<Rightarrow> ('w, RuntimeReconciliationReport) async" where
  "detect_orphans H run =
     abind (docker_output run orphans_command ''docker orphan inspection'') (\<lambda>stdout.
       aret (fold (classify_line H) (nonblank_lines stdout) empty_report))"

definition capacity :: "host_env \<Rightarrow> DockerContainerEngine \<Rightarrow> 'w runner \<Rightarrow> ('w, RuntimeCapacity) async" where
  "capacity H D run =
     abind (detect_orphans H run) (\<lambda>rep.
       aret \<lparr>cap_active_workloads = Some (length (rr_workloads rep)),
             cap_stopped_workloads = Some (length (filter (\<lambda>o'. ro_reason o' = ''stale stopped deployment container'') (rr_orphans rep))),
             cap_maximum_active_workloads = Some (unat (dc_max_active_containers D)),
             cap_active_builds = None, cap_maximum_concurrent_builds = None\<rparr>)"

definition health_state :: "string \<Rightarrow> bool \<times> string option" where
  "health_state status =
     (let normalized = to_ascii_lowercase status
      in if contains normalized ''unhealthy'' then (False, Some ''Docker health status is unhealthy'')
         else if contains normalized ''health: starting'' then (False, Some ''Docker health check is still starting'')
         else if starts_with normalized ''up'' then (True, None)
         else (False, Some (''container is not running: '' @ status)))"

definition snapshot_of :: "host_env \<Rightarrow> string \<Rightarrow> RuntimeHealthSnapshot option" where
  "snapshot_of H line =
     (let fields = split_on CHR 0x09 line
      in case (field_uuid H fields 2, field_uuid H fields 3) of
           (Some p, Some d) \<Rightarrow>
             (case health_state (field fields 1) of
                (ready, reason) \<Rightarrow>
                  Some \<lparr>hs_workload = \<lparr>wl_container_id = field fields 0, wl_project_id = p, wl_deployment_id = d,
                          wl_status = field fields 1\<rparr>, hs_ready = ready, hs_reason = reason\<rparr>)
         | _ \<Rightarrow> None)"

definition health_snapshot :: "host_env \<Rightarrow> 'w runner \<Rightarrow> ('w, RuntimeHealthSnapshot list) async" where
  "health_snapshot H run =
     abind (docker_output run (docker [''ps'', ''--filter'', ''label='' @ MANAGED_LABEL, ''--format'', listing_format])
       ''docker health inspection'') (\<lambda>stdout. aret (List.map_filter (snapshot_of H) (nonblank_lines stdout)))"

subsection \<open>One workload\<close>

definition workload_format :: string where
  "workload_format = ''{{.ID}}'' @ [CHR 0x09] @ ''{{.Status}}'' @ [CHR 0x09] @ ''{{.Label \"dev.sakala.domain\"}}''
     @ [CHR 0x09] @ ''{{.Label \"dev.sakala.port\"}}'' @ [CHR 0x09] @ ''{{.Label \"dev.sakala.command-id\"}}''
     @ [CHR 0x09] @ ''{{.Label \"dev.sakala.log-max-line-length\"}}''
     @ [CHR 0x09] @ ''{{.Label \"dev.sakala.log-max-batch-lines\"}}''
     @ [CHR 0x09] @ ''{{.Label \"dev.sakala.log-max-total-bytes\"}}''"

definition workload_command :: "host_env \<Rightarrow> uuid \<Rightarrow> uuid \<Rightarrow> CommandSpec" where
  "workload_command H project_id deployment_id =
     docker [''ps'', ''--all'', ''--filter'', ''label='' @ MANAGED_LABEL,
       ''--filter'', ''label=dev.sakala.project-id='' @ hf_uuid_str H project_id,
       ''--filter'', ''label=dev.sakala.deployment-id='' @ hf_uuid_str H deployment_id,
       ''--format'', workload_format]"

definition parse_optional_label :: "string option \<Rightarrow> u64 option" where
  "parse_optional_label v = (case v of None \<Rightarrow> None | Some s \<Rightarrow> if s = [] then None else parse_u64 s)"

definition workload_of_line :: "host_env \<Rightarrow> uuid \<Rightarrow> uuid \<Rightarrow> string \<Rightarrow> RuntimeError + ManagedWorkload" where
  "workload_of_line H project_id deployment_id line =
     (let fields = split_on CHR 0x09 line
      in res_bind (ok_or (case nth_opt fields 2 of None \<Rightarrow> None | Some v \<Rightarrow> if v = [] then None else Some v)
           (Container ''managed workload is missing its domain label'')) (\<lambda>domain.
         res_bind (ok_or (case Option.bind (nth_opt fields 3) parse_u16 of None \<Rightarrow> None | Some v \<Rightarrow> if 0 < v then Some v else None)
           (Container ''managed workload has an invalid port label'')) (\<lambda>port.
         Inr \<lparr>mw_container_id = field fields 0, mw_status = field fields 1, mw_project_id = project_id,
              mw_deployment_id = deployment_id, mw_domain = domain, mw_port = port,
              mw_command_id = field_uuid H fields 4,
              mw_log_bounds = \<lparr>lb_max_line_length = parse_optional_label (nth_opt fields 5),
                lb_max_batch_lines = parse_optional_label (nth_opt fields 6),
                lb_max_total_bytes = parse_optional_label (nth_opt fields 7)\<rparr>\<rparr>)))"

definition workload :: "host_env \<Rightarrow> 'w runner \<Rightarrow> uuid \<Rightarrow> uuid \<Rightarrow> ('w, ManagedWorkload option) async" where
  "workload H run project_id deployment_id =
     abind (docker_output run (workload_command H project_id deployment_id) ''docker workload lookup'') (\<lambda>stdout.
       case nonblank_lines stdout of
         [] \<Rightarrow> aret None
       | line # _ \<Rightarrow> abind (alift (workload_of_line H project_id deployment_id line)) (\<lambda>m. aret (Some m)))"

definition run_container_command :: "'w runner \<Rightarrow> CommandSpec \<Rightarrow> string \<Rightarrow> ('w, unit) async" where
  "run_container_command run command phase =
     abind (run command null_sink) (\<lambda>out.
       if po_success out then aret () else athrow (failed_process phase (po_code out) (po_stderr out)))"

definition restart :: "'w runner \<Rightarrow> ManagedWorkload \<Rightarrow> u64 \<Rightarrow> ('w, unit) async" where
  "restart run m grace_seconds =
     run_container_command run (docker [''restart'', ''--time'', show_word grace_seconds, mw_container_id m]) ''docker-restart''"

definition stop :: "'w runner \<Rightarrow> ManagedWorkload \<Rightarrow> u64 \<Rightarrow> ('w, unit) async" where
  "stop run m grace_seconds =
     (if \<not> is_up m then aret ()
      else run_container_command run (docker [''stop'', ''--time'', show_word grace_seconds, mw_container_id m]) ''docker-stop'')"

definition start_existing :: "'w runner \<Rightarrow> ManagedWorkload \<Rightarrow> ('w, unit) async" where
  "start_existing run m =
     (if is_up m then aret ()
      else run_container_command run (docker [''start'', mw_container_id m]) ''docker-start'')"

definition remove :: "'w runner \<Rightarrow> ManagedWorkload \<Rightarrow> ('w, unit) async" where
  "remove run m = run_container_command run (docker [''rm'', mw_container_id m]) ''docker-remove''"

subsection \<open>Starting a container\<close>

definition effective_environment :: "(string \<times> string) list \<Rightarrow> u16 \<Rightarrow> (string \<times> string) list" where
  "effective_environment environment port =
     (case map_of environment ''PORT'' of
        None \<Rightarrow> btree_insert ''PORT'' (show_word port) environment
      | Some _ \<Rightarrow> environment)"

fun write_entries :: "host_env \<Rightarrow> string \<Rightarrow> (string \<times> string) list \<Rightarrow> ('x host_world, unit) async" where
  "write_entries H path [] = aret ()"
| "write_entries H path ((key, v) # es) =
     abind (hio_try (fs_write_all H path (key @ ''='' @ v @ [CHR 0x0A]))) (\<lambda>_. write_entries H path es)"

definition write_env_file :: "host_env \<Rightarrow> string \<Rightarrow> (string \<times> string) list \<Rightarrow> ('x host_world, string option) async" where
  "write_env_file H ws environment =
     (if environment = [] then aret None
      else
        let path = path_join ws ''runtime.env''
        in abind (hio_try (fs_create_new H path 384)) (\<lambda>_.
           abind (write_entries H path environment) (\<lambda>_.
           abind (hio_try (fs_flush H)) (\<lambda>_. aret (Some path)))))"

definition bound_labels :: "LogBounds \<Rightarrow> string list" where
  "bound_labels b =
     concat (map (\<lambda>(label, v). case v of None \<Rightarrow> [] | Some n \<Rightarrow> [''--label'', label @ ''='' @ show_word n])
       [(LOG_MAX_LINE_LABEL, lb_max_line_length b), (LOG_MAX_BATCH_LABEL, lb_max_batch_lines b),
        (LOG_MAX_TOTAL_LABEL, lb_max_total_bytes b)])"

definition run_command :: "host_env \<Rightarrow> DockerContainerEngine \<Rightarrow> RunContainerRequest \<Rightarrow> string option \<Rightarrow> CommandSpec" where
  "run_command H D q env_file =
     docker ([''run'', ''--detach'', ''--name'', rq_name q, ''--network'', dc_runtime_network D,
       ''--restart'', ''unless-stopped'', ''--security-opt'', ''no-new-privileges:true'', ''--cap-drop'', ''ALL'',
       ''--memory'', show_word (ar_memory_mb (rq_resources q)) @ ''m'',
       ''--memory-swap'', show_word (ar_memory_mb (rq_resources q)) @ ''m'',
       ''--cpus'', docker_cpu_value (ar_cpu_millis (rq_resources q)),
       ''--pids-limit'', show_word (ar_pids_limit (rq_resources q)),
       ''--label'', MANAGED_LABEL,
       ''--label'', ''dev.sakala.project-id='' @ hf_uuid_str H (rq_project_id q),
       ''--label'', ''dev.sakala.deployment-id='' @ hf_uuid_str H (rq_deployment_id q),
       ''--label'', DOMAIN_LABEL @ ''='' @ rq_domain q,
       ''--label'', PORT_LABEL @ ''='' @ show_word (rq_port q),
       ''--label'', COMMAND_ID_LABEL @ ''='' @ hf_uuid_str H (rq_command_id q),
       ''--label'', WORKLOAD_KIND_LABEL,
       ''--label'', AGENT_ID_LABEL @ ''='' @ dc_agent_id D]
      @ bound_labels (rq_log_bounds q)
      @ (case env_file of None \<Rightarrow> [] | Some f \<Rightarrow> [''--env-file'', f])
      @ [rq_image q])"

definition start :: "host_env \<Rightarrow> DockerContainerEngine \<Rightarrow> 'x host_world runner \<Rightarrow> 'x host_world reporter \<Rightarrow> RunContainerRequest
    \<Rightarrow> ('x host_world, unit) async" where
  "start H D run R q =
     abind (write_env_file H (rq_workspace q) (effective_environment (rq_environment q) (rq_port q))) (\<lambda>env_file.
     abind (atry (run_checked run (run_command H D q env_file) ''docker-run'' R)) (\<lambda>result.
     abind (case env_file of
              None \<Rightarrow> aret ()
            | Some f \<Rightarrow>
                abind (atry (hio_try (host_remove_file H f))) (\<lambda>removed.
                  if is_err result then aret () else alift removed)) (\<lambda>_.
     case result of Inl error \<Rightarrow> athrow error | Inr _ \<Rightarrow> aret ())))"

definition report_startup_logs :: "'w runner \<Rightarrow> 'w reporter \<Rightarrow> string \<Rightarrow> ('w, unit) async" where
  "report_startup_logs run R container =
     abind (run_checked run (docker [''logs'', ''--tail'', ''100'', container]) ''runtime'' R) (\<lambda>_. aret ())"

subsection \<open>Log followers\<close>

definition start_log_follower :: "string \<Rightarrow> uuid \<Rightarrow> LogBounds \<Rightarrow> 'x host_world \<Rightarrow> bool \<times> 'x host_world" where
  "start_log_follower container command_id bounds w =
     (let followers = filter (\<lambda>(_, finished). \<not> finished) (hw_followers w)
      in if map_of followers container \<noteq> None then (False, w\<lparr>hw_followers := followers\<rparr>)
         else (True, w\<lparr>hw_followers := (container, False) # followers,
           hw_spawned := hw_spawned w @ [(command_id, bounds,
             without_timeout (docker [''logs'', ''--follow'', ''--tail'', ''0'', container]))]\<rparr>))"

definition shutdown_followers :: "'x host_world \<Rightarrow> 'x host_world" where
  "shutdown_followers w = w\<lparr>hw_followers := [], hw_aborted := hw_aborted w @ map fst (hw_followers w)\<rparr>"

subsection \<open>Cleaning up\<close>

definition previous_command :: "host_env \<Rightarrow> uuid \<Rightarrow> CommandSpec" where
  "previous_command H project_id =
     docker [''ps'', ''--all'', ''--quiet'', ''--filter'', ''label=dev.sakala.project-id='' @ hf_uuid_str H project_id,
       ''--filter'', ''label='' @ MANAGED_LABEL]"

definition inspect_command :: "string \<Rightarrow> CommandSpec" where
  "inspect_command container_id =
     docker [''inspect'', ''--format'', ''{{.State.Running}}'' @ [CHR 0x09] @ ''{{.Name}}'', container_id]"

definition inspected_running :: "string \<Rightarrow> bool" where
  "inspected_running stdout \<longleftrightarrow> nth_opt (split_on CHR 0x09 (trim stdout)) 0 = Some ''true''"

definition inspected_name :: "string \<Rightarrow> string" where
  "inspected_name stdout = trim_start_matches CHR ''/'' (field (split_on CHR 0x09 (trim stdout)) 1)"

definition stop_previous_command :: "string \<Rightarrow> CommandSpec" where
  "stop_previous_command container_id = docker [''stop'', ''--time'', ''10'', container_id]"

definition remove_previous_command :: "string \<Rightarrow> CommandSpec" where
  "remove_previous_command container_id = docker [''rm'', container_id]"

fun cleanup_containers :: "'w runner \<Rightarrow> 'w reporter \<Rightarrow> string \<Rightarrow> string list \<Rightarrow> ('w, unit) async" where
  "cleanup_containers run R current [] = aret ()"
| "cleanup_containers run R current (container_id # ids) =
     abind (docker_output run (inspect_command container_id) ''docker-inspect-previous'') (\<lambda>stdout.
       if inspected_name stdout = current then cleanup_containers run R current ids
       else
         abind (if inspected_running stdout
                then abind (run_checked run (stop_previous_command container_id) ''docker-stop-previous'' R) (\<lambda>_. aret ())
                else aret ()) (\<lambda>_.
         abind (run_checked run (remove_previous_command container_id) ''docker-remove-previous'' R) (\<lambda>_.
         cleanup_containers run R current ids)))"

definition cleanup_previous :: "host_env \<Rightarrow> 'w runner \<Rightarrow> 'w reporter \<Rightarrow> uuid \<Rightarrow> string \<Rightarrow> ('w, unit) async" where
  "cleanup_previous H run R project_id current =
     abind (docker_output run (previous_command H project_id) ''docker-list-previous'') (\<lambda>stdout.
       cleanup_containers run R current (nonblank_lines stdout))"

text \<open>Every artifact is attempted; the failures are collected.\<close>

fun cleanup_artifacts :: "'w runner \<Rightarrow> (string \<times> CommandSpec) list \<Rightarrow> string list \<Rightarrow> ('w, string list) async" where
  "cleanup_artifacts run [] failures = aret failures"
| "cleanup_artifacts run ((artifact, command) # rest) failures =
     abind (atry (run command null_sink)) (\<lambda>r.
       cleanup_artifacts run rest
         (case r of
            Inr out \<Rightarrow>
              if po_success out then failures
              else failures @ [artifact @ '' exited with status '' @ status_debug (po_code out)]
          | Inl error \<Rightarrow> failures @ [artifact @ '': '' @ runtime_error_text error]))"

definition candidate_artifacts :: "string \<Rightarrow> string \<Rightarrow> (string \<times> CommandSpec) list" where
  "candidate_artifacts container img =
     [(''candidate container'', docker [''rm'', ''--force'', container]),
      (''candidate image'', docker [''image'', ''rm'', ''--force'', img])]"

definition cleanup_candidate :: "'w runner \<Rightarrow> string \<Rightarrow> string \<Rightarrow> ('w, unit) async" where
  "cleanup_candidate run container img =
     abind (cleanup_artifacts run (candidate_artifacts container img) []) (\<lambda>failures.
       if failures = [] then aret ()
       else athrow (Container (''candidate cleanup incomplete: '' @ join ''; '' failures)))"

subsection \<open>Images\<close>

text \<open>The RFC 3339 parser of the \<^verbatim>\<open>time\<close> crate is a parameter; so is the arithmetic of \<^verbatim>\<open>f64\<close>, of which the
  code only prints a number.\<close>

type_synonym rfc3339_parser = "string \<Rightarrow> string + timestamp"

fun stale_images_of :: "host_env \<Rightarrow> rfc3339_parser \<Rightarrow> 'w runner \<Rightarrow> timestamp \<Rightarrow> duration \<Rightarrow> string list \<Rightarrow> RuntimeStaleImage list
    \<Rightarrow> ('w, RuntimeStaleImage list) async" where
  "stale_images_of H T run now minimum_age [] stale = aret stale"
| "stale_images_of H T run now minimum_age (line # rest) stale =
     (let fields = split_on CHR 0x09 line; image_id = field fields 0
      in abind (docker_output run (docker [''image'', ''inspect'', ''--format'', ''{{.Created}}'', image_id])
           ''Sakala image age inspection'') (\<lambda>stdout.
         case T (trim stdout) of
           Inl error \<Rightarrow> athrow (Container (''Docker returned an invalid image creation timestamp: '' @ error))
         | Inr created \<Rightarrow>
             if now - created < int minimum_age then stale_images_of H T run now minimum_age rest stale
             else stale_images_of H T run now minimum_age rest
               (stale @ [\<lparr>si_image_id = image_id, si_project_id = field_uuid H fields 1,
                          si_deployment_id = field_uuid H fields 2\<rparr>])))"

definition detect_stale_images :: "host_env \<Rightarrow> rfc3339_parser \<Rightarrow> ('w \<Rightarrow> timestamp) \<Rightarrow> 'w runner \<Rightarrow> duration
    \<Rightarrow> ('w, RuntimeStaleImage list) async" where
  "detect_stale_images H T clock run max_age =
     abind (docker_output run (docker [''image'', ''ls'', ''--filter'', ''dangling=true'', ''--filter'', ''label='' @ MANAGED_LABEL,
       ''--format'', ''{{.ID}}'' @ [CHR 0x09] @ ''{{.Label \"dev.sakala.project-id\"}}'' @ [CHR 0x09]
         @ ''{{.Label \"dev.sakala.deployment-id\"}}'']) ''Sakala stale image inspection'') (\<lambda>stdout.
       if 2 ^ 63 \<le> unat (as_secs max_age) then athrow (Configuration ''image GC maximum age is too large'')
       else (\<lambda>w. stale_images_of H T run (clock w) max_age (nonblank_lines stdout) [] w))"

record 'f float64 =
  fl_parse :: "string \<Rightarrow> 'f option"
  fl_times :: "'f \<Rightarrow> nat \<Rightarrow> 'f"
  fl_is_finite :: "'f \<Rightarrow> bool"
  fl_is_sign_negative :: "'f \<Rightarrow> bool"
  fl_above_u64_max :: "'f \<Rightarrow> bool"
  fl_round :: "'f \<Rightarrow> u64"

definition size_unit :: "string \<Rightarrow> nat option" where
  "size_unit u =
     (if u \<in> {''b'', ''bytes'', ''''} then Some 1
      else if u \<in> {''kb'', ''kib''} then Some 1024
      else if u \<in> {''mb'', ''mib''} then Some (1024 * 1024)
      else if u \<in> {''gb'', ''gib''} then Some (1024 * 1024 * 1024)
      else None)"

definition parse_reclaimed_bytes :: "'f float64 \<Rightarrow> string \<Rightarrow> RuntimeError + u64" where
  "parse_reclaimed_bytes F stdout =
     (case List.map_filter (\<lambda>l. strip_prefix l ''Total reclaimed space: '') (lines stdout) of
        [] \<Rightarrow> Inr 0
      | v # _ \<Rightarrow>
          let v = trim v;
              number_part = takeWhile (\<lambda>c. is_ascii_digit c \<or> c = CHR ''.'') v;
              unit_part = dropWhile (\<lambda>c. is_ascii_digit c \<or> c = CHR ''.'') v
          in res_bind (ok_or (fl_parse F number_part)
               (Container ''Docker image GC returned an invalid reclaimed-space value'')) (\<lambda>number.
             res_bind (ok_or (size_unit (to_ascii_lowercase (trim unit_part)))
               (Container ''Docker image GC returned an unknown reclaimed-space unit'')) (\<lambda>multiplier.
             let bytes = fl_times F number multiplier
             in if \<not> fl_is_finite F bytes \<or> fl_is_sign_negative F bytes \<or> fl_above_u64_max F bytes
                then Inl (Container ''Docker image GC reclaimed-space value overflowed'')
                else Inr (fl_round F bytes))))"

definition cleanup_stale_images :: "'f float64 \<Rightarrow> 'w runner \<Rightarrow> duration \<Rightarrow> ('w, u64) async" where
  "cleanup_stale_images F run max_age =
     abind (docker_output run (docker [''image'', ''prune'', ''--force'', ''--filter'', ''label='' @ MANAGED_LABEL,
       ''--filter'', ''until='' @ show_word (as_secs max_age) @ ''s'']) ''Sakala image GC'') (\<lambda>stdout.
       case parse_reclaimed_bytes F stdout of Inr bytes \<Rightarrow> aret bytes | Inl error \<Rightarrow> aret 0)"

subsection \<open>The engine as a service\<close>

definition docker_container_engine :: "host_env \<Rightarrow> DockerContainerEngine \<Rightarrow> rfc3339_parser \<Rightarrow> 'f float64 \<Rightarrow> 'x host_world runner
    \<Rightarrow> 'x host_world reporter \<Rightarrow> 'x host_world container_engine" where
  "docker_container_engine H D T F run R =
     \<lparr>ce_resolve_resources = resolve_resources (dc_resource_safety D), ce_ensure_capacity = ensure_capacity H D run,
      ce_detect_orphans = detect_orphans H run, ce_capacity = capacity H D run,
      ce_health_snapshot = health_snapshot H run, ce_workload = workload H run, ce_restart = restart run,
      ce_stop = stop run, ce_start_existing = start_existing run, ce_remove = remove run, ce_start = start H D run R,
      ce_report_startup_logs = report_startup_logs run R, ce_start_log_follower = start_log_follower,
      ce_cleanup_previous = cleanup_previous H run R, ce_cleanup_candidate = cleanup_candidate run,
      ce_detect_stale_images = detect_stale_images H T hw_now run, ce_cleanup_stale_images = cleanup_stale_images F run,
      ce_shutdown = shutdown_followers\<rparr>"

subsection \<open>Which containers are stopped and removed\<close>

text \<open>The container a command stops or removes.\<close>

definition ends_container :: "CommandSpec \<Rightarrow> string option" where
  "ends_container c =
     (case cs_args c of
        [a, container] \<Rightarrow> if a = ''rm'' then Some container else None
      | [a, _, _, container] \<Rightarrow> if a = ''stop'' then Some container else None
      | _ \<Rightarrow> None)"

definition found_other :: "string \<Rightarrow> string \<Rightarrow> trace \<Rightarrow> bool" where
  "found_other current container log \<longleftrightarrow>
     (\<exists>out. (inspect_command container, Ready (Inr out)) \<in> set log \<and> po_success out
        \<and> inspected_name (po_stdout out) \<noteq> current)"

fun spares :: "string \<Rightarrow> trace \<Rightarrow> bool" where
  "spares current [] = True"
| "spares current ((c, r) # log) =
     (spares current log
      \<and> (case ends_container c of None \<Rightarrow> True | Some container \<Rightarrow> found_other current container log))"

definition disposed :: "string \<Rightarrow> trace \<Rightarrow> string \<Rightarrow> bool" where
  "disposed current log container \<longleftrightarrow>
     (\<exists>out. (inspect_command container, Ready (Inr out)) \<in> set log \<and> po_success out
        \<and> inspected_name (po_stdout out) = current)
     \<or> (\<exists>out. (remove_previous_command container, Ready (Inr out)) \<in> set log \<and> po_success out)"

lemma docker_args [simp]: "cs_args (docker vs) = vs"
proof -
  have "cs_args (fold arg vs c) = cs_args c @ vs" for c by (induction vs arbitrary: c) (simp_all add: arg_def)
  then show ?thesis by (simp add: docker_def args_def command_new_def)
qed

lemma ends_container_simps [simp]:
  "ends_container (inspect_command c) = None" "ends_container (previous_command H p) = None"
  "ends_container (stop_previous_command c) = Some c" "ends_container (remove_previous_command c) = Some c"
  by (simp_all add: ends_container_def inspect_command_def previous_command_def stop_previous_command_def
      remove_previous_command_def)

lemma found_other_Cons [simp]:
  "found_other current c ((k, r) # log) \<longleftrightarrow>
     (k = inspect_command c \<and> (\<exists>out. r = Ready (Inr out) \<and> po_success out \<and> inspected_name (po_stdout out) \<noteq> current))
     \<or> found_other current c log"
  by (auto simp: found_other_def)

lemma disposed_Cons [simp]:
  "disposed current ((k, r) # log) c \<longleftrightarrow>
     (k = inspect_command c \<and> (\<exists>out. r = Ready (Inr out) \<and> po_success out \<and> inspected_name (po_stdout out) = current))
     \<or> (k = remove_previous_command c \<and> (\<exists>out. r = Ready (Inr out) \<and> po_success out))
     \<or> disposed current log c"
  by (auto simp: disposed_def)

lemma disposed_mono: "disposed current log c \<Longrightarrow> set log \<subseteq> set log' \<Longrightarrow> disposed current log' c"
  by (auto simp: disposed_def)

definition cleaned :: "string \<Rightarrow> string list \<Rightarrow> trace \<Rightarrow> (RuntimeError, unit) fut \<Rightarrow> trace \<Rightarrow> bool" where
  "cleaned current ids before r log \<longleftrightarrow>
     spares current log \<and> set before \<subseteq> set log \<and> (\<forall>u. r = Ready (Inr u) \<longrightarrow> list_all (disposed current log) ids)"

lemma cleaned_early:
  "spares current log \<Longrightarrow> set before \<subseteq> set log \<Longrightarrow> cleaned current ids before (Ready (Inl e)) log"
  "spares current log \<Longrightarrow> set before \<subseteq> set log \<Longrightarrow> cleaned current ids before Cut log"
  by (simp_all add: cleaned_def)

lemma cleaned_Cons:
  "cleaned current ids before' r log \<Longrightarrow> set before \<subseteq> set before' \<Longrightarrow> disposed current before' c
   \<Longrightarrow> cleaned current (c # ids) before r log"
  by (auto simp: cleaned_def intro: disposed_mono)

lemma wp_cleanup_containers:
  "spares current (snd w) \<Longrightarrow>
   wp (cleanup_containers (recorded run) R current ids) (\<lambda>r w'. cleaned current ids (snd w) r (snd w')) w"
proof (induction ids arbitrary: w)
  case Nil
  then show ?case by (simp add: cleaned_def)
next
  case (Cons c ids)
  have go_on: "wp (cleanup_containers (recorded run) R name ids) (\<lambda>r w'. cleaned name (c # ids) (snd w) r (snd w')) (x, log)"
    if "current = name" "spares current log" "set (snd w) \<subseteq> set log" "disposed current log c" for x log name
  proof -
    have "wp (cleanup_containers (recorded run) R current ids) (\<lambda>r w'. cleaned current ids log r (snd w')) (x, log)"
      using Cons.IH [of "(x, log)"] that by simp
    then have "wp (cleanup_containers (recorded run) R current ids) (\<lambda>r w'. cleaned current (c # ids) (snd w) r (snd w')) (x, log)"
      by (rule wp_mono) (use that in \<open>auto intro: cleaned_Cons\<close>)
    with that(1) show ?thesis by simp
  qed
  show ?case
    using Cons.prems
    by (auto intro!: wp_intro wp_then_cases go_on cleaned_early
        simp: docker_output_def run_checked_def split: if_splits)
qed

text \<open>C20: replacing the container of a project never touches the new one. Whatever docker answers, a container
  is stopped or removed only after docker said, for that container, that its name is not the name of the
  current container; and when the clean-up succeeds, every container docker listed for the project is either
  the current one or was removed.\<close>

theorem cleanup_previous_spares_current:
  "case cleanup_previous H (recorded run) R project_id current (w, []) of (r, w', log) \<Rightarrow>
     spares current log
     \<and> (case r of
          Ready (Inr _) \<Rightarrow>
            (\<exists>out. (previous_command H project_id, Ready (Inr out)) \<in> set log
               \<and> list_all (disposed current log) (nonblank_lines (po_stdout out)))
        | _ \<Rightarrow> True)"
proof -
  let ?Q = "\<lambda>r w'. spares current (snd w') \<and> (\<forall>u. r = Ready (Inr u) \<longrightarrow>
      (\<exists>out. (previous_command H project_id, Ready (Inr out)) \<in> set (snd w')
         \<and> list_all (disposed current (snd w')) (nonblank_lines (po_stdout out))))"
  have "wp (cleanup_containers (recorded run) R current (nonblank_lines (po_stdout out))) ?Q
      (x, [(previous_command H project_id, Ready (Inr out))])" for out x
    by (rule wp_mono [OF wp_cleanup_containers]) (auto simp: cleaned_def)
  then have "wp (cleanup_previous H (recorded run) R project_id current) ?Q (w, [])"
    by (auto intro!: wp_intro wp_then_cases simp: cleanup_previous_def docker_output_def split: if_splits)
  then show ?thesis by (auto simp: wp_def split: prod.splits fut.splits sum.splits)
qed

subsection \<open>What a listing says\<close>

definition line_orphan :: "host_env \<Rightarrow> string \<Rightarrow> RuntimeOrphan option" where
  "line_orphan H line =
     (let fs = split_on CHR 0x09 line
      in map_option (\<lambda>reason. \<lparr>ro_container_id = field fs 0, ro_project_id = field_uuid H fs 2, ro_reason = reason\<rparr>)
           (orphan_reason (field_uuid H fs 2) (field_uuid H fs 3) (field fs 1)))"

definition line_workload :: "host_env \<Rightarrow> string \<Rightarrow> RuntimeWorkload option" where
  "line_workload H line =
     (let fs = split_on CHR 0x09 line
      in case (orphan_reason (field_uuid H fs 2) (field_uuid H fs 3) (field fs 1), field_uuid H fs 2, field_uuid H fs 3) of
           (None, Some p, Some d) \<Rightarrow>
             Some \<lparr>wl_container_id = field fs 0, wl_project_id = p, wl_deployment_id = d, wl_status = field fs 1\<rparr>
         | _ \<Rightarrow> None)"

lemma no_orphan_reason:
  "orphan_reason p d st = None \<longleftrightarrow>
     p \<noteq> None \<and> d \<noteq> None \<and> \<not> starts_with st ''Created'' \<and> \<not> starts_with st ''Exited'' \<and> \<not> starts_with st ''Dead''"
  by (auto simp: orphan_reason_def)

lemma orphan_xor_workload: "(line_orphan H line = None) \<noteq> (line_workload H line = None)"
  by (auto simp: line_orphan_def line_workload_def orphan_reason_def Let_def split: option.splits if_splits)

lemma classify_line_split:
  "classify_line H line rep =
     rep\<lparr>rr_inspected_containers := rr_inspected_containers rep + 1,
         rr_workloads := rr_workloads rep @ List.map_filter (line_workload H) [line],
         rr_orphans := rr_orphans rep @ List.map_filter (line_orphan H) [line]\<rparr>"
  by (auto simp: classify_line_def line_workload_def line_orphan_def Let_def map_filter_simps no_orphan_reason
      split: option.splits)

lemma classify_lines:
  "fold (classify_line H) ls rep =
     rep\<lparr>rr_inspected_containers := rr_inspected_containers rep + length ls,
         rr_workloads := rr_workloads rep @ List.map_filter (line_workload H) ls,
         rr_orphans := rr_orphans rep @ List.map_filter (line_orphan H) ls\<rparr>"
proof (induction ls arbitrary: rep)
  case (Cons l ls)
  have "fold (classify_line H) (l # ls) rep = fold (classify_line H) ls (classify_line H l rep)" by simp
  also have "\<dots> = rep\<lparr>rr_inspected_containers := rr_inspected_containers rep + length (l # ls),
         rr_workloads := rr_workloads rep @ List.map_filter (line_workload H) (l # ls),
         rr_orphans := rr_orphans rep @ List.map_filter (line_orphan H) (l # ls)\<rparr>"
    unfolding Cons.IH classify_line_split [of H l] by (simp add: map_filter_simps split: option.split)
  finally show ?case .
qed (simp add: map_filter_simps)

lemma map_filter_xor:
  assumes "\<And>x. (f x = None) \<noteq> (g x = None)"
  shows "length (List.map_filter f xs) + length (List.map_filter g xs) = length xs"
proof (induction xs)
  case (Cons x xs)
  with assms [of x] show ?case by (auto simp: map_filter_simps split: option.splits)
qed (simp add: map_filter_simps)

definition live :: "RuntimeWorkload \<Rightarrow> bool" where
  "live m \<longleftrightarrow> \<not> starts_with (wl_status m) ''Created'' \<and> \<not> starts_with (wl_status m) ''Exited'' \<and> \<not> starts_with (wl_status m) ''Dead''"

lemma map_filter_all: "(\<And>x y. f x = Some y \<Longrightarrow> P y) \<Longrightarrow> list_all P (List.map_filter f xs)"
  by (induction xs) (auto simp: map_filter_simps split: option.splits)


subsection \<open>Labels are written and read back\<close>

text \<open>The text form of UUIDs, as the \<^verbatim>\<open>uuid\<close> crate documents it: hexadecimal digits and hyphens, and parsing
  is the inverse of printing.\<close>

locale uuid_text =
  fixes str :: "uuid \<Rightarrow> string" and parse :: "string \<Rightarrow> uuid option"
  assumes parse_str [simp]: "parse (str u) = Some u"
    and str_chars: "list_all (\<lambda>c. is_ascii_hexdigit c \<or> c = CHR ''-'') (str u)"
begin

lemma str_no_tab [simp]: "CHR 0x09 \<notin> set (str u)"
  using str_chars [of u] by (auto simp: list_all_iff is_ascii_hexdigit_def is_ascii_digit_def)

lemma str_nonempty [simp]: "parse [] = None \<Longrightarrow> str u \<noteq> []"
  using parse_str [of u] by force

lemma str_inj: "str u = str v \<longleftrightarrow> u = v"
  by (metis option.inject parse_str)

end

interpretation hyphenated: uuid_text uuid_hyphenated uuid_parse
  by unfold_locales (use uuid_hyphenated_roundtrip in auto)

text \<open>The labels of a \<^verbatim>\<open>docker run\<close>: after \<^verbatim>\<open>run --detach\<close> the arguments are options with their values.\<close>

fun option_values :: "string \<Rightarrow> string list \<Rightarrow> string list" where
  "option_values flag (a # b # vs) = (if a = flag then b # option_values flag vs else option_values flag vs)"
| "option_values flag vs = []"

definition label_value :: "string \<Rightarrow> string list \<Rightarrow> string" where
  "label_value key labels =
     (case List.map_filter (\<lambda>l. strip_prefix l (key @ ''='')) labels of [] \<Rightarrow> [] | v # _ \<Rightarrow> v)"

definition run_labels :: "CommandSpec \<Rightarrow> string list" where
  "run_labels c = option_values ''--label'' (drop 2 (cs_args c))"

text \<open>The line \<^verbatim>\<open>docker ps\<close> prints for a container in the format of \<open>workload_command\<close>; a label the container
  does not have is printed as nothing.\<close>

definition ps_line :: "string \<Rightarrow> string \<Rightarrow> string list \<Rightarrow> string" where
  "ps_line container_id status labels =
     join [CHR 0x09] (container_id # status # map (\<lambda>key. label_value key labels)
       [DOMAIN_LABEL, PORT_LABEL, COMMAND_ID_LABEL, LOG_MAX_LINE_LABEL, LOG_MAX_BATCH_LABEL, LOG_MAX_TOTAL_LABEL])"

lemma split_on_join: "list_all (\<lambda>p. c \<notin> set p) ps \<Longrightarrow> ps \<noteq> [] \<Longrightarrow> split_on c (join [c] ps) = ps"
  by (induction "[c]" ps rule: join.induct) (simp_all add: split_on_single split_on_append_sep)

lemma label_value_Cons:
  "label_value key (l # ls) = (if starts_with l (key @ ''='') then drop (length key + 1) l else label_value key ls)"
  by (simp add: label_value_def map_filter_simps strip_prefix_def)

definition bound_text :: "u64 option \<Rightarrow> string" where
  "bound_text b = (case b of None \<Rightarrow> [] | Some n \<Rightarrow> show_word n)"

lemma run_labels_eq:
  "run_labels (run_command H D q env_file) =
     [MANAGED_LABEL, ''dev.sakala.project-id='' @ hf_uuid_str H (rq_project_id q),
      ''dev.sakala.deployment-id='' @ hf_uuid_str H (rq_deployment_id q), DOMAIN_LABEL @ ''='' @ rq_domain q,
      PORT_LABEL @ ''='' @ show_word (rq_port q), COMMAND_ID_LABEL @ ''='' @ hf_uuid_str H (rq_command_id q),
      WORKLOAD_KIND_LABEL, AGENT_ID_LABEL @ ''='' @ dc_agent_id D]
     @ option_values ''--label'' (bound_labels (rq_log_bounds q))"
proof -
  have tail: "option_values ''--label'' (bs @ vs) = option_values ''--label'' bs @ option_values ''--label'' vs"
    if "even (length bs)" for bs vs
    using that by (induction "''--label''" bs rule: option_values.induct) auto
  have "even (length (bound_labels b))" for b by (simp add: bound_labels_def split: option.split)
  then show ?thesis
    by (simp add: run_labels_def run_command_def tail label_defs split: option.split)
qed

lemma run_label_values:
  "map (\<lambda>key. label_value key (run_labels (run_command H D q env_file)))
     [DOMAIN_LABEL, PORT_LABEL, COMMAND_ID_LABEL, LOG_MAX_LINE_LABEL, LOG_MAX_BATCH_LABEL, LOG_MAX_TOTAL_LABEL]
   = [rq_domain q, show_word (rq_port q), hf_uuid_str H (rq_command_id q), bound_text (lb_max_line_length (rq_log_bounds q)),
      bound_text (lb_max_batch_lines (rq_log_bounds q)), bound_text (lb_max_total_bytes (rq_log_bounds q))]"
  by (simp add: run_labels_eq label_defs label_value_Cons starts_with_def bound_labels_def bound_text_def
      label_value_def [of _ "[]"] map_filter_simps split: option.split)

lemma dec_no_tab [simp]: "CHR 0x09 \<notin> set (dec n)"
  using dec_digits [of n] by (auto simp: list_all_iff is_ascii_digit_def)

lemma parse_show_u64 [simp]: "parse_u64 (show_word (n :: u64)) = Some n"
  using unsigned_less [of n, where ?'a = nat] by (simp add: parse_u64_def parse_uint_dec u64_max_def)

lemma parse_show_u16 [simp]: "parse_u16 (show_word (n :: u16)) = Some n"
  using unsigned_less [of n, where ?'a = nat] by (simp add: parse_u16_def parse_uint_dec)

lemma bound_text_parses [simp]: "parse_optional_label (Some (bound_text b)) = b"
  by (simp add: parse_optional_label_def bound_text_def split: option.split)

lemma bound_text_no_tab [simp]: "CHR 0x09 \<notin> set (bound_text b)"
  by (simp add: bound_text_def split: option.split)


definition demo_docker :: DockerContainerEngine where
  "demo_docker = \<lparr>dc_runtime_network = ''sakala-runtime'', dc_resource_safety = default_resource_safety,
     dc_max_active_containers = 5, dc_agent_id = ''node-1''\<rparr>"

definition demo_run_request :: RunContainerRequest where
  "demo_run_request =
     \<lparr>rq_command_id = 4, rq_project_id = 1, rq_deployment_id = 8, rq_name = ''sakala-app-1-8'', rq_image = ''sakala/project-1'',
      rq_workspace = ''/srv/4'', rq_environment = [(''APP_ENV'', ''production'')],
      rq_resources = \<lparr>ar_memory_mb = 256, ar_cpu_millis = 500, ar_pids_limit = 128\<rparr>,
      rq_domain = ''portfolio.run.sakala.dev'', rq_port = 3000,
      rq_log_bounds = \<lparr>lb_max_line_length = Some 4096, lb_max_batch_lines = None, lb_max_total_bytes = Some 65536\<rparr>\<rparr>"

lemma demo_uuid_text: "uuid_text (hf_uuid_str demo_host) (hf_uuid_parse demo_host)"
  using hyphenated.uuid_text_axioms by (simp add: demo_host_def)


subsection \<open>The environment of a container\<close>

definition env_entry :: "string \<times> string \<Rightarrow> string" where
  "env_entry e = fst e @ ''='' @ snd e @ [CHR 0x0A]"

text \<open>What docker reads from an env file: one entry per line, up to the first equals sign the name, blank
  lines and comments skipped.\<close>

definition env_file_entries :: "string \<Rightarrow> (string \<times> string) list" where
  "env_file_entries content =
     map (\<lambda>l. (takeWhile (\<lambda>c. c \<noteq> CHR ''='') l, drop 1 (dropWhile (\<lambda>c. c \<noteq> CHR ''='') l)))
       (filter (\<lambda>l. l \<noteq> [] \<and> \<not> starts_with l ''#'') (split_on CHR 0x0A content))"

definition safe_entry :: "string \<times> string \<Rightarrow> bool" where
  "safe_entry e \<longleftrightarrow> valid_env_key (fst e) \<and> safe_env_value (snd e)"

lemma valid_env_key_chars:
  "valid_env_key k \<Longrightarrow> k \<noteq> [] \<and> CHR ''='' \<notin> set k \<and> CHR 0x0A \<notin> set k \<and> \<not> starts_with (k @ s) ''#''"
proof (cases k)
  case (Cons c cs)
  have name: "b \<noteq> CHR ''='' \<and> b \<noteq> CHR 0x0A \<and> b \<noteq> CHR ''#''"
    if "b = CHR ''_'' \<or> is_ascii_uppercase b \<or> is_ascii_digit b" for b
    using that by (auto simp: is_ascii_uppercase_def is_ascii_digit_def)
  assume "valid_env_key k"
  with Cons have "\<forall>b\<in>set k. b = CHR ''_'' \<or> is_ascii_uppercase b \<or> is_ascii_digit b" by (auto simp: list_all_iff)
  with name have "\<forall>b\<in>set k. b \<noteq> CHR ''='' \<and> b \<noteq> CHR 0x0A \<and> b \<noteq> CHR ''#''" by blast
  with Cons show ?thesis by (auto simp: starts_with_def)
qed simp

lemma env_file_roundtrip: "list_all safe_entry es \<Longrightarrow> env_file_entries (concat (map env_entry es)) = es"
proof (induction es)
  case Nil
  then show ?case by (simp add: env_file_entries_def)
next
  case (Cons e es)
  obtain k v where e: "e = (k, v)" by (cases e)
  with Cons.prems have k: "valid_env_key k" and v: "CHR 0x0A \<notin> set v" by (auto simp: safe_entry_def safe_env_value_def)
  note kc = valid_env_key_chars [OF k]
  have "split_on CHR 0x0A (env_entry e @ rest) = (k @ ''='' @ v) # split_on CHR 0x0A rest" for rest
    using split_on_append_sep [of "CHR 0x0A" "k @ ''='' @ v" rest] kc v by (simp add: env_entry_def e)
  moreover have "takeWhile (\<lambda>c. c \<noteq> CHR ''='') (k @ ''='' @ v) = k" "dropWhile (\<lambda>c. c \<noteq> CHR ''='') (k @ ''='' @ v) = ''='' @ v"
    using kc by (simp_all add: takeWhile_append dropWhile_append)
  ultimately show ?case using Cons kc [of "''='' @ v"] e by (simp add: env_file_entries_def)
qed

lemma effective_environment_safe:
  assumes "list_all safe_entry es"
  shows "list_all safe_entry (effective_environment es port)"
proof -
  have "safe_env_value (dec n)" for n
    using dec_digits [of n] by (auto simp: safe_env_value_def list_all_iff is_ascii_digit_def)
  moreover have "valid_env_key ''PORT''" by code_simp
  ultimately have "list_all safe_entry (btree_insert ''PORT'' (show_word port) es)"
    using assms by (induction "''PORT''" "show_word port" es rule: btree_insert.induct) (auto simp: safe_entry_def)
  with assms show ?thesis by (simp add: effective_environment_def split: option.split)
qed

lemma map_of_btree_insert: "map_of es k = None \<Longrightarrow> map_of (btree_insert k v es) k = Some v"
  by (induction k v es rule: btree_insert.induct) (auto split: if_splits)

lemma effective_environment_port:
  "\<forall>p. map_of es ''PORT'' = Some p \<longrightarrow> parse_u16 p = Some port
   \<Longrightarrow> Option.bind (map_of (effective_environment es port) ''PORT'') parse_u16 = Some port"
  by (auto simp: effective_environment_def map_of_btree_insert split: option.split)

lemma effective_environment_nonempty: "effective_environment es port \<noteq> []"
  by (cases es) (auto simp: effective_environment_def split: option.split if_splits)

lemma host_step_works:
  "faultless H \<Longrightarrow> work (hw_files w) = Inr (x, fs)
   \<Longrightarrow> hio_try (host_step H work part) w = (Ready (Inr x), w\<lparr>hw_io := Suc (hw_io w), hw_files := fs\<rparr>)"
  by (simp add: faultless_def hio_try_def host_step_def)

definition with_file :: "string \<Rightarrow> hnode \<Rightarrow> 'x host_world \<Rightarrow> 'x host_world \<Rightarrow> bool" where
  "with_file path x w w' \<longleftrightarrow>
     map_of (hw_files w') path = Some x \<and> (\<forall>p. p \<noteq> path \<longrightarrow> map_of (hw_files w') p = map_of (hw_files w) p)
     \<and> hw_env w' = hw_env w"

lemma write_entries_works:
  assumes "faultless H" "map_of (hw_files w) path = Some (HFile c m)"
  shows "\<exists>w'. write_entries H path es w = (Ready (Inr ()), w')
     \<and> with_file path (HFile (c @ concat (map env_entry es)) m) w w'"
  using assms(2)
proof (induction es arbitrary: w c)
  case Nil
  then show ?case by (simp add: with_file_def)
next
  case (Cons e es)
  obtain k v where e: "e = (k, v)" by (cases e)
  let ?w = "w\<lparr>hw_io := Suc (hw_io w), hw_files := append_content path (env_entry e) (hw_files w)\<rparr>"
  have "map_of (hw_files ?w) path = Some (HFile (c @ env_entry e) m)"
    using Cons.prems by (simp add: append_content_def AList.update_conv)
  from Cons.IH [OF this] obtain w' where w': "write_entries H path es ?w = (Ready (Inr ()), w')"
      "with_file path (HFile ((c @ env_entry e) @ concat (map env_entry es)) m) ?w w'"
    by blast
  have "hio_try (fs_write_all H path (k @ ''='' @ v @ [CHR 0x0A])) w = (Ready (Inr ()), ?w)"
    unfolding fs_write_all_def by (rule host_step_works) (use assms(1) in \<open>simp_all add: env_entry_def e\<close>)
  with w' Cons.prems show ?case
    by (auto simp: e with_file_def append_content_def AList.update_conv)
qed

lemma write_env_file_works:
  assumes "faultless H" "map_of (hw_files w) (path_join ws ''runtime.env'') = None" "es \<noteq> []"
  shows "\<exists>w'. write_env_file H ws es w = (Ready (Inr (Some (path_join ws ''runtime.env''))), w')
     \<and> with_file (path_join ws ''runtime.env'') (HFile (concat (map env_entry es)) 384) w w'"
proof -
  let ?p = "path_join ws ''runtime.env''"
  let ?w = "w\<lparr>hw_io := Suc (hw_io w), hw_files := AList.update ?p (HFile [] 384) (hw_files w)\<rparr>"
  have create: "hio_try (fs_create_new H ?p 384) w = (Ready (Inr ()), ?w)"
    unfolding fs_create_new_def by (rule host_step_works) (use assms in simp_all)
  have "map_of (hw_files ?w) ?p = Some (HFile [] 384)" by (simp add: AList.update_conv)
  from write_entries_works [OF assms(1) this, of es] obtain w' where
    w': "write_entries H ?p es ?w = (Ready (Inr ()), w')" "with_file ?p (HFile ([] @ concat (map env_entry es)) 384) ?w w'"
    by blast
  have "hio_try (fs_flush H) w' = (Ready (Inr ()), w'\<lparr>hw_io := Suc (hw_io w'), hw_files := hw_files w'\<rparr>)"
    unfolding fs_flush_def by (rule host_step_works) (use assms in simp_all)
  with create w' assms(3) show ?thesis
    by (auto simp: write_env_file_def Let_def with_file_def AList.update_conv)
qed



subsection \<open>Admission\<close>

text \<open>Whether a deployment of a project may start beside the projects that are running.\<close>

definition admits :: "nat \<Rightarrow> string \<Rightarrow> string list \<Rightarrow> bool" where
  "admits maximum project active \<longleftrightarrow> project \<in> set active \<or> length active < maximum"

lemma ensure_capacity_admits:
  assumes "docker_output run capacity_command ''docker capacity inspection'' w = (Ready (Inr stdout), w')"
  shows "ensure_capacity H D run project_id w =
    (if admits (unat (dc_max_active_containers D)) (hf_uuid_str H project_id) (active_projects stdout)
     then (Ready (Inr ()), w')
     else (Ready (Inl (Capacity (''node already runs '' @ dec (length (active_projects stdout))
        @ '' managed containers; configured maximum is '' @ show_word (dc_max_active_containers D)))), w'))"
  using assms by (auto simp: ensure_capacity_def admits_def Let_def list_ex_iff)

subsection \<open>Log followers\<close>

definition live_followers :: "string \<Rightarrow> 'x host_world \<Rightarrow> nat" where
  "live_followers container w = length (filter (\<lambda>(c, finished). c = container \<and> \<not> finished) (hw_followers w))"

lemma start_log_follower_once:
  assumes "distinct (map fst (hw_followers w))"
  shows "case start_log_follower container command_id bounds w of (started, w') \<Rightarrow>
    distinct (map fst (hw_followers w')) \<and> live_followers container w' = 1
    \<and> (started \<longleftrightarrow> live_followers container w = 0)
    \<and> length (hw_spawned w') = length (hw_spawned w) + (if started then 1 else 0)"
proof -
  let ?live = "filter (\<lambda>(_, finished). \<not> finished) (hw_followers w)"
  have d: "distinct (map fst ?live)" using assms by (simp add: distinct_map_filter)
  have one: "length (filter (\<lambda>(c, finished). c = container \<and> \<not> finished) es) \<le> 1"
    if "distinct (map fst es)" for es :: "(string \<times> bool) list"
    using that by (induction es) (auto simp: filter_empty_conv split: prod.splits)
  have same: "filter (\<lambda>(c, finished). c = container \<and> \<not> finished) ?live
      = filter (\<lambda>(c, finished). c = container \<and> \<not> finished) (hw_followers w)"
    by (simp add: case_prod_unfold conj_commute)
  show ?thesis
  proof (cases "map_of ?live container")
    case None
    then have "live_followers container w = 0"
      by (force simp: live_followers_def map_of_eq_None_iff filter_empty_conv)
    with None d same show ?thesis
      by (auto simp: start_log_follower_def live_followers_def map_of_eq_None_iff Let_def)
  next
    case (Some b)
    then have "(container, b) \<in> set ?live" by (rule map_of_SomeD)
    then have "0 < length (filter (\<lambda>(c, finished). c = container \<and> \<not> finished) ?live)"
      by (force simp: length_greater_0_conv filter_empty_conv simp del: length_greater_0_conv)
    with one [OF d] have "length (filter (\<lambda>(c, finished). c = container \<and> \<not> finished) ?live) = 1" by linarith
    with Some d same show ?thesis
      by (simp add: start_log_follower_def live_followers_def Let_def ex_bool_eq)
  qed
qed

end
