(* ===== verification/Workspace.thy ===== *)
theory Workspace
  imports Host_Files
begin

text \<open>
  Deployment workspaces, \<^verbatim>\<open>workspace/git.rs\<close> of \<^verbatim>\<open>sakala-agent-runtime\<close>: the checkout of a repository at a
  commit, with a temporary credential handed to git through an askpass script and the environment of one
  command, the removal of a workspace, the collection of stale workspaces, and the free space of the disk.
\<close>

subsection \<open>Checkout\<close>

definition ASKPASS_SCRIPT :: string where
  "ASKPASS_SCRIPT =
     ''#!/bin/sh'' @ [CHR 0x0A] @ ''case \"$1\" in'' @ [CHR 0x0A]
     @ ''  *Username*) printf '' @ [CHR 0x27] @ ''%s'' @ [CHR 0x5C] @ ''n'' @ [CHR 0x27] @ '' \"$SAKALA_GIT_ASKPASS_USERNAME\" ;;'' @ [CHR 0x0A]
     @ ''  *) printf '' @ [CHR 0x27] @ ''%s'' @ [CHR 0x5C] @ ''n'' @ [CHR 0x27] @ '' \"$SAKALA_GIT_ASKPASS_TOKEN\" ;;'' @ [CHR 0x0A]
     @ ''esac'' @ [CHR 0x0A]"

definition workspace_path :: "host_env \<Rightarrow> string \<Rightarrow> uuid \<Rightarrow> string" where
  "workspace_path H root command_id = path_join root (hf_uuid_str H command_id)"

definition askpass_path :: "string \<Rightarrow> string" where
  "askpass_path root = path_join root ''.sakala-git-askpass''"

definition restrict_workspace_permissions :: "host_env \<Rightarrow> string \<Rightarrow> ('x host_world, unit) async" where
  "restrict_workspace_permissions H root = hio_try (fs_set_permissions H root 448)"

definition write_askpass :: "host_env \<Rightarrow> string \<Rightarrow> ('x host_world, string) async" where
  "write_askpass H root =
     abind (hio_try (host_write H (askpass_path root) ASKPASS_SCRIPT)) (\<lambda>_.
     abind (hio_try (fs_set_permissions H (askpass_path root) 448)) (\<lambda>_.
     aret (askpass_path root)))"

definition git :: "string list \<Rightarrow> CommandSpec" where
  "git vs = with_cancellation (args vs (command_new ''git''))"

definition fetch_command :: "DeploymentWorkspace \<Rightarrow> RepositorySource \<Rightarrow> string option \<Rightarrow> CommandSpec" where
  "fetch_command ws src askpass =
     (let fetch = git [''-C'', ws_source ws, ''fetch'', ''--depth=1'', ''origin'', src_commit_sha src]
      in case (src_credential src, askpass) of
           (Some credential, Some script) \<Rightarrow>
             secret_env ''SAKALA_GIT_ASKPASS_TOKEN'' (rc_token credential)
               (env ''SAKALA_GIT_ASKPASS_USERNAME'' (rc_username credential)
                 (env ''GIT_ASKPASS'' script
                   (env ''GIT_TERMINAL_PROMPT'' ''0'' fetch)))
         | _ \<Rightarrow> fetch)"

definition git_steps :: "'w runner \<Rightarrow> 'w reporter \<Rightarrow> DeploymentWorkspace \<Rightarrow> RepositorySource \<Rightarrow> string option \<Rightarrow> ('w, unit) async" where
  "git_steps run R ws src askpass =
     abind (run_checked run (git [''init'', ''--initial-branch=sakala'', ws_source ws]) ''git-init'' R) (\<lambda>_.
     abind (run_checked run (git [''-C'', ws_source ws, ''remote'', ''add'', ''origin'', src_repository_url src]) ''git-remote'' R) (\<lambda>_.
     abind (run_checked run (fetch_command ws src askpass) ''git-fetch'' R) (\<lambda>_.
     abind (run_checked run (git [''-C'', ws_source ws, ''checkout'', ''--detach'', ''FETCH_HEAD'']) ''git-checkout'' R) (\<lambda>_.
     aret ()))))"

definition workspace_cleanup :: "host_env \<Rightarrow> DeploymentWorkspace \<Rightarrow> ('x host_world, unit) async" where
  "workspace_cleanup H ws = abind (hio_found (fs_remove_dir_all H (ws_root ws))) (\<lambda>_. aret ())"

definition prepare_workspace :: "host_env \<Rightarrow> DeploymentWorkspace \<Rightarrow> RepositorySource \<Rightarrow> ('x host_world, string option) async" where
  "prepare_workspace H ws src =
     abind (hio_try (fs_try_exists H (ws_root ws))) (\<lambda>exists.
     abind (if exists then hio_try (fs_remove_dir_all H (ws_root ws)) else aret ()) (\<lambda>_.
     abind (hio_try (host_create_dir_all H (ws_root ws))) (\<lambda>_.
     abind (restrict_workspace_permissions H (ws_root ws)) (\<lambda>_.
     case src_credential src of
       None \<Rightarrow> aret None
     | Some _ \<Rightarrow> abind (write_askpass H (ws_root ws)) (\<lambda>script. aret (Some script))))))"

definition checkout :: "host_env \<Rightarrow> string \<Rightarrow> 'x host_world runner \<Rightarrow> 'x host_world reporter \<Rightarrow> uuid \<Rightarrow> RepositorySource
    \<Rightarrow> ('x host_world, DeploymentWorkspace) async" where
  "checkout H root run R command_id src =
     (let ws = workspace_new (workspace_path H root command_id)
      in abind (prepare_workspace H ws src) (\<lambda>askpass.
         abind (atry (git_steps run R ws src askpass)) (\<lambda>checkout_result.
         abind (case askpass of
                  Some script \<Rightarrow> atry (hio_try (host_remove_file H script))
                | None \<Rightarrow> aret (Inr ())) (\<lambda>askpass_cleanup.
         case checkout_result of
           Inl error \<Rightarrow> abind (atry (workspace_cleanup H ws)) (\<lambda>_. athrow error)
         | Inr _ \<Rightarrow>
             (case askpass_cleanup of
                Inl error \<Rightarrow> abind (atry (workspace_cleanup H ws)) (\<lambda>_. athrow error)
              | Inr _ \<Rightarrow> aret ws)))))"

subsection \<open>Stale workspaces\<close>

definition workspace_age :: "timestamp \<Rightarrow> timestamp \<Rightarrow> duration" where
  "workspace_age now modified = nat (now - modified)"

fun cleanup_entries :: "host_env \<Rightarrow> string \<Rightarrow> timestamp \<Rightarrow> duration \<Rightarrow> (string \<times> hnode) list \<Rightarrow> nat \<Rightarrow> ('x host_world, nat) async" where
  "cleanup_entries H root now minimum_age [] cleaned = abind (hio_try (host_observe H)) (\<lambda>_. aret cleaned)"
| "cleanup_entries H root now minimum_age ((name, x) # es) cleaned =
     abind (hio_try (host_observe H)) (\<lambda>_.
     abind (hio_try (host_observe H)) (\<lambda>_.
       case x of
         HDir mode modified \<Rightarrow>
           if hf_uuid_parse H name = None then cleanup_entries H root now minimum_age es cleaned
           else
             abind (hio_try (host_observe H)) (\<lambda>_.
               if workspace_age now modified < minimum_age then cleanup_entries H root now minimum_age es cleaned
               else
                 abind (hio_try (fs_remove_dir_all H (path_join root name))) (\<lambda>_.
                 cleanup_entries H root now minimum_age es (cleaned + 1)))
       | _ \<Rightarrow> cleanup_entries H root now minimum_age es cleaned))"

definition cleanup_stale :: "host_env \<Rightarrow> string \<Rightarrow> duration \<Rightarrow> ('x host_world, nat) async" where
  "cleanup_stale H root minimum_age =
     abind (hio_found (host_read_dir H root)) (\<lambda>found.
       case found of
         None \<Rightarrow> aret 0
       | Some entries \<Rightarrow> (\<lambda>w. cleanup_entries H root (hw_now w) minimum_age entries 0 w))"

subsection \<open>Free space\<close>

definition parse_available_disk_bytes :: "string \<Rightarrow> RuntimeError + u64" where
  "parse_available_disk_bytes text =
     res_bind (ok_or (case filter (\<lambda>l. trim l \<noteq> []) (rev (lines text)) of [] \<Rightarrow> None | l # _ \<Rightarrow> Some l)
       (Dependency ''workspace disk inspection returned no data'')) (\<lambda>line.
     res_bind (ok_or (nth_opt (split_whitespace line) 3) (Dependency ''workspace disk inspection format is invalid'')) (\<lambda>v.
     res_bind (ok_or (parse_u64 v) (Dependency ''workspace disk availability is invalid'')) (\<lambda>available_blocks.
     ok_or (checked_mul available_blocks 1024) (Dependency ''workspace disk availability is too large to represent''))))"

definition available_disk_bytes :: "string \<Rightarrow> 'w runner \<Rightarrow> ('w, u64) async" where
  "available_disk_bytes root run =
     abind (run (args [''-Pk'', root] (command_new ''df'')) null_sink) (\<lambda>out.
       if \<not> po_success out
       then athrow (Dependency (''workspace disk inspection exited with status '' @ status_debug (po_code out)))
       else alift (parse_available_disk_bytes (po_stdout out)))"

definition git_workspace_manager :: "host_env \<Rightarrow> string \<Rightarrow> 'x host_world runner \<Rightarrow> 'x host_world reporter
    \<Rightarrow> 'x host_world workspace_manager" where
  "git_workspace_manager H root run R =
     \<lparr>wm_checkout = checkout H root run R, wm_cleanup = workspace_cleanup H, wm_cleanup_stale = cleanup_stale H root,
      wm_available_disk_bytes = available_disk_bytes root run\<rparr>"

subsection \<open>Where the token goes\<close>

text \<open>A runner that does not look at the secret environment of its command.\<close>

definition blind :: "'w runner \<Rightarrow> bool" where
  "blind run \<longleftrightarrow> (\<forall>c secrets. run (c\<lparr>cs_secret_environment := secrets\<rparr>) = run c)"

definition with_token :: "string \<Rightarrow> RepositorySource \<Rightarrow> RepositorySource" where
  "with_token token src = src\<lparr>src_credential := map_option (\<lambda>c. c\<lparr>rc_token := token\<rparr>) (src_credential src)\<rparr>"

lemma fetch_command_token:
  "\<exists>secrets. fetch_command ws (with_token token src) askpass = (fetch_command ws src askpass)\<lparr>cs_secret_environment := secrets\<rparr>"
proof -
  have same: "\<exists>secrets. c = c\<lparr>cs_secret_environment := secrets\<rparr>" for c :: CommandSpec
    by (rule exI [of _ "cs_secret_environment c"]) simp
  show ?thesis
    by (cases "src_credential src"; cases askpass)
      (auto simp: fetch_command_def with_token_def secret_env_def env_def Let_def intro: exI same)
qed

text \<open>The token of a repository credential leaves the agent through one door only, the secret environment of
  \<^verbatim>\<open>git fetch\<close>. For programs that do not read that environment the whole checkout is the same whatever the
  token is: the files written, the command lines and the plain environment of every command, the logs, the
  workspace and the error.\<close>

theorem checkout_confines_token:
  assumes "blind run"
  shows "checkout H root run R command_id (with_token token src) = checkout H root run R command_id src"
proof -
  have "git_steps run R ws (with_token token src) askpass = git_steps run R ws src askpass" for ws askpass
  proof -
    obtain secrets where "fetch_command ws (with_token token src) askpass = (fetch_command ws src askpass)\<lparr>cs_secret_environment := secrets\<rparr>"
      using fetch_command_token by blast
    then have "run (fetch_command ws (with_token token src) askpass) = run (fetch_command ws src askpass)"
      using assms by (simp add: blind_def)
    then show ?thesis by (simp add: git_steps_def run_checked_def) (simp add: with_token_def)
  qed
  moreover have "prepare_workspace H ws (with_token token src) = (prepare_workspace H ws src :: ('a host_world, string option) async)" for ws
    by (cases "src_credential src") (simp_all add: prepare_workspace_def with_token_def)
  ultimately show ?thesis by (simp add: checkout_def)
qed

definition private_source :: "string \<Rightarrow> RepositorySource" where
  "private_source token = \<lparr>src_repository_url = ''https://github.com/gmedia/private.git'',
     src_commit_sha = ''0123456789abcdef0123456789abcdef01234567'',
     src_credential = Some \<lparr>rc_username = ''x-access-token'', rc_token = token\<rparr>\<rparr>"

theorem checkout_confines_token_witness:
  "checkout demo_host ''/srv'' (answering []) quiet_reporter 4 (private_source ''secret-1'') demo_world
   = checkout demo_host ''/srv'' (answering []) quiet_reporter 4 (private_source ''secret-2'') demo_world"
proof -
  have "blind (answering [] :: unit host_world runner)" by (simp add: blind_def answering_def fun_eq_iff)
  from checkout_confines_token [OF this, of demo_host "''/srv''" quiet_reporter 4 "''secret-1''" "private_source ''secret-2''"]
  show ?thesis by (simp add: with_token_def private_source_def)
qed

subsection \<open>The askpass script\<close>

definition no_script :: "string \<Rightarrow> 'x host_world \<Rightarrow> bool" where
  "no_script path w \<longleftrightarrow> (\<forall>c m. map_of (hw_files w) path \<noteq> Some (HFile c m))"

lemma path_steps_length: "q \<in> set (path_steps seen p) \<Longrightarrow> length q \<le> length seen + length p"
  by (induction seen p rule: path_steps.induct) (auto split: if_splits)

lemma make_dirs_other: "make_dirs now ps fs = Inr (u, fs') \<Longrightarrow> p \<notin> set ps \<Longrightarrow> map_of fs' p = map_of fs p"
  by (induction now ps fs rule: make_dirs.induct) (auto simp: map_add_def split: option.splits hnode.splits if_splits)

lemma askpass_longer: "length root < length (askpass_path root)"
  by (simp add: askpass_path_def path_join_def starts_with_def)

lemma created_file_resolves: "map_of fs p = Some (HFile c m) \<Longrightarrow> resolve fs p = Some p"
  by (simp add: resolve_def numeral_eq_Suc)

lemma wp_prepare:
  assumes H: "faultless H" and cred: "src_credential src = Some cred" and none: "map_of (hw_files w) (askpass_path (ws_root ws)) = None"
    and ok: "\<And>w'. Q (Ready (Inr (Some (askpass_path (ws_root ws))))) w'"
    and err: "\<And>e w'. no_script (askpass_path (ws_root ws)) w' \<Longrightarrow> Q (Ready (Inl e)) w'"
  shows "wp (prepare_workspace H ws src) Q w"
proof -
  let ?r = "ws_root ws"
  let ?p = "askpass_path ?r"
  have none_script: "map_of (hw_files w') ?p = None \<Longrightarrow> no_script ?p w'" for w' :: "'a host_world" by (simp add: no_script_def)
  have script: "wp (write_askpass H ?r) (wp_then (\<lambda>script. aret (Some script)) Q) w'" if "map_of (hw_files w') ?p = None" for w'
    unfolding write_askpass_def host_write_def fs_set_permissions_def
    using that by (auto intro!: wp_hio_try_ok [OF H] ok err none_script
        simp: put_content_def created_file_resolves AList.update_conv)
  have perms: "wp (restrict_workspace_permissions H ?r) (wp_then (\<lambda>_. abind (write_askpass H ?r) (\<lambda>script. aret (Some script))) Q) w'"
    if "map_of (hw_files w') ?p = None" for w'
    unfolding restrict_workspace_permissions_def fs_set_permissions_def
    using that by (auto intro!: wp_hio_try_ok [OF H] script err none_script simp: AList.update_conv split: option.splits)
  have create: "wp (hio_try (host_create_dir_all H ?r)) (wp_then (\<lambda>_. abind (restrict_workspace_permissions H ?r)
        (\<lambda>_. abind (write_askpass H ?r) (\<lambda>script. aret (Some script)))) Q) w'" if "map_of (hw_files w') ?p = None" for w'
  proof -
    have "?p \<notin> set (path_steps [] ?r)" using path_steps_length [of ?p "[]" ?r] askpass_longer [of ?r] by auto
    moreover have "wp (hio_try (host_create_dir_all H ?r)) Q' w' = wp (hio_try (host_step H (make_dirs (hw_now w') (path_steps [] ?r)) no_part)) Q' w'"
      for Q' :: "(RuntimeError, unit) fut \<Rightarrow> 'a host_world \<Rightarrow> bool"
      by (simp add: wp_def hio_try_def host_create_dir_all_def)
    moreover have "map_of fs ?p = None" if "make_dirs now (path_steps [] ?r) (hw_files w') = Inr (u, fs)" for now u fs
      using make_dirs_other [OF that calculation(1)] \<open>map_of (hw_files w') ?p = None\<close> by simp
    ultimately show ?thesis
      using that by (auto intro!: wp_hio_try_ok [OF H] perms err none_script)
  qed
  show ?thesis
    unfolding prepare_workspace_def fs_try_exists_def fs_remove_dir_all_def
    using none cred by (auto intro!: wp_hio_try_ok [OF H] create err none_script
        simp: do_remove_tree_def map_of_filter_key split: option.splits hnode.splits)
qed

lemma wp_cleanup_script:
  assumes "faultless H" "no_script p w" "\<And>r w'. no_script p w' \<Longrightarrow> Q r w'"
  shows "wp (workspace_cleanup H ws) Q w"
  unfolding workspace_cleanup_def fs_remove_dir_all_def
  using assms(2) by (auto intro!: wp_hio_found_ok [OF assms(1)] assms(3)
      simp: no_script_def do_remove_tree_def map_of_filter_key split: option.splits hnode.splits)

text \<open>The askpass script never outlives the checkout it was written for. When the file operations work, a
  checkout that returns, with a workspace or with an error, leaves no file at the path of the script, whatever
  git did.\<close>

theorem askpass_removed:
  assumes "faultless H" "src_credential src \<noteq> None"
    and "map_of (hw_files w) (askpass_path (workspace_path H root command_id)) = None"
  shows "case checkout H root run R command_id src w of
    (Ready r, w') \<Rightarrow> no_script (askpass_path (workspace_path H root command_id)) w' | (Cut, w') \<Rightarrow> True"
proof -
  let ?ws = "workspace_new (workspace_path H root command_id)"
  let ?p = "askpass_path (workspace_path H root command_id)"
  let ?Q = "\<lambda>r w'. r = Cut \<or> no_script ?p w'"
  have gone: "wp (hio_try (host_remove_file H ?p)) Q' w'" if "\<And>r w'. no_script ?p w' \<Longrightarrow> Q' r w'" for Q' w'
    unfolding host_remove_file_def
    by (auto intro!: wp_hio_try_ok [OF assms(1)] that simp: no_script_def map_of_filter_key split: option.splits hnode.splits)
  from assms(2) obtain cred where cred: "src_credential src = Some cred" by blast
  have root: "ws_root ?ws = workspace_path H root command_id" by (simp add: workspace_new_def)
  have "wp (checkout H root run R command_id src) ?Q w"
    unfolding checkout_def Let_def
    by (simp, rule wp_prepare [OF assms(1) cred])
      (use assms(3) root in \<open>auto intro!: wp_any [where m = "git_steps run R ?ws src askpass" for askpass] gone wp_then_cases wp_try_cases wp_cleanup_script [OF assms(1), of ?p] split: sum.splits\<close>)
  then show ?thesis by (auto simp: wp_def root split: prod.splits fut.splits)
qed

theorem askpass_removed_witness:
  "case checkout demo_host ''/srv'' (answering []) quiet_reporter 4 (private_source ''secret'') demo_world of
     (Ready r, w') \<Rightarrow> no_script (askpass_path (workspace_path demo_host ''/srv'' 4)) w' | (Cut, w') \<Rightarrow> True"
proof (rule askpass_removed [OF demo_faultless])
  show "src_credential (private_source ''secret'') \<noteq> None" by (simp add: private_source_def)
  show "map_of (hw_files demo_world) (askpass_path (workspace_path demo_host ''/srv'' 4)) = None" by code_simp
qed

subsection \<open>Collecting stale workspaces\<close>

text \<open>The directories that may be collected: named by a UUID, directly in the workspace root, and old enough.\<close>

definition collectable :: "host_env \<Rightarrow> string \<Rightarrow> timestamp \<Rightarrow> duration \<Rightarrow> (string \<times> hnode) list \<Rightarrow> string set" where
  "collectable H root now minimum_age es =
     {p. \<exists>name mode modified. (name, HDir mode modified) \<in> set es \<and> hf_uuid_parse H name \<noteq> None
        \<and> minimum_age \<le> workspace_age now modified \<and> (p = path_join root name \<or> below (path_join root name) p)}"

definition changed :: "files \<Rightarrow> files \<Rightarrow> string set" where
  "changed fs fs' = {p. map_of fs p \<noteq> map_of fs' p}"

lemma changed_refl [simp]: "changed fs fs = {}"
  by (simp add: changed_def)

lemma changed_trans: "changed fs fs' \<subseteq> S \<Longrightarrow> changed fs' fs'' \<subseteq> S \<Longrightarrow> changed fs fs'' \<subseteq> S"
  by (fastforce simp: changed_def)

lemma collectable_Cons:
  "collectable H root now age ((name, x) # es) = collectable H root now age [(name, x)] \<union> collectable H root now age es"
  unfolding collectable_def by (rule set_eqI) (simp, blast)

lemma wp_look:
  assumes "changed fs (hw_files w) \<subseteq> S" "\<And>w'. changed fs (hw_files w') \<subseteq> S \<Longrightarrow> wp m (\<lambda>r w'. changed fs (hw_files w') \<subseteq> S) w'"
  shows "wp (hio_try (host_observe H)) (wp_then (\<lambda>_. m) (\<lambda>r w'. changed fs (hw_files w') \<subseteq> S)) w"
  using assms by (auto intro!: wp_hio_try simp: host_observe_def may_leave_def no_part_def)

lemma wp_remove_dir:
  assumes "changed fs (hw_files w) \<subseteq> S" "{p. p = d \<or> below d p} \<subseteq> S"
    and "\<And>w'. changed fs (hw_files w') \<subseteq> S \<Longrightarrow> wp m (\<lambda>r w'. changed fs (hw_files w') \<subseteq> S) w'"
  shows "wp (hio_try (fs_remove_dir_all H d)) (wp_then (\<lambda>_. m) (\<lambda>r w'. changed fs (hw_files w') \<subseteq> S)) w"
proof -
  let ?work = "\<lambda>fs. case map_of fs d of
          None \<Rightarrow> Inl NotFound
        | Some (HFile _ _) \<Rightarrow> Inl (Other_Io ''Not a directory (os error 20)'')
        | Some (HLink _) \<Rightarrow> Inr ((), filter (\<lambda>(q, _). q \<noteq> d) fs)
        | Some (HDir _ _) \<Rightarrow> Inr ((), do_remove_tree d fs)"
  have left: "changed fs fs' \<subseteq> S" if "may_leave ?work (\<lambda>n. remove_some n d) (hw_files w) fs'" for fs'
  proof (rule changed_trans [OF assms(1)])
    from remove_dir_outside [OF that] assms(2) show "changed (hw_files w) fs' \<subseteq> S" by (force simp: changed_def)
  qed
  then have "changed fs fs' \<subseteq> S" if "?work (hw_files w) = Inr (x, fs')" for x fs'
    using that by (force simp: may_leave_def)
  with left show ?thesis unfolding fs_remove_dir_all_def by (intro wp_hio_try) (simp_all add: assms(3))
qed

lemma wp_cleanup_entries:
  "collectable H root now age es \<subseteq> S \<Longrightarrow> changed fs (hw_files w) \<subseteq> S \<Longrightarrow>
   wp (cleanup_entries H root now age es cleaned) (\<lambda>r w'. changed fs (hw_files w') \<subseteq> S) w"
proof (induction es arbitrary: w cleaned)
  case Nil
  then show ?case by (simp add: wp_look)
next
  case (Cons e es)
  obtain name x where e: "e = (name, x)" by (cases e)
  with Cons.prems have one: "collectable H root now age [(name, x)] \<subseteq> S" and rest: "collectable H root now age es \<subseteq> S"
    by (simp_all add: collectable_Cons [of H root now age name x es])
  note IH = Cons.IH [OF rest]
  show ?case
  proof (cases x)
    case (HDir mode modified)
    have "{p. p = path_join root name \<or> below (path_join root name) p} \<subseteq> S"
      if "hf_uuid_parse H name \<noteq> None" "\<not> workspace_age now modified < age"
      using one that HDir by (auto simp: collectable_def)
    with e HDir Cons.prems(2) IH show ?thesis by (auto intro!: wp_look wp_remove_dir)
  qed (use e Cons.prems(2) IH in \<open>auto intro!: wp_look\<close>)
qed

text \<open>C35: collecting stale workspaces never touches anything else. However the collection ends, every path it
  changed is, or lies below, a directory directly in the workspace root whose name is a UUID and whose age
  has reached the limit: no file, no symbolic link and no directory with another name is removed.\<close>

theorem workspace_gc_only_stale:
  "case (cleanup_stale H root minimum_age w, resolve (hw_files w) root) of
     ((r, w'), Some t) \<Rightarrow>
       changed (hw_files w) (hw_files w')
         \<subseteq> collectable H root (hw_now w) minimum_age (entries_of t (hw_files w))
   | ((r, w'), None) \<Rightarrow> hw_files w' = hw_files w"
proof -
  let ?S = "case resolve (hw_files w) root of
      Some t \<Rightarrow> collectable H root (hw_now w) minimum_age (entries_of t (hw_files w)) | None \<Rightarrow> {}"
  have now: "wp (\<lambda>w. cleanup_entries H root (hw_now w) minimum_age es 0 w) Q w'
      = wp (cleanup_entries H root (hw_now w') minimum_age es 0) Q w'" for es Q and w' :: "'a host_world"
    by (simp add: wp_def)
  have "wp (cleanup_stale H root minimum_age) (\<lambda>r w'. changed (hw_files w) (hw_files w') \<subseteq> ?S) w"
    unfolding cleanup_stale_def host_read_dir_def
    by (auto intro!: wp_hio_found wp_cleanup_entries simp: now may_leave_def no_part_def split: option.splits hnode.splits)
  moreover have "wp (cleanup_stale H root minimum_age) (\<lambda>r w'. hw_files w' = hw_files w) w" if "resolve (hw_files w) root = None"
    unfolding cleanup_stale_def host_read_dir_def
    using that by (auto intro!: wp_hio_found simp: may_leave_def no_part_def)
  ultimately show ?thesis by (auto simp: wp_def split: prod.splits option.splits)
qed

end
