(* ===== verification/Build_Services.thy ===== *)
theory Build_Services
  imports Host_Files
begin

text \<open>
  Building, inspecting and watching a candidate: \<^verbatim>\<open>builders/mod.rs\<close>, \<^verbatim>\<open>builders/dockerfile.rs\<close>,
  \<^verbatim>\<open>railpack/commands.rs\<close>, \<^verbatim>\<open>inspections/mod.rs\<close> and \<^verbatim>\<open>health/docker.rs\<close> of \<^verbatim>\<open>sakala-agent-runtime\<close>.
\<close>

subsection \<open>Building an image\<close>

definition build_labels :: "host_env \<Rightarrow> uuid \<Rightarrow> uuid \<Rightarrow> string list" where
  "build_labels H project_id deployment_id =
     [''--label'', ''dev.sakala.managed=true'', ''--label'', ''dev.sakala.project-id='' @ hf_uuid_str H project_id,
      ''--label'', ''dev.sakala.deployment-id='' @ hf_uuid_str H deployment_id]"

definition dockerfile_build_command :: "host_env \<Rightarrow> string \<Rightarrow> string \<Rightarrow> string \<Rightarrow> uuid \<Rightarrow> uuid \<Rightarrow> CommandSpec" where
  "dockerfile_build_command H source dockerfile img project_id deployment_id =
     args ([''buildx'', ''build'', ''--load'', ''--progress'', ''plain'', ''--file'', dockerfile, ''--tag'', img]
       @ build_labels H project_id deployment_id @ [source]) (command_new ''docker'')"

definition info_command :: "string \<Rightarrow> string \<Rightarrow> CommandSpec" where
  "info_command source info = args [''info'', ''--format'', ''json'', ''--out'', info, source] (command_new ''railpack'')"

definition prepare_command :: "string \<Rightarrow> string \<Rightarrow> string \<Rightarrow> CommandSpec" where
  "prepare_command source plan info =
     args [''prepare'', source, ''--plan-out'', plan, ''--info-out'', info] (command_new ''railpack'')"

definition railpack_build_command :: "host_env \<Rightarrow> string \<Rightarrow> string \<Rightarrow> string \<Rightarrow> string \<Rightarrow> uuid \<Rightarrow> uuid \<Rightarrow> CommandSpec" where
  "railpack_build_command H source plan img frontend project_id deployment_id =
     args ([''buildx'', ''build'', ''--load'', ''--progress'', ''plain'', ''--build-arg'', ''BUILDKIT_SYNTAX='' @ frontend,
       ''--file'', plan, ''--tag'', img] @ build_labels H project_id deployment_id @ [source]) (command_new ''docker'')"

text \<open>The choice of the builder.\<close>

fun select_builder :: "DeploymentBuilder \<Rightarrow> bool \<Rightarrow> RuntimeError + DeploymentBuilder" where
  "select_builder Builder_Auto dockerfile_found = Inr (if dockerfile_found then Builder_Dockerfile else Builder_Railpack)"
| "select_builder Builder_Dockerfile dockerfile_found =
     (if \<not> dockerfile_found
      then Inl (InvalidCommand ''Dockerfile builder requested but repository has no root Dockerfile'')
      else Inr Builder_Dockerfile)"
| "select_builder Builder_Railpack dockerfile_found = Inr Builder_Railpack"

text \<open>The branch for \<^verbatim>\<open>Auto\<close> is an \<^verbatim>\<open>unreachable!\<close>; \<open>selected_not_auto\<close> below shows that it is.\<close>

fun run_builder :: "host_env \<Rightarrow> string \<Rightarrow> 'w runner \<Rightarrow> 'w reporter \<Rightarrow> BuildRequest \<Rightarrow> DeploymentBuilder \<Rightarrow> ('w, DeploymentBuilder) async" where
  "run_builder H frontend run R q Builder_Dockerfile =
     abind (run_checked run (dockerfile_build_command H (br_source q) (path_join (br_source q) ''Dockerfile'') (br_image q)
       (br_project_id q) (br_deployment_id q)) ''docker-build'' R) (\<lambda>_. aret Builder_Dockerfile)"
| "run_builder H frontend run R q Builder_Railpack =
     (let plan = path_join (br_workspace q) ''railpack-plan.json''; info = path_join (br_workspace q) ''railpack-info.json''
      in abind (run_checked run (prepare_command (br_source q) plan info) ''railpack-prepare'' R) (\<lambda>_.
         abind (run_checked run (railpack_build_command H (br_source q) plan (br_image q) frontend (br_project_id q)
           (br_deployment_id q)) ''railpack-build'' R) (\<lambda>_. aret Builder_Railpack)))"
| "run_builder H frontend run R q Builder_Auto =
     athrow (Execution ''internal error: entered unreachable code: auto builder must be resolved before build'')"

definition build :: "host_env \<Rightarrow> string \<Rightarrow> 'x host_world runner \<Rightarrow> 'x host_world reporter \<Rightarrow> BuildRequest
    \<Rightarrow> ('x host_world, DeploymentBuilder) async" where
  "build H frontend run R q =
     abind (hio_try (fs_try_exists H (path_join (br_source q) ''Dockerfile''))) (\<lambda>dockerfile_found.
     abind (alift (select_builder (br_requested q) dockerfile_found)) (run_builder H frontend run R q))"

subsection \<open>Inspecting a project\<close>

definition MAX_RAILPACK_INFO_BYTES :: nat where "MAX_RAILPACK_INFO_BYTES = 1024 * 1024"

definition manifest_candidates :: "string list" where
  "manifest_candidates =
     [''.env.example'', ''Cargo.toml'', ''Dockerfile'', ''README.md'', ''bun.lock'', ''bun.lockb'', ''composer.json'',
      ''composer.lock'', ''compose.yaml'', ''compose.yml'', ''docker-compose.yaml'', ''docker-compose.yml'', ''go.mod'',
      ''package-lock.json'', ''package.json'', ''pnpm-lock.yaml'', ''poetry.lock'', ''pyproject.toml'', ''requirements.txt'',
      ''uv.lock'', ''yarn.lock'']"

fun detect_from :: "host_env \<Rightarrow> string \<Rightarrow> string list \<Rightarrow> string list \<Rightarrow> ('x host_world, string list) async" where
  "detect_from H source [] manifests = aret manifests"
| "detect_from H source (candidate # cs) manifests =
     abind (hio_try (fs_try_exists H (path_join source candidate))) (\<lambda>exists.
       detect_from H source cs (if exists then manifests @ [candidate] else manifests))"

definition detected_manifests :: "host_env \<Rightarrow> string \<Rightarrow> ('x host_world, string list) async" where
  "detected_manifests H source = detect_from H source manifest_candidates []"

definition package_managers :: "(string \<times> string) list" where
  "package_managers =
     [(''pnpm-lock.yaml'', ''pnpm''), (''yarn.lock'', ''yarn''), (''bun.lock'', ''bun''), (''bun.lockb'', ''bun''),
      (''package-lock.json'', ''npm''), (''composer.lock'', ''composer''), (''uv.lock'', ''uv''), (''poetry.lock'', ''poetry''),
      (''Cargo.toml'', ''cargo''), (''go.mod'', ''go'')]"

definition detect_package_manager :: "string list \<Rightarrow> string option" where
  "detect_package_manager manifests =
     map_option snd (List.find (\<lambda>(manifest, _). list_ex (\<lambda>item. item = manifest) manifests) package_managers)"

text \<open>The JSON parser of \<^verbatim>\<open>serde_json\<close> is a parameter.\<close>

definition inspect :: "host_env \<Rightarrow> (string \<Rightarrow> nat) \<Rightarrow> (string \<Rightarrow> string + json) \<Rightarrow> 'x host_world runner \<Rightarrow> 'x host_world reporter
    \<Rightarrow> DeploymentWorkspace \<Rightarrow> RepositorySource \<Rightarrow> ('x host_world, ProjectInspection) async" where
  "inspect H dir_len from_slice run R ws src =
     (let info_path = path_join (ws_root ws) ''railpack-info.json''
      in abind (run_checked run (info_command (ws_source ws) info_path) ''railpack-info'' R) (\<lambda>_.
         abind (hio_try (fs_metadata_len H dir_len info_path)) (\<lambda>len.
           if MAX_RAILPACK_INFO_BYTES < len
           then athrow (Execution (''Railpack info exceeded the '' @ dec MAX_RAILPACK_INFO_BYTES @ '' byte safety limit''))
           else
             abind (hio_try (host_read H info_path)) (\<lambda>bytes.
             case from_slice bytes of
               Inl error \<Rightarrow> athrow (Execution (''invalid Railpack info JSON: '' @ error))
             | Inr railpack \<Rightarrow>
                 abind (detected_manifests H (ws_source ws)) (\<lambda>manifests.
                 aret \<lparr>pi_repository_url = src_repository_url src, pi_commit_sha = src_commit_sha src,
                   pi_dockerfile_found = list_ex (\<lambda>name. name = ''Dockerfile'') manifests,
                   pi_env_example_found = list_ex (\<lambda>name. name = ''.env.example'') manifests,
                   pi_compose_found = list_ex (\<lambda>name. name \<in> {''compose.yml'', ''compose.yaml'', ''docker-compose.yml'', ''docker-compose.yaml''}) manifests,
                   pi_manifests = manifests, pi_package_manager = detect_package_manager manifests, pi_railpack = railpack\<rparr>)))))"

subsection \<open>Waiting for a container\<close>

definition health_command :: "string \<Rightarrow> CommandSpec" where
  "health_command container = args [''inspect'', ''--format'',
     ''{{if .State.Health}}{{.State.Health.Status}}{{else if .State.Running}}running{{else}}stopped{{end}}'', container]
     (command_new ''docker'')"

text \<open>\<^verbatim>\<open>tokio::time::sleep\<close> does nothing but wait; \<open>dropped\<close> says whether its future is dropped meanwhile. \<open>dbg\<close>
  is the \<^verbatim>\<open>Debug\<close> form of a string.\<close>

definition sleep_step :: "('w \<Rightarrow> bool) \<Rightarrow> ('w, unit) async" where
  "sleep_step dropped w = (if dropped w then Cut else Ready (Inr ()), w)"

fun wait_attempts :: "(string \<Rightarrow> string) \<Rightarrow> ('w \<Rightarrow> bool) \<Rightarrow> 'w runner \<Rightarrow> string \<Rightarrow> nat \<Rightarrow> ('w, unit) async" where
  "wait_attempts dbg dropped run container 0 = athrow (Health (''container '' @ container @ '' did not become healthy''))"
| "wait_attempts dbg dropped run container (Suc n) =
     abind (run (health_command container) null_sink) (\<lambda>out.
       let status = trim (po_stdout out)
       in if po_success out \<and> status \<in> {''healthy'', ''running''} then aret ()
          else if status = ''unhealthy'' \<or> n = 0
          then athrow (Health (''container '' @ container @ '' failed its basic health check with status '' @ dbg status))
          else abind (sleep_step dropped) (\<lambda>_. wait_attempts dbg dropped run container n))"

definition wait_until_ready :: "(string \<Rightarrow> string) \<Rightarrow> ('w \<Rightarrow> bool) \<Rightarrow> u32 \<Rightarrow> 'w runner \<Rightarrow> string \<Rightarrow> ('w, unit) async" where
  "wait_until_ready dbg dropped attempts run container = wait_attempts dbg dropped run container (unat attempts)"

subsection \<open>Which builder runs\<close>

lemma selected_not_auto: "select_builder requested present = Inr b \<Longrightarrow> b \<noteq> Builder_Auto"
  by (cases "(requested, present)" rule: select_builder.cases) (auto split: if_splits)

definition chosen :: "DeploymentBuilder \<Rightarrow> bool \<Rightarrow> DeploymentBuilder" where
  "chosen requested present =
     (if requested = Builder_Railpack \<or> requested = Builder_Auto \<and> \<not> present then Builder_Railpack else Builder_Dockerfile)"

fun build_commands :: "host_env \<Rightarrow> string \<Rightarrow> BuildRequest \<Rightarrow> DeploymentBuilder \<Rightarrow> CommandSpec list" where
  "build_commands H frontend q Builder_Railpack =
     [prepare_command (br_source q) (path_join (br_workspace q) ''railpack-plan.json'') (path_join (br_workspace q) ''railpack-info.json''),
      railpack_build_command H (br_source q) (path_join (br_workspace q) ''railpack-plan.json'') (br_image q) frontend
        (br_project_id q) (br_deployment_id q)]"
| "build_commands H frontend q _ =
     [dockerfile_build_command H (br_source q) (path_join (br_source q) ''Dockerfile'') (br_image q) (br_project_id q) (br_deployment_id q)]"

definition ran_ok :: "CommandSpec \<Rightarrow> CommandSpec \<times> (RuntimeError, ProcessOutput) fut \<Rightarrow> bool" where
  "ran_ok c e \<longleftrightarrow> fst e = c \<and> (\<exists>out. snd e = Ready (Inr out) \<and> po_success out)"

definition has_dockerfile :: "BuildRequest \<Rightarrow> 'x host_world \<Rightarrow> bool" where
  "has_dockerfile q w \<longleftrightarrow> resolve (hw_files w) (path_join (br_source q) ''Dockerfile'') \<noteq> None"

definition built :: "host_env \<Rightarrow> string \<Rightarrow> BuildRequest \<Rightarrow> bool \<Rightarrow> trace \<Rightarrow> (RuntimeError, DeploymentBuilder) fut \<Rightarrow> trace host_world \<Rightarrow> bool" where
  "built H frontend q present before r w' \<longleftrightarrow>
     (case r of
        Ready (Inr b) \<Rightarrow> b = chosen (br_requested q) present
          \<and> (\<exists>log. hw_env w' = rev log @ before \<and> list_all2 ran_ok (build_commands H frontend q b) log)
      | Ready (Inl e) \<Rightarrow> if br_requested q = Builder_Dockerfile \<and> \<not> present then hw_env w' = before else hw_env w' \<noteq> before
      | Cut \<Rightarrow> True)"

lemma two_logged:
  "po_success out \<Longrightarrow> po_success out'
   \<Longrightarrow> \<exists>log. [(c', Ready (Inr out')), (c, Ready (Inr out))] = rev log \<and> list_all2 ran_ok [c, c'] log"
  by (rule exI [of _ "[(c, Ready (Inr out)), (c', Ready (Inr out'))]"]) (simp add: ran_ok_def)

lemma wp_run_builder:
  "select_builder (br_requested q) present = Inr b
   \<Longrightarrow> wp (run_builder H frontend (recorded_host run) R q b) (built H frontend q present (hw_env w)) w"
  by (cases b; cases "br_requested q")
    (auto intro!: wp_recorded_host wp_then_cases two_logged
      simp: built_def run_checked_def Let_def chosen_def ran_ok_def split: if_splits)

lemma wp_selected:
  "wp (alift (select_builder (br_requested q) present)) (wp_then (run_builder H frontend (recorded_host run) R q)
     (built H frontend q present (hw_env w))) w"
proof (rule wp_alift)
  fix e
  assume "select_builder (br_requested q) present = Inl e"
  then have "br_requested q = Builder_Dockerfile \<and> \<not> present" by (cases "br_requested q") (auto split: if_splits)
  then show "wp_then (run_builder H frontend (recorded_host run) R q) (built H frontend q present (hw_env w)) (Ready (Inl e)) w"
    by (simp add: built_def)
qed (simp add: wp_run_builder)

text \<open>A build does what the command asks for. With the file operations working, a build that succeeds has
  used the builder asked for, or, when the choice was left open, the repository's Dockerfile if there is one
  and Railpack otherwise; it has run the commands of that builder, in order and all successfully, and no
  other. Asking for a Dockerfile that is not there is refused before any command.\<close>

theorem build_follows_request:
  assumes "faultless H"
  shows "case build H frontend (recorded_host run) R q w of
    (Ready (Inr b), w') \<Rightarrow>
      b = chosen (br_requested q) (has_dockerfile q w)
      \<and> (\<exists>log. hw_env w' = rev log @ hw_env w \<and> list_all2 ran_ok (build_commands H frontend q b) log)
  | (Ready (Inl e), w') \<Rightarrow>
      if br_requested q = Builder_Dockerfile \<and> \<not> has_dockerfile q w
      then hw_env w' = hw_env w else hw_env w' \<noteq> hw_env w
  | (Cut, w') \<Rightarrow> True"
proof -
  have "wp (build H frontend (recorded_host run) R q) (built H frontend q (has_dockerfile q w) (hw_env w)) w"
    unfolding build_def fs_try_exists_def wp_abind
    by (rule wp_hio_try_ok [OF assms])
      (use wp_selected [of q _ H frontend run R "moved (hw_files w) w"] in \<open>auto simp: has_dockerfile_def\<close>)
  then show ?thesis by (simp add: wp_def built_def split: prod.splits fut.splits sum.splits)
qed

definition demo_build :: BuildRequest where
  "demo_build = \<lparr>br_project_id = 1, br_deployment_id = 8, br_workspace = ''/srv/4'', br_source = ''/srv/4/source'',
     br_image = ''sakala/project-1'', br_requested = Builder_Auto\<rparr>"

definition demo_traced_world :: "trace host_world" where
  "demo_traced_world = \<lparr>hw_files = [(''/srv/4/source'', HDir 493 0)], hw_io = 0, hw_now = 0, hw_followers = [],
     hw_spawned = [], hw_aborted = [], hw_env = []\<rparr>"

theorem build_follows_request_witness:
  "case build demo_host ''ghcr.io/railwayapp/railpack-frontend'' (recorded_host (answering [])) quiet_reporter demo_build demo_traced_world of
     (Ready (Inr b), w') \<Rightarrow> b = Builder_Railpack \<and> length (hw_env w') = 2
   | (Ready (Inl e), w') \<Rightarrow> False
   | (Cut, w') \<Rightarrow> True"
proof -
  let ?b = "build demo_host ''ghcr.io/railwayapp/railpack-frontend'' (recorded_host (answering [])) quiet_reporter demo_build demo_traced_world"
  have no: "\<not> has_dockerfile demo_build demo_traced_world" by code_simp
  have "case fst ?b of Ready (Inl e) \<Rightarrow> False | _ \<Rightarrow> True" by code_simp
  then have "fst ?b \<noteq> Ready (Inl e)" for e by auto
  with build_follows_request [OF demo_faultless, where frontend = "''ghcr.io/railwayapp/railpack-frontend''" and run = "answering []"
      and R = quiet_reporter and q = demo_build and w = demo_traced_world] no
  show ?thesis
    by (cases ?b rule: fut_cases) (auto simp: chosen_def demo_build_def demo_traced_world_def dest!: list_all2_lengthD)
qed

subsection \<open>What an inspection reports\<close>

lemma wp_detect_from:
  assumes "faultless H"
    and "\<And>w'. hw_files w' = hw_files w \<Longrightarrow>
      Q (Ready (Inr (ms @ filter (\<lambda>c. resolve (hw_files w) (path_join source c) \<noteq> None) cs))) w'"
  shows "wp (detect_from H source cs ms) Q w"
  using assms(2)
proof (induction cs arbitrary: ms w)
  case (Cons c cs)
  have "wp (detect_from H source cs (if resolve (hw_files w) (path_join source c) \<noteq> None then ms @ [c] else ms)) Q (moved (hw_files w) w)"
    by (rule Cons.IH) (use Cons.prems in auto)
  then show ?case unfolding detect_from.simps wp_abind fs_try_exists_def by (intro wp_hio_try_ok [OF assms(1)]) auto
qed simp

text \<open>An inspection describes the checked-out repository. When the file operations work and Railpack has
  run, what is reported is the list of the known manifests that exist in the source, in a fixed order, with
  the flags and the package manager that follow from it; the Railpack information is the parsed content of
  its file, which is at most one mebibyte; and the inspection itself changes no file.\<close>

theorem inspection_reports_repository:
  assumes "faultless H"
    and "run_checked run (info_command (ws_source ws) (path_join (ws_root ws) ''railpack-info.json'')) ''railpack-info'' R w = (Ready (Inr out), w1)"
  shows "case inspect H dir_len from_slice run R ws src w of
    (Ready (Inr p), w') \<Rightarrow>
      hw_files w' = hw_files w1
      \<and> pi_manifests p = filter (\<lambda>c. resolve (hw_files w1) (path_join (ws_source ws) c) \<noteq> None) manifest_candidates
      \<and> (pi_dockerfile_found p \<longleftrightarrow> resolve (hw_files w1) (path_join (ws_source ws) ''Dockerfile'') \<noteq> None)
      \<and> pi_package_manager p = detect_package_manager (pi_manifests p)
      \<and> (\<exists>content. file_content (hw_files w1) (path_join (ws_root ws) ''railpack-info.json'') = Inr content
           \<and> length content \<le> MAX_RAILPACK_INFO_BYTES \<and> from_slice content = Inr (pi_railpack p))
  | (_, w') \<Rightarrow> hw_files w' = hw_files w1"
proof -
  let ?info = "path_join (ws_root ws) ''railpack-info.json''"
  let ?Q = "\<lambda>r w'. hw_files w' = hw_files w1 \<and> (\<forall>p. r = Ready (Inr p) \<longrightarrow>
       pi_manifests p = filter (\<lambda>c. resolve (hw_files w1) (path_join (ws_source ws) c) \<noteq> None) manifest_candidates
      \<and> (pi_dockerfile_found p \<longleftrightarrow> resolve (hw_files w1) (path_join (ws_source ws) ''Dockerfile'') \<noteq> None)
      \<and> pi_package_manager p = detect_package_manager (pi_manifests p)
      \<and> (\<exists>content. file_content (hw_files w1) ?info = Inr content
           \<and> length content \<le> MAX_RAILPACK_INFO_BYTES \<and> from_slice content = Inr (pi_railpack p)))"
  have dockerfile: "list_ex (\<lambda>name. name = ''Dockerfile'') (filter P manifest_candidates) \<longleftrightarrow> P ''Dockerfile''" for P
    by (auto simp: list_ex_iff manifest_candidates_def)
  have after: "wp (inspect H dir_len from_slice run R ws src) ?Q w = wp (abind (hio_try (fs_metadata_len H dir_len ?info)) f) ?Q w1"
    if "\<And>u. g u = abind (hio_try (fs_metadata_len H dir_len ?info)) f"
      "inspect H dir_len from_slice run R ws src =
         abind (run_checked run (info_command (ws_source ws) ?info) ''railpack-info'' R) g" for f g
    using assms(2) that by (simp add: wp_def)
  have "wp (inspect H dir_len from_slice run R ws src) ?Q w"
    by (subst after [OF refl inspect_def [unfolded Let_def]])
      (auto intro!: wp_hio_try_ok [OF assms(1)] wp_detect_from [OF assms(1)]
        simp: fs_metadata_len_def host_read_def detected_manifests_def file_content_def dockerfile
        split: option.splits hnode.splits sum.splits)
  then show ?thesis by (auto simp: wp_def split: prod.splits fut.splits sum.splits)
qed

definition demo_inspected_world :: "unit host_world" where
  "demo_inspected_world = \<lparr>hw_files = [(''/srv/4/railpack-info.json'', HFile ''{}'' 420), (''/srv/4/source'', HDir 493 0),
     (''/srv/4/source/Dockerfile'', HFile ''FROM scratch'' 420), (''/srv/4/source/go.mod'', HLink ''/srv/4/source/Dockerfile'')],
     hw_io = 0, hw_now = 0, hw_followers = [], hw_spawned = [], hw_aborted = [], hw_env = ()\<rparr>"

theorem inspection_reports_repository_witness:
  "case inspect demo_host (\<lambda>_. 4096) (\<lambda>_. Inr (JObject [])) (answering []) quiet_reporter (workspace_new ''/srv/4'')
      (without_credential \<lparr>src_repository_url = ''https://github.com/gmedia/example.git'', src_commit_sha = [], src_credential = None\<rparr>)
      demo_inspected_world of
     (Ready (Inr p), w') \<Rightarrow> pi_manifests p = [''Dockerfile'', ''go.mod''] \<and> pi_dockerfile_found p \<and> pi_package_manager p = Some ''go''
   | (_, w') \<Rightarrow> hw_files w' = hw_files demo_inspected_world"
proof -
  let ?ws = "workspace_new ''/srv/4''"
  have run: "run_checked (answering []) (info_command (ws_source ?ws) (path_join (ws_root ?ws) ''railpack-info.json'')) ''railpack-info''
      quiet_reporter demo_inspected_world
      = (Ready (Inr \<lparr>po_success = True, po_code = Some 0, po_stdout = [], po_stderr = []\<rparr>), demo_inspected_world)"
    by (simp add: run_checked_def answering_def abind_def)
  have present: "filter (\<lambda>c. resolve (hw_files demo_inspected_world) (path_join (ws_source ?ws) c) \<noteq> None) manifest_candidates
      = [''Dockerfile'', ''go.mod'']" "resolve (hw_files demo_inspected_world) (path_join (ws_source ?ws) ''Dockerfile'') \<noteq> None"
      "detect_package_manager [''Dockerfile'', ''go.mod''] = Some ''go''"
    by code_simp+
  show ?thesis
    using inspection_reports_repository [OF demo_faultless run, where dir_len = "\<lambda>_. 4096" and from_slice = "\<lambda>_. Inr (JObject [])" and
        src = "without_credential \<lparr>src_repository_url = ''https://github.com/gmedia/example.git'', src_commit_sha = [], src_credential = None\<rparr>"]
    unfolding present(1) by (auto simp: present split: prod.splits fut.splits sum.splits)
qed

subsection \<open>When a container counts as ready\<close>

definition says_ready :: "ProcessOutput \<Rightarrow> bool" where
  "says_ready out \<longleftrightarrow> po_success out \<and> trim (po_stdout out) \<in> {''healthy'', ''running''}"

fun reply_ready :: "CommandSpec \<times> (RuntimeError, ProcessOutput) fut \<Rightarrow> bool" where
  "reply_ready (_, Ready (Inr out)) = says_ready out"
| "reply_ready _ = False"

definition waited :: "string \<Rightarrow> nat \<Rightarrow> trace \<Rightarrow> (RuntimeError, unit) fut \<Rightarrow> trace \<Rightarrow> bool" where
  "waited container n before r log \<longleftrightarrow>
     (\<exists>new. log = new @ before \<and> length new \<le> n \<and> list_all (\<lambda>e. fst e = health_command container) new
        \<and> (case r of
             Ready (Inr _) \<Rightarrow> new \<noteq> [] \<and> reply_ready (hd new) \<and> list_all (\<lambda>e. \<not> reply_ready e) (tl new)
           | _ \<Rightarrow> list_all (\<lambda>e. \<not> reply_ready e) new))"

lemma waited_step:
  "waited container n ((health_command container, Ready (Inr out)) # before) r log \<Longrightarrow> \<not> says_ready out
   \<Longrightarrow> waited container (Suc n) before r log"
  unfolding waited_def
  by (elim exE conjE, rule_tac x = "new @ [(health_command container, Ready (Inr out))]" in exI)
    (auto split: fut.splits sum.splits)

lemma wp_wait_attempts:
  "wp (wait_attempts dbg dropped (recorded run) container n) (\<lambda>r w'. waited container n (snd w) r (snd w')) w"
proof (induction n arbitrary: w)
  case 0
  then show ?case by (simp add: waited_def)
next
  case (Suc n)
  have first: "waited container (Suc k) (snd w) r ((health_command container, a) # snd w)"
    if "case r of Ready (Inr _) \<Rightarrow> reply_ready (health_command container, a) | _ \<Rightarrow> \<not> reply_ready (health_command container, a)" for r a k
    unfolding waited_def using that by (intro exI [of _ "[(health_command container, a)]"]) (simp split: fut.splits sum.splits)
  have rest: "wp (wait_attempts dbg dropped (recorded run) container n) (\<lambda>r w'. waited container (Suc n) (snd w) r (snd w'))
      (x, (health_command container, Ready (Inr out)) # snd w)" if "\<not> says_ready out" for x out
    by (rule wp_mono [OF Suc.IH]) (use that in \<open>auto intro: waited_step\<close>)
  have pause: "wp (sleep_step dropped) Q w'" if "Q (Ready (Inr ())) w'" "Q Cut w'" for Q w'
    using that by (simp add: wp_def sleep_step_def)
  show ?case
    by (auto intro!: wp_intro wp_then_cases first pause rest simp: Let_def says_ready_def)
qed

text \<open>A container counts as ready only when docker has just said so. The health check asks at most as many
  times as configured, asks nothing else, succeeds on the first answer that is healthy or running, and fails
  only if no answer was; so it always ends.\<close>

theorem ready_only_when_docker_says_so:
  "case wait_until_ready dbg dropped attempts (recorded run) container (w, []) of (r, w', log) \<Rightarrow>
     length log \<le> unat attempts \<and> list_all (\<lambda>e. fst e = health_command container) log
     \<and> (case r of
          Ready (Inr _) \<Rightarrow> log \<noteq> [] \<and> reply_ready (hd log) \<and> list_all (\<lambda>e. \<not> reply_ready e) (tl log)
        | _ \<Rightarrow> list_all (\<lambda>e. \<not> reply_ready e) log)"
  using wp_wait_attempts [of dbg dropped run container "unat attempts" "(w, [])"]
  by (auto simp: wait_until_ready_def wp_def waited_def split: prod.splits fut.splits sum.splits)

end
