(* ===== verification/Configuration.thy ===== *)
theory Configuration
  imports Runtime_Config
begin

text \<open>
  Configuration: \<^verbatim>\<open>config.rs\<close> of \<^verbatim>\<open>sakala-agent-core\<close> and \<^verbatim>\<open>config.rs\<close> of the application. The environment and
  the options of the command line are merged into one map, from which the configuration is read. The option
  parser itself (the \<^verbatim>\<open>clap\<close> crate) gives the options as pairs of the variable they stand for and their value.
\<close>

type_synonym config_values = "string \<Rightarrow> string option"

subsection \<open>The core\<close>

datatype AgentMode = Local | Connected

fun agent_mode_text :: "AgentMode \<Rightarrow> string" where
  "agent_mode_text Local = ''local''"
| "agent_mode_text Connected = ''connected''"

definition agent_mode_from_str :: "string \<Rightarrow> CoreError + AgentMode" where
  "agent_mode_from_str v =
     (let s = to_ascii_lowercase v
      in if s = ''local'' then Inr Local
         else if s = ''connected'' then Inr Connected
         else Inl (InvalidConfiguration (''SAKALA_AGENT_MODE must be local or connected, received '' @ v)))"

record AgentConfig =
  cfg_mode :: AgentMode
  cfg_agent_id :: string
  cfg_agent_token :: "string option"
  cfg_api_url :: string
  cfg_poll_interval_seconds :: u64
  cfg_heartbeat_interval_seconds :: u64
  cfg_command_timeout_seconds :: u64
  cfg_max_concurrent_commands :: nat
  cfg_shutdown_grace_seconds :: u64
  cfg_runtime_network :: string
  cfg_capabilities :: "string list"

definition get :: "config_values \<Rightarrow> string \<Rightarrow> string \<Rightarrow> string" where
  "get vs key dflt = (case vs key of None \<Rightarrow> dflt | Some v \<Rightarrow> v)"

text \<open>A \<^verbatim>\<open>usize\<close> has 64 bits. The functions of the core and of the application that read a positive number
  have the same text, once per type.\<close>

definition must_be_number :: "string \<Rightarrow> CoreError" where
  "must_be_number key = InvalidConfiguration (key @ '' must be a number'')"

definition must_be_positive :: "string \<Rightarrow> CoreError" where
  "must_be_positive key = InvalidConfiguration (key @ '' must be greater than zero'')"

definition positive_usize :: "config_values \<Rightarrow> string \<Rightarrow> nat \<Rightarrow> CoreError + nat" where
  "positive_usize vs key dflt =
     res_bind (ok_or (parse_uint u64_max (get vs key (dec dflt))) (must_be_number key)) (\<lambda>v.
       if v = 0 then Inl (must_be_positive key) else Inr v)"

definition positive_number :: "config_values \<Rightarrow> string \<Rightarrow> u64 \<Rightarrow> CoreError + u64" where
  "positive_number vs key dflt =
     res_bind (ok_or (parse_u64 (get vs key (show_word dflt))) (must_be_number key)) (\<lambda>v.
       if v = 0 then Inl (must_be_positive key) else Inr v)"

definition positive_u32 :: "config_values \<Rightarrow> string \<Rightarrow> u32 \<Rightarrow> CoreError + u32" where
  "positive_u32 vs key dflt =
     res_bind (ok_or (parse_u32 (get vs key (show_word dflt))) (must_be_number key)) (\<lambda>v.
       if v = 0 then Inl (must_be_positive key) else Inr v)"

definition agent_token_of :: "config_values \<Rightarrow> string option" where
  "agent_token_of vs =
     (case vs ''SAKALA_AGENT_TOKEN'' of None \<Rightarrow> None | Some v \<Rightarrow> if trim v = [] then None else Some v)"

definition agent_from_values :: "config_values \<Rightarrow> CoreError + AgentConfig" where
  "agent_from_values vs =
     res_bind (agent_mode_from_str (get vs ''SAKALA_AGENT_MODE'' ''local'')) (\<lambda>mode.
     let agent_token = agent_token_of vs
     in if mode = Connected \<and> (case agent_token of None \<Rightarrow> True | Some token \<Rightarrow> token = ''change-me'')
        then Inl (InvalidConfiguration ''SAKALA_AGENT_TOKEN must contain a non-placeholder token in connected mode'')
        else
          res_bind (positive_number vs ''SAKALA_POLL_INTERVAL_SECONDS'' 3) (\<lambda>poll.
          res_bind (positive_number vs ''SAKALA_HEARTBEAT_INTERVAL_SECONDS'' 10) (\<lambda>heartbeat.
          res_bind (positive_number vs ''SAKALA_COMMAND_TIMEOUT_SECONDS'' 900) (\<lambda>command.
          res_bind (positive_usize vs ''SAKALA_MAX_CONCURRENT_COMMANDS'' 4) (\<lambda>concurrent.
          res_bind (positive_number vs ''SAKALA_SHUTDOWN_GRACE_SECONDS'' 30) (\<lambda>grace.
          Inr \<lparr>cfg_mode = mode, cfg_agent_id = get vs ''SAKALA_AGENT_ID'' ''local-agent-01'', cfg_agent_token = agent_token,
               cfg_api_url = get vs ''SAKALA_API_URL'' ''http://localhost:8000'', cfg_poll_interval_seconds = poll,
               cfg_heartbeat_interval_seconds = heartbeat, cfg_command_timeout_seconds = command,
               cfg_max_concurrent_commands = concurrent, cfg_shutdown_grace_seconds = grace,
               cfg_runtime_network = get vs ''SAKALA_RUNTIME_NETWORK'' ''sakala-runtime'',
               cfg_capabilities = [''noop-runtime'']\<rparr>))))))"

definition poll_interval :: "AgentConfig \<Rightarrow> duration" where
  "poll_interval c = from_secs (cfg_poll_interval_seconds c)"

definition heartbeat_interval :: "AgentConfig \<Rightarrow> duration" where
  "heartbeat_interval c = from_secs (cfg_heartbeat_interval_seconds c)"

definition command_timeout :: "AgentConfig \<Rightarrow> duration" where
  "command_timeout c = from_secs (cfg_command_timeout_seconds c)"

definition shutdown_grace :: "AgentConfig \<Rightarrow> duration" where
  "shutdown_grace c = from_secs (cfg_shutdown_grace_seconds c)"

subsection \<open>The application\<close>

datatype RuntimeDriver = Noop | Docker

fun runtime_driver_text :: "RuntimeDriver \<Rightarrow> string" where
  "runtime_driver_text Noop = ''noop''"
| "runtime_driver_text Docker = ''docker''"

definition runtime_driver_from_str :: "string \<Rightarrow> CoreError + RuntimeDriver" where
  "runtime_driver_from_str v =
     (let s = to_ascii_lowercase v
      in if s = ''noop'' then Inr Noop
         else if s = ''docker'' then Inr Docker
         else Inl (InvalidConfiguration (''SAKALA_RUNTIME_DRIVER must be noop or docker, received '' @ v)))"

record AppConfig =
  app_agent :: AgentConfig
  app_runtime_driver :: RuntimeDriver
  app_docker_runtime :: DockerRuntimeConfig
  app_runtime_health_interval :: duration
  app_log_level :: string

text \<open>The variables the command line can set, in the order \<^verbatim>\<open>load\<close> copies them.\<close>

definition cli_keys :: "string list" where
  "cli_keys =
     [''SAKALA_AGENT_MODE'', ''SAKALA_AGENT_ID'', ''SAKALA_AGENT_TOKEN'', ''SAKALA_API_URL'', ''SAKALA_POLL_INTERVAL_SECONDS'',
      ''SAKALA_HEARTBEAT_INTERVAL_SECONDS'', ''SAKALA_COMMAND_TIMEOUT_SECONDS'', ''SAKALA_MAX_CONCURRENT_COMMANDS'',
      ''SAKALA_SHUTDOWN_GRACE_SECONDS'', ''SAKALA_RUNTIME_NETWORK'', ''SAKALA_RUNTIME_DRIVER'', ''SAKALA_RUNTIME_WORKSPACE'',
      ''SAKALA_WORKSPACE_GC_MAX_AGE_SECONDS'', ''SAKALA_IMAGE_GC_MAX_AGE_SECONDS'', ''SAKALA_RUNTIME_HEALTH_INTERVAL_SECONDS'',
      ''SAKALA_MIN_WORKSPACE_FREE_MB'', ''SAKALA_CADDY_SITES_DIR'', ''SAKALA_CADDY_CONTAINER'', ''SAKALA_RAILPACK_FRONTEND'',
      ''SAKALA_BUILD_TIMEOUT_SECONDS'', ''SAKALA_START_TIMEOUT_SECONDS'', ''SAKALA_MAX_CONCURRENT_BUILDS'',
      ''SAKALA_MAX_ACTIVE_CONTAINERS'', ''SAKALA_DEFAULT_CONTAINER_MEMORY_MB'', ''SAKALA_MAX_CONTAINER_MEMORY_MB'',
      ''SAKALA_DEFAULT_CONTAINER_CPU_MILLIS'', ''SAKALA_MAX_CONTAINER_CPU_MILLIS'', ''SAKALA_DEFAULT_CONTAINER_PIDS_LIMIT'',
      ''SAKALA_MAX_CONTAINER_PIDS_LIMIT'', ''SAKALA_LOG_LEVEL'']"

definition insert_value :: "string \<Rightarrow> string option \<Rightarrow> config_values \<Rightarrow> config_values" where
  "insert_value key v vs = (case v of None \<Rightarrow> vs | Some x \<Rightarrow> vs(key \<mapsto> x))"

fun check_defaults :: "(string \<times> nat \<times> nat) list \<Rightarrow> CoreError + unit" where
  "check_defaults [] = Inr ()"
| "check_defaults ((name, dflt, maximum) # rest) =
     (if maximum < dflt
      then Inl (InvalidConfiguration (''default '' @ name @ '' limit ('' @ dec dflt @ '') cannot exceed node maximum ('' @ dec maximum @ '')''))
      else check_defaults rest)"

definition resource_safety :: "config_values \<Rightarrow> CoreError + ResourceSafetyConfig" where
  "resource_safety vs =
     res_bind (positive_number vs ''SAKALA_DEFAULT_CONTAINER_MEMORY_MB'' 256) (\<lambda>memory.
     res_bind (positive_number vs ''SAKALA_MAX_CONTAINER_MEMORY_MB'' 512) (\<lambda>max_memory.
     res_bind (positive_u32 vs ''SAKALA_DEFAULT_CONTAINER_CPU_MILLIS'' 500) (\<lambda>cpu.
     res_bind (positive_u32 vs ''SAKALA_MAX_CONTAINER_CPU_MILLIS'' 1000) (\<lambda>max_cpu.
     res_bind (positive_u32 vs ''SAKALA_DEFAULT_CONTAINER_PIDS_LIMIT'' 128) (\<lambda>pids.
     res_bind (positive_u32 vs ''SAKALA_MAX_CONTAINER_PIDS_LIMIT'' 256) (\<lambda>max_pids.
     res_bind (check_defaults [(''container memory'', unat memory, unat max_memory), (''container CPU'', unat cpu, unat max_cpu),
       (''container process'', unat pids, unat max_pids)]) (\<lambda>_.
     Inr \<lparr>rsc_default_memory_mb = memory, rsc_max_memory_mb = max_memory, rsc_default_cpu_millis = cpu,
          rsc_max_cpu_millis = max_cpu, rsc_default_pids_limit = pids, rsc_max_pids_limit = max_pids\<rparr>)))))))"

fun capabilities :: "RuntimeDriver \<Rightarrow> string list" where
  "capabilities Noop = [''noop-runtime'']"
| "capabilities Docker =
     [''docker-runtime'', ''project-inspection'', ''dockerfile-build'', ''railpack-info'', ''railpack-build'', ''caddy-file-routing'']"

definition timeouts_message :: "u64 \<Rightarrow> u64 \<Rightarrow> u64 \<Rightarrow> string" where
  "timeouts_message build start command =
     ''SAKALA_BUILD_TIMEOUT_SECONDS ('' @ show_word build @ '') and SAKALA_START_TIMEOUT_SECONDS ('' @ show_word start
     @ '') must be shorter than SAKALA_COMMAND_TIMEOUT_SECONDS ('' @ show_word command @ '')''"

definition app_config :: "config_values \<Rightarrow> RuntimeDriver \<Rightarrow> AgentConfig \<Rightarrow> ResourceSafetyConfig \<Rightarrow> u64 \<Rightarrow> u64 \<Rightarrow> u64 \<Rightarrow> u64 \<Rightarrow> u64
    \<Rightarrow> nat \<Rightarrow> u32 \<Rightarrow> u64 \<Rightarrow> AppConfig" where
  "app_config vs runtime_driver agent safety min_workspace_free_bytes build start workspace_age image_age builds containers health =
     \<lparr>app_agent = agent, app_runtime_driver = runtime_driver,
     app_docker_runtime =
       \<lparr>drc_agent_id = cfg_agent_id agent,
        drc_workspace_root = get vs ''SAKALA_RUNTIME_WORKSPACE'' ''/var/lib/sakala/builds'',
        drc_workspace_gc_max_age = from_secs workspace_age, drc_image_gc_max_age = from_secs image_age,
        drc_min_workspace_free_bytes = min_workspace_free_bytes, drc_runtime_network = cfg_runtime_network agent,
        drc_caddy_sites_dir = get vs ''SAKALA_CADDY_SITES_DIR'' ''/var/lib/sakala/caddy/sites'',
        drc_caddy_container = get vs ''SAKALA_CADDY_CONTAINER'' ''sakala-caddy'',
        drc_railpack_frontend = get vs ''SAKALA_RAILPACK_FRONTEND'' ''ghcr.io/railwayapp/railpack-frontend:v0.23.0'',
        drc_resource_safety = safety,
        drc_timeout_safety = \<lparr>tsc_max_build_timeout = from_secs build, tsc_max_start_timeout = from_secs start,
          tsc_max_command_timeout = command_timeout agent\<rparr>,
        drc_max_concurrent_builds = builds, drc_max_active_containers = containers,
        drc_health_attempts = 10, drc_health_interval = from_secs 1\<rparr>,
     app_runtime_health_interval = from_secs health, app_log_level = get vs ''SAKALA_LOG_LEVEL'' ''info''\<rparr>"

definition from_values :: "config_values \<Rightarrow> CoreError + AppConfig" where
  "from_values vs =
     res_bind (runtime_driver_from_str (get vs ''SAKALA_RUNTIME_DRIVER'' ''noop'')) (\<lambda>runtime_driver.
     res_bind (agent_from_values vs) (\<lambda>agent0.
     let agent = agent0\<lparr>cfg_capabilities := capabilities runtime_driver\<rparr>
     in
     res_bind (resource_safety vs) (\<lambda>safety.
     res_bind (positive_number vs ''SAKALA_MIN_WORKSPACE_FREE_MB'' 1024) (\<lambda>free_mb.
     res_bind (ok_or (checked_mul free_mb (1024 * 1024))
       (InvalidConfiguration ''SAKALA_MIN_WORKSPACE_FREE_MB is too large to represent'')) (\<lambda>min_workspace_free_bytes.
     res_bind (positive_number vs ''SAKALA_BUILD_TIMEOUT_SECONDS'' 600) (\<lambda>build.
     res_bind (positive_number vs ''SAKALA_START_TIMEOUT_SECONDS'' 120) (\<lambda>start.
     if cfg_command_timeout_seconds agent \<le> build \<or> cfg_command_timeout_seconds agent \<le> start
     then Inl (InvalidConfiguration (timeouts_message build start (cfg_command_timeout_seconds agent)))
     else
       res_bind (positive_number vs ''SAKALA_WORKSPACE_GC_MAX_AGE_SECONDS'' 86400) (\<lambda>workspace_age.
       res_bind (positive_number vs ''SAKALA_IMAGE_GC_MAX_AGE_SECONDS'' 604800) (\<lambda>image_age.
       res_bind (positive_usize vs ''SAKALA_MAX_CONCURRENT_BUILDS'' 1) (\<lambda>builds.
       res_bind (positive_u32 vs ''SAKALA_MAX_ACTIVE_CONTAINERS'' 20) (\<lambda>containers.
       res_bind (positive_number vs ''SAKALA_RUNTIME_HEALTH_INTERVAL_SECONDS'' 30) (\<lambda>health.
       Inr (app_config vs runtime_driver agent safety min_workspace_free_bytes build start workspace_age image_age builds containers health)))))))))))))"

definition load :: "config_values \<Rightarrow> config_values \<Rightarrow> CoreError + AppConfig" where
  "load cli environment = from_values (fold (\<lambda>key. insert_value key (cli key)) cli_keys environment)"

subsection \<open>Reading values\<close>

lemma positive_number_Inr: "positive_number vs key d = Inr v \<Longrightarrow> v \<noteq> 0"
  by (auto simp: positive_number_def res_bind_Inr split: if_splits)

lemma positive_u32_Inr: "positive_u32 vs key d = Inr v \<Longrightarrow> v \<noteq> 0"
  by (auto simp: positive_u32_def res_bind_Inr split: if_splits)

lemma positive_usize_Inr: "positive_usize vs key d = Inr v \<Longrightarrow> v \<noteq> 0"
  by (auto simp: positive_usize_def res_bind_Inr split: if_splits)

lemmas positive_Inr = positive_number_Inr positive_u32_Inr positive_usize_Inr

lemma from_secs_less_iff [simp]: "from_secs a < from_secs b \<longleftrightarrow> a < b"
  by (simp flip: not_le)

lemma from_secs_pos [simp]: "0 < from_secs a \<longleftrightarrow> a \<noteq> 0"
  by (simp flip: neq0_conv)

lemma res_bind_InrE:
  assumes "res_bind m f = Inr y"
  obtains x where "m = Inr x" "f x = Inr y"
  using assms by (auto simp: res_bind_Inr)

lemma if_Inl_InrE:
  assumes "(if b then Inl e else m) = Inr y"
  obtains "\<not> b" "m = Inr y"
  using assms by (auto split: if_splits)

lemma agent_from_values_valid:
  assumes "agent_from_values vs = Inr c"
  shows "(cfg_mode c = Connected \<longrightarrow> (\<exists>t. cfg_agent_token c = Some t \<and> trim t \<noteq> [] \<and> t \<noteq> ''change-me''))
    \<and> cfg_poll_interval_seconds c \<noteq> 0 \<and> cfg_heartbeat_interval_seconds c \<noteq> 0 \<and> cfg_command_timeout_seconds c \<noteq> 0
    \<and> cfg_max_concurrent_commands c \<noteq> 0 \<and> cfg_shutdown_grace_seconds c \<noteq> 0"
  using assms unfolding agent_from_values_def Let_def
  by (elim res_bind_InrE if_Inl_InrE) (auto simp: agent_token_of_def dest!: positive_Inr split: if_splits option.splits)

lemma mode_roundtrip: "agent_mode_from_str (agent_mode_text m) = Inr m"
  by (cases m; hypsubst; code_simp)

lemma driver_roundtrip: "runtime_driver_from_str (runtime_driver_text d) = Inr d"
  by (cases d; hypsubst; code_simp)


subsection \<open>What an accepted configuration guarantees\<close>

definition default_limits :: RuntimeResourceLimits where
  "default_limits = \<lparr>rl_memory_mb = None, rl_cpu_millis = None, rl_pids_limit = None\<rparr>"

definition default_timeouts :: RuntimeTimeoutLimits where
  "default_timeouts = \<lparr>tl_build_timeout_seconds = None, tl_start_timeout_seconds = None, tl_command_timeout_seconds = None\<rparr>"

lemma check_defaults_Inr: "check_defaults es = Inr u \<longleftrightarrow> (\<forall>(name, d, m)\<in>set es. d \<le> m)"
  by (induction es rule: check_defaults.induct) (auto simp: not_less)

lemma resource_safety_valid:
  assumes "resource_safety vs = Inr c"
  shows "validate_safety_config c = Inr ()
    \<and> resolve_resources c default_limits
        = Inr \<lparr>ar_memory_mb = rsc_default_memory_mb c, ar_cpu_millis = rsc_default_cpu_millis c, ar_pids_limit = rsc_default_pids_limit c\<rparr>"
proof -
  from assms have pos: "rsc_default_memory_mb c \<noteq> 0" "rsc_max_memory_mb c \<noteq> 0" "rsc_default_cpu_millis c \<noteq> 0"
      "rsc_max_cpu_millis c \<noteq> 0" "rsc_default_pids_limit c \<noteq> 0" "rsc_max_pids_limit c \<noteq> 0"
    and le: "unat (rsc_default_memory_mb c) \<le> unat (rsc_max_memory_mb c)" "unat (rsc_default_cpu_millis c) \<le> unat (rsc_max_cpu_millis c)"
      "unat (rsc_default_pids_limit c) \<le> unat (rsc_max_pids_limit c)"
    by (auto simp: resource_safety_def res_bind_Inr check_defaults_Inr simp del: check_defaults.simps dest!: positive_Inr)
  then have "validate_safety_config c = Inr ()"
    by (simp add: validate_safety_config_def unat_eq_0)
  with pos le show ?thesis
    by (simp add: resolve_resources_def default_limits_def resolve_limit_def word_less_nat_alt)
qed



end
