(* ===== verification/Heartbeat.thy ===== *)
theory Heartbeat
  imports Dispatcher Configuration Runtime_Process "HOL-Library.AList"
begin

text \<open>
  The two background workers of the core: \<^verbatim>\<open>heartbeat/worker.rs\<close>, which reports the node to the control
  plane, and \<^verbatim>\<open>health/worker.rs\<close>, which watches the workloads that run.

  Both turn around a \<^verbatim>\<open>select!\<close> of a sleep and the shutdown channel. A worker is a function of the list of
  the branches that were taken; when the list is used up it still waits. The future of a probe that does not
  finish in time is dropped, as the result \<open>Cut\<close>.
\<close>

subsection \<open>What the runtime tells\<close>

text \<open>\<^verbatim>\<open>NodeTelemetry\<close> of \<^verbatim>\<open>ports/runtime.rs\<close>. An \<^verbatim>\<open>f64\<close> is carried from the probe to the JSON value and never
  computed with.\<close>

record 'f NodeTelemetry =
  nt_hostname :: "string option"
  nt_uptime_seconds :: "u64 option"
  nt_cpu_total :: "nat option"
  nt_cpu_load_1m :: "'f option"
  nt_memory_total_bytes :: "u64 option"
  nt_memory_available_bytes :: "u64 option"
  nt_disk_total_bytes :: "u64 option"
  nt_disk_available_bytes :: "u64 option"
  nt_workspace_used_bytes :: "u64 option"
  nt_runtime_operational :: "bool option"
  nt_runtime_dependencies :: json

definition telemetry_default :: "'f NodeTelemetry" where
  "telemetry_default =
     \<lparr>nt_hostname = None, nt_uptime_seconds = None, nt_cpu_total = None, nt_cpu_load_1m = None,
      nt_memory_total_bytes = None, nt_memory_available_bytes = None, nt_disk_total_bytes = None,
      nt_disk_available_bytes = None, nt_workspace_used_bytes = None, nt_runtime_operational = None,
      nt_runtime_dependencies = JNull\<rparr>"

text \<open>The methods of \<^verbatim>\<open>RuntimeExecutor\<close> the workers call, and their default implementations.\<close>

type_synonym ('w, 'a) probe = "'w \<Rightarrow> (RuntimeExecutionError, 'a) fut \<times> 'w"

record ('w, 'f) probes =
  pr_node_telemetry :: "'w \<Rightarrow> (RuntimeExecutionError + 'f NodeTelemetry) \<times> 'w"
  pr_capacity :: "('w, RuntimeCapacity) probe"
  pr_health_snapshot :: "('w, RuntimeHealthSnapshot list) probe"

definition default_probes :: "('w, 'f) probes" where
  "default_probes =
     \<lparr>pr_node_telemetry = (\<lambda>w. (Inr telemetry_default, w)),
      pr_capacity = (\<lambda>w. (Ready (Inr \<lparr>cap_active_workloads = None, cap_stopped_workloads = None,
         cap_maximum_active_workloads = None, cap_active_builds = None, cap_maximum_concurrent_builds = None\<rparr>), w)),
      pr_health_snapshot = (\<lambda>w. (Ready (Inr []), w))\<rparr>"

text \<open>\<^verbatim>\<open>timeout(..).await.ok().and_then(Result::ok)\<close>.\<close>

fun probed :: "(RuntimeExecutionError, 'a) fut \<Rightarrow> 'a option" where
  "probed (Ready (Inr x)) = Some x"
| "probed (Ready (Inl e)) = None"
| "probed Cut = None"

lemma probed_None: "probed r = None \<longleftrightarrow> (\<forall>x. r \<noteq> Ready (Inr x))"
  by (cases r rule: probed.cases) auto

subsection \<open>The payload of a heartbeat\<close>

definition MAX_HEARTBEAT_DETAIL_ITEMS :: nat where "MAX_HEARTBEAT_DETAIL_ITEMS = 50"

definition PROTOCOL_VERSION :: u32 where "PROTOCOL_VERSION = 4"

definition bounded_values :: "'a list \<Rightarrow> ('a \<Rightarrow> json) \<Rightarrow> json list" where
  "bounded_values items mapper = map mapper (take MAX_HEARTBEAT_DETAIL_ITEMS items)"

definition disk_pressure_state :: "u64 option \<Rightarrow> u64 \<Rightarrow> string" where
  "disk_pressure_state available_bytes minimum_free_bytes =
     (case available_bytes of
        Some available \<Rightarrow> if available < minimum_free_bytes then ''critical'' else ''normal''
      | None \<Rightarrow> ''unknown'')"

record WorkloadStatistics =
  ws_active :: "nat option"
  ws_stopped :: "nat option"
  ws_starting :: "nat option"
  ws_unhealthy :: "nat option"
  ws_active_builds :: "nat option"
  ws_maximum_concurrent_builds :: "nat option"
  ws_unhealthy_details :: "RuntimeHealthSnapshot list"
  ws_capacity_available :: bool
  ws_health_available :: bool

definition is_starting :: "RuntimeHealthSnapshot \<Rightarrow> bool" where
  "is_starting s = contains (to_ascii_lowercase (wl_status (hs_workload s))) ''starting''"

definition statistics_of :: "RuntimeCapacity option \<Rightarrow> RuntimeHealthSnapshot list option \<Rightarrow> WorkloadStatistics" where
  "statistics_of capacity snapshots =
     (let base = \<lparr>ws_active = Option.bind capacity cap_active_workloads, ws_stopped = Option.bind capacity cap_stopped_workloads,
            ws_starting = None, ws_unhealthy = None, ws_active_builds = Option.bind capacity cap_active_builds,
            ws_maximum_concurrent_builds = Option.bind capacity cap_maximum_concurrent_builds,
            ws_unhealthy_details = [], ws_capacity_available = (capacity \<noteq> None), ws_health_available = False\<rparr>
      in case snapshots of
           None \<Rightarrow> base
         | Some ss \<Rightarrow>
             let unhealthy_details = filter (\<lambda>s. \<not> hs_ready s \<and> \<not> is_starting s) ss
             in base\<lparr>ws_starting := Some (length (filter is_starting ss)), ws_unhealthy := Some (length unhealthy_details),
                  ws_unhealthy_details := unhealthy_details, ws_health_available := True\<rparr>)"

definition workload_statistics :: "('w, 'f) probes \<Rightarrow> 'w \<Rightarrow> WorkloadStatistics \<times> 'w" where
  "workload_statistics R w =
     (case pr_capacity R w of
        (capacity, w) \<Rightarrow>
          (case pr_health_snapshot R w of
             (snapshots, w) \<Rightarrow> (statistics_of (probed capacity) (probed snapshots), w)))"

text \<open>The shared state a heartbeat reads is part of the world: the lifecycle cell, the counters and the
  report of the startup scan, whose lock may be poisoned. \<open>hc_meanwhile\<close> is what other tasks do to it between the
  choice of the status and the rest of the payload.\<close>

record ('w, 'f) HeartbeatRuntimeContext =
  hc_node_lifecycle :: "'w \<Rightarrow> NodeLifecycle"
  hc_runtime_driver :: string
  hc_runtime :: "('w, 'f) probes"
  hc_scheduler_metrics :: "'w \<Rightarrow> SchedulerMetrics"
  hc_reconciliation :: "'w \<Rightarrow> RuntimeReconciliationReport option"
  hc_startup_reconciliation_at :: timestamp
  hc_minimum_workspace_free_bytes :: u64
  hc_now :: "'w \<Rightarrow> timestamp"
  hc_meanwhile :: "'w \<Rightarrow> 'w"

text \<open>The version of the package, and the serialisers the macro \<^verbatim>\<open>json!\<close> calls.\<close>

record 'f heartbeat_text =
  ht_version :: string
  ht_uuid :: "uuid \<Rightarrow> string"
  ht_rfc3339 :: "timestamp \<Rightarrow> string"
  ht_float :: "'f \<Rightarrow> json"

definition jword :: "u64 option \<Rightarrow> json" where
  "jword n = jnat (map_option unat n)"

definition juuid :: "'f heartbeat_text \<Rightarrow> uuid option \<Rightarrow> json" where
  "juuid T u = jstr (map_option (ht_uuid T) u)"

fun lifecycle_debug :: "NodeLifecycleState \<Rightarrow> string" where
  "lifecycle_debug Active = ''Active''"
| "lifecycle_debug Draining = ''Draining''"
| "lifecycle_debug Drained = ''Drained''"
| "lifecycle_debug Maintenance = ''Maintenance''"

fun node_status :: "NodeLifecycleState \<Rightarrow> bool \<Rightarrow> 'f NodeTelemetry \<Rightarrow> WorkloadStatistics \<Rightarrow> u64 \<Rightarrow> NodeStatus" where
  "node_status Active telemetry_available resources workloads minimum =
     (if \<not> telemetry_available \<or> nt_runtime_operational resources = Some False \<or> \<not> ws_capacity_available workloads
         \<or> \<not> ws_health_available workloads
         \<or> disk_pressure_state (nt_disk_available_bytes resources) minimum = ''critical''
      then Node_Degraded else Node_Ready)"
| "node_status Draining telemetry_available resources workloads minimum = Node_Draining"
| "node_status Drained telemetry_available resources workloads minimum = Node_Drained"
| "node_status Maintenance telemetry_available resources workloads minimum = Node_Maintenance"

definition workload_json :: "'f heartbeat_text \<Rightarrow> RuntimeWorkload \<Rightarrow> json" where
  "workload_json T m = JObject
     [(''container_id'', JString (wl_container_id m)), (''project_id'', JString (ht_uuid T (wl_project_id m))),
      (''deployment_id'', JString (ht_uuid T (wl_deployment_id m))), (''status'', JString (wl_status m))]"

definition snapshot_json :: "'f heartbeat_text \<Rightarrow> RuntimeHealthSnapshot \<Rightarrow> json" where
  "snapshot_json T s = JObject
     [(''container_id'', JString (wl_container_id (hs_workload s))), (''project_id'', JString (ht_uuid T (wl_project_id (hs_workload s)))),
      (''deployment_id'', JString (ht_uuid T (wl_deployment_id (hs_workload s)))), (''status'', JString (wl_status (hs_workload s))),
      (''reason'', jstr (hs_reason s))]"

definition orphan_json :: "'f heartbeat_text \<Rightarrow> RuntimeOrphan \<Rightarrow> json" where
  "orphan_json T x = JObject
     [(''container_id'', JString (ro_container_id x)), (''project_id'', juuid T (ro_project_id x)), (''reason'', JString (ro_reason x))]"

definition route_json :: "'f heartbeat_text \<Rightarrow> RuntimeStaleRoute \<Rightarrow> json" where
  "route_json T x = JObject
     [(''path'', JString (sr_path x)), (''project_id'', JString (ht_uuid T (sr_project_id x))),
      (''deployment_id'', juuid T (sr_deployment_id x))]"

definition image_json :: "'f heartbeat_text \<Rightarrow> RuntimeStaleImage \<Rightarrow> json" where
  "image_json T x = JObject
     [(''image_id'', JString (si_image_id x)), (''project_id'', juuid T (si_project_id x)), (''deployment_id'', juuid T (si_deployment_id x))]"

definition issue_json :: "'f heartbeat_text \<Rightarrow> RuntimeCompatibilityIssue \<Rightarrow> json" where
  "issue_json T x = JObject
     [(''container_id'', JString (ci_container_id x)), (''project_id'', JString (ht_uuid T (ci_project_id x))),
      (''deployment_id'', JString (ht_uuid T (ci_deployment_id x))), (''reason'', JString (ci_reason x))]"

definition resources_json :: "'f heartbeat_text \<Rightarrow> 'f NodeTelemetry \<Rightarrow> json" where
  "resources_json T r = JObject
     [(''cpu_total'', jnat (nt_cpu_total r)),
      (''cpu_load_1m'', case nt_cpu_load_1m r of None \<Rightarrow> JNull | Some x \<Rightarrow> ht_float T x),
      (''memory_total_bytes'', jword (nt_memory_total_bytes r)), (''memory_available_bytes'', jword (nt_memory_available_bytes r)),
      (''disk_total_bytes'', jword (nt_disk_total_bytes r)), (''disk_available_bytes'', jword (nt_disk_available_bytes r)),
      (''workspace_used_bytes'', jword (nt_workspace_used_bytes r))]"

definition workloads_json :: "'f heartbeat_text \<Rightarrow> WorkloadStatistics \<Rightarrow> json" where
  "workloads_json T s = JObject
     [(''active'', jnat (ws_active s)), (''starting'', jnat (ws_starting s)), (''unhealthy'', jnat (ws_unhealthy s)),
      (''stopped'', jnat (ws_stopped s)),
      (''unhealthy_details'', JArray (bounded_values (ws_unhealthy_details s) (snapshot_json T)))]"

definition execution_json :: "SchedulerMetrics \<Rightarrow> WorkloadStatistics \<Rightarrow> json" where
  "execution_json m s = JObject
     [(''active_commands'', JInt (uint (sm_active_commands m))), (''queued_local_commands'', JInt (int (queued_local_commands m))),
      (''capacity_waiting_commands'', JInt (uint (sm_capacity_waiting_commands m))),
      (''active_builds'', jnat (ws_active_builds s)), (''maximum_concurrent_builds'', jnat (ws_maximum_concurrent_builds s))]"

definition reconciliation_json :: "'f heartbeat_text \<Rightarrow> timestamp \<Rightarrow> RuntimeReconciliationReport \<Rightarrow> json" where
  "reconciliation_json T captured_at r = JObject
     [(''captured_at'', JString (ht_rfc3339 T captured_at)),
      (''inspected_containers'', JInt (int (rr_inspected_containers r))), (''cleaned_workspaces'', JInt (int (rr_cleaned_workspaces r))),
      (''reattached_log_followers'', JInt (int (rr_reattached_log_followers r))),
      (''recovered_execution_records'', JInt (int (rr_recovered_execution_records r))),
      (''recovered_workloads'', JArray (bounded_values (rr_workloads r) (workload_json T))),
      (''orphans'', JArray (bounded_values (rr_orphans r) (orphan_json T))),
      (''stale_routes'', JArray (bounded_values (rr_stale_routes r) (route_json T))),
      (''stale_images'', JArray (bounded_values (rr_stale_images r) (image_json T))),
      (''compatibility_issues'', JArray (bounded_values (rr_compatibility_issues r) (issue_json T)))]"

definition detail_counts_json :: "WorkloadStatistics \<Rightarrow> RuntimeReconciliationReport \<Rightarrow> json" where
  "detail_counts_json s r = JObject
     [(''unhealthy_details'', JInt (int (length (ws_unhealthy_details s)))), (''recovered_workloads'', JInt (int (length (rr_workloads r)))),
      (''orphans'', JInt (int (length (rr_orphans r)))), (''stale_routes'', JInt (int (length (rr_stale_routes r)))),
      (''stale_images'', JInt (int (length (rr_stale_images r)))),
      (''compatibility_issues'', JInt (int (length (rr_compatibility_issues r))))]"

definition empty_reconciliation :: RuntimeReconciliationReport where
  "empty_reconciliation =
     \<lparr>rr_inspected_containers = 0, rr_cleaned_workspaces = 0, rr_reclaimed_image_bytes = 0, rr_workloads = [], rr_orphans = [],
      rr_stale_routes = [], rr_stale_images = [], rr_reattached_log_followers = 0, rr_recovered_execution_records = 0,
      rr_compatibility_issues = []\<rparr>"

definition metadata_json :: "'f heartbeat_text \<Rightarrow> ('w, 'f) HeartbeatRuntimeContext \<Rightarrow> NodeLifecycleState \<Rightarrow> SchedulerMetrics \<Rightarrow> 'f NodeTelemetry
    \<Rightarrow> WorkloadStatistics \<Rightarrow> RuntimeReconciliationReport \<Rightarrow> json" where
  "metadata_json T C state metrics resources workloads reconciliation = JObject
     [(''version'', JString (ht_version T)), (''protocol_version'', JInt (uint PROTOCOL_VERSION)),
      (''lifecycle_state'', JString (to_ascii_lowercase (lifecycle_debug state))),
      (''runtime_driver'', JString (hc_runtime_driver C)), (''uptime_seconds'', jword (nt_uptime_seconds resources)),
      (''resources'', resources_json T resources),
      (''disk_pressure'', JObject
         [(''state'', JString (disk_pressure_state (nt_disk_available_bytes resources) (hc_minimum_workspace_free_bytes C))),
          (''minimum_workspace_free_bytes'', JInt (uint (hc_minimum_workspace_free_bytes C))),
          (''available_workspace_bytes'', jword (nt_disk_available_bytes resources))]),
      (''workloads'', workloads_json T workloads), (''execution'', execution_json metrics workloads),
      (''startup_reconciliation'', reconciliation_json T (hc_startup_reconciliation_at C) reconciliation),
      (''detail_counts'', detail_counts_json workloads reconciliation),
      (''runtime_dependencies'', nt_runtime_dependencies resources)]"

definition payload :: "'f heartbeat_text \<Rightarrow> AgentConfig \<Rightarrow> ('w, 'f) HeartbeatRuntimeContext \<Rightarrow> 'w \<Rightarrow> HeartbeatPayload \<times> 'w" where
  "payload T config C w =
     (case pr_node_telemetry (hc_runtime C) w of
        (telemetry, w) \<Rightarrow>
          let resources = (case telemetry of Inr r \<Rightarrow> r | Inl _ \<Rightarrow> telemetry_default);
              telemetry_available = \<not> is_err telemetry
          in case workload_statistics (hc_runtime C) w of
               (workloads, w) \<Rightarrow>
                 let reconciliation = (case hc_reconciliation C w of Some r \<Rightarrow> r | None \<Rightarrow> empty_reconciliation);
                     status = node_status (lifecycle_state (hc_node_lifecycle C w)) telemetry_available resources workloads
                       (hc_minimum_workspace_free_bytes C);
                     w = hc_meanwhile C w
                 in (\<lparr>hb_status = status,
                      hb_node = \<lparr>ni_hostname = (case nt_hostname resources of Some h \<Rightarrow> h | None \<Rightarrow> ''unknown-host''),
                        ni_runtime_network = cfg_runtime_network config, ni_capabilities = cfg_capabilities config\<rparr>,
                      hb_metadata = metadata_json T C (lifecycle_state (hc_node_lifecycle C w)) (hc_scheduler_metrics C w) resources
                        workloads reconciliation,
                      hb_sent_at = hc_now C w\<rparr>, w))"

subsection \<open>The heartbeat worker\<close>

text \<open>The branch a worker's \<open>select!\<close> takes: the interval is over, or the shutdown channel changed (to a value, or
  its sender is gone).\<close>

datatype worker_event = Interval_Over | Shutdown_Changed "bool option"

fun stops_worker :: "worker_event \<Rightarrow> bool" where
  "stops_worker Interval_Over = False"
| "stops_worker (Shutdown_Changed None) = True"
| "stops_worker (Shutdown_Changed (Some flag)) = flag"

definition beat :: "http_env \<Rightarrow> 'f heartbeat_text \<Rightarrow> AgentConfig \<Rightarrow> ApiClient option \<Rightarrow> ('w, 'f) HeartbeatRuntimeContext \<Rightarrow> 'w \<times> net \<Rightarrow> 'w \<times> net" where
  "beat E T config client C s =
     (case s of (w, n) \<Rightarrow>
        (case payload T config C w of
           (p, w) \<Rightarrow>
             (case client of
                Some c \<Rightarrow> (w, snd (heartbeat E c p n))
              | None \<Rightarrow> (w, n))))"

text \<open>\<open>True\<close> when the worker has returned.\<close>

fun heartbeat_run :: "http_env \<Rightarrow> 'f heartbeat_text \<Rightarrow> AgentConfig \<Rightarrow> ApiClient option \<Rightarrow> ('w, 'f) HeartbeatRuntimeContext \<Rightarrow> worker_event list
    \<Rightarrow> 'w \<times> net \<Rightarrow> bool \<times> ('w \<times> net)" where
  "heartbeat_run E T config client C [] s = (False, beat E T config client C s)"
| "heartbeat_run E T config client C (e # es) s =
     (let s = beat E T config client C s
      in if stops_worker e then (True, s) else heartbeat_run E T config client C es s)"

subsection \<open>The health worker\<close>

record HealthState =
  he_ready :: bool
  he_status :: string
  he_reason :: "string option"

datatype health_log =
    Health_Observed string | Became_Ready string | Health_Degraded string | Disappeared string

definition health_of :: "RuntimeHealthSnapshot \<Rightarrow> HealthState" where
  "health_of s = \<lparr>he_ready = hs_ready s, he_status = wl_status (hs_workload s), he_reason = hs_reason s\<rparr>"

definition snapshot_log :: "(string \<times> HealthState) list \<Rightarrow> RuntimeHealthSnapshot \<Rightarrow> health_log list" where
  "snapshot_log known s =
     (let container_id = wl_container_id (hs_workload s); next = health_of s
      in case map_of known container_id of
           None \<Rightarrow> [Health_Observed container_id]
         | Some previous \<Rightarrow>
             if previous \<noteq> next
             then if he_ready next then [Became_Ready container_id] else [Health_Degraded container_id]
             else [])"

text \<open>A \<^verbatim>\<open>HashMap\<close> is an association list with distinct keys; the order in which it is walked is the one of the
  list, and no property depends on it.\<close>

definition current_states :: "RuntimeHealthSnapshot list \<Rightarrow> (string \<times> HealthState) list" where
  "current_states snapshots = fold (\<lambda>s. AList.update (wl_container_id (hs_workload s)) (health_of s)) snapshots []"

definition observe :: "(string \<times> HealthState) list \<Rightarrow> RuntimeHealthSnapshot list \<Rightarrow> health_log list \<times> (string \<times> HealthState) list" where
  "observe known snapshots =
     (let current = current_states snapshots
      in (concat (map (snapshot_log known) snapshots)
            @ map (\<lambda>(container_id, _). Disappeared container_id) (filter (\<lambda>(container_id, _). map_of current container_id = None) known),
          current))"

definition jitter :: "string \<Rightarrow> duration \<Rightarrow> duration" where
  "jitter agent_id interval =
     (let ceiling_ms = min (as_millis interval div 5) 5000
      in if ceiling_ms = 0 then 0
         else
           let v = fold (\<lambda>byte hash. hash * 31 + of_nat (of_char byte)) agent_id (0 :: 128 word)
           in from_millis (of_nat (unat v mod (ceiling_ms + 1))))"

definition probe_deadline :: "duration \<Rightarrow> duration" where
  "probe_deadline interval = max (from_secs 1) (min interval (from_secs 10))"

definition health_check :: "('w, RuntimeHealthSnapshot list) probe \<Rightarrow> (string \<times> HealthState) list \<times> 'w \<Rightarrow> health_log list \<times> (string \<times> HealthState) list \<times> 'w" where
  "health_check snapshot s =
     (case s of (known, w) \<Rightarrow>
        (case snapshot w of
           (r, w) \<Rightarrow>
             (case probed r of
                Some snapshots \<Rightarrow> (case observe known snapshots of (logged, known) \<Rightarrow> (logged, known, w))
              | None \<Rightarrow> ([], known, w))))"

fun health_turns :: "('w, RuntimeHealthSnapshot list) probe \<Rightarrow> worker_event list \<Rightarrow> health_log list \<Rightarrow> (string \<times> HealthState) list \<times> 'w
    \<Rightarrow> bool \<times> health_log list \<times> (string \<times> HealthState) list \<times> 'w" where
  "health_turns snapshot [] logged s = (case health_check snapshot s of (l, s) \<Rightarrow> (False, logged @ l, s))"
| "health_turns snapshot (e # es) logged s =
     (case health_check snapshot s of
        (l, s) \<Rightarrow> if stops_worker e then (True, logged @ l, s) else health_turns snapshot es (logged @ l) s)"

text \<open>The initial delay is a \<open>select!\<close> of its own.\<close>

fun health_run :: "('w, RuntimeHealthSnapshot list) probe \<Rightarrow> string \<Rightarrow> duration \<Rightarrow> worker_event list \<Rightarrow> 'w
    \<Rightarrow> bool \<times> health_log list \<times> (string \<times> HealthState) list \<times> 'w" where
  "health_run snapshot agent_id interval es w =
     (if jitter agent_id interval = 0 then health_turns snapshot es [] ([], w)
      else
        case es of
          [] \<Rightarrow> (False, [], [], w)
        | e # es \<Rightarrow> if stops_worker e then (True, [], [], w) else health_turns snapshot es [] ([], w))"

subsection \<open>What the control plane is told\<close>

lemma disk_critical_iff: "disk_pressure_state available minimum = ''critical'' \<longleftrightarrow> (\<exists>a. available = Some a \<and> a < minimum)"
  by (auto simp: disk_pressure_state_def split: option.splits)

lemma statistics_available:
  "ws_capacity_available (statistics_of capacity snapshots) \<longleftrightarrow> capacity \<noteq> None"
  "ws_health_available (statistics_of capacity snapshots) \<longleftrightarrow> snapshots \<noteq> None"
  by (auto simp: statistics_of_def Let_def split: option.splits)

lemma probed_Some: "probed r = Some x \<longleftrightarrow> r = Ready (Inr x)"
  by (cases r rule: probed.cases) auto


subsection \<open>The size of a heartbeat\<close>

fun json_at :: "json \<Rightarrow> string list \<Rightarrow> json option" where
  "json_at v [] = Some v"
| "json_at v (k # ks) = Option.bind (json_get v k) (\<lambda>x. json_at x ks)"

definition detail_lists :: "(string list \<times> string) list" where
  "detail_lists =
     [([''workloads'', ''unhealthy_details''], ''unhealthy_details''),
      ([''startup_reconciliation'', ''recovered_workloads''], ''recovered_workloads''),
      ([''startup_reconciliation'', ''orphans''], ''orphans''),
      ([''startup_reconciliation'', ''stale_routes''], ''stale_routes''),
      ([''startup_reconciliation'', ''stale_images''], ''stale_images''),
      ([''startup_reconciliation'', ''compatibility_issues''], ''compatibility_issues'')]"

lemma length_bounded_values [simp]: "length (bounded_values xs f) = min 50 (length xs)"
  by (simp add: bounded_values_def MAX_HEARTBEAT_DETAIL_ITEMS_def)

lemma metadata_detail_lists:
  "list_all (\<lambda>(path, name). case (json_at m path, json_at m [''detail_counts'', name]) of
      (Some (JArray items), Some (JInt n)) \<Rightarrow> int (length items) = min 50 n | _ \<Rightarrow> False) detail_lists"
  if "m = metadata_json T C state metrics resources workloads reconciliation"
  by (simp add: that detail_lists_def of_nat_min metadata_json_def json_get_def workloads_json_def reconciliation_json_def detail_counts_json_def)

text \<open>No list of details in a heartbeat has more than 50 entries, and beside each stands the number of entries
  there were: a list is shorter than its count exactly when it was cut, and is complete otherwise.\<close>

theorem heartbeat_details_bounded:
  "list_all (\<lambda>(path, name).
     case (json_at (hb_metadata (fst (payload T config C w))) path, json_at (hb_metadata (fst (payload T config C w))) [''detail_counts'', name]) of
       (Some (JArray items), Some (JInt n)) \<Rightarrow> int (length items) = min 50 n
     | _ \<Rightarrow> False) detail_lists"
proof -
  have "\<exists>state metrics resources workloads reconciliation.
      hb_metadata (fst (payload T config C w)) = metadata_json T C state metrics resources workloads reconciliation"
    by (cases "pr_node_telemetry (hc_runtime C) w"; cases "workload_statistics (hc_runtime C) (snd (pr_node_telemetry (hc_runtime C) w))";
        simp add: payload_def Let_def; (rule exI)+; rule refl)
  then show ?thesis using metadata_detail_lists by metis
qed

subsection \<open>The worker goes on\<close>

definition is_heartbeat :: "ApiClient \<Rightarrow> net_event \<Rightarrow> bool" where
  "is_heartbeat c ev =
     (case ev of
        Sent rq \<Rightarrow> rq_method rq = POST \<and> rq_url rq = ac_base_url c @ HEARTBEAT \<and> rq_body rq \<noteq> None
      | Slept _ \<Rightarrow> False)"

lemma beat_sends:
  "\<exists>rq. net_log (snd (beat E T config (Some c) C s)) = net_log (snd s) @ [Sent rq] \<and> is_heartbeat c (Sent rq)"
  by (auto simp: beat_def heartbeat_def send_def request_def is_heartbeat_def split: prod.split sum.split)

text \<open>The heartbeat worker never gives up. Whatever the control plane answers and whatever the probes of the
  runtime find, every turn of its loop sends exactly one heartbeat, and nothing else; it returns when the
  shutdown signal arrives or its sender is gone, and then sends nothing more.\<close>

theorem heartbeat_keeps_beating:
  "case heartbeat_run E T config (Some c) C es s of
     (returned, s') \<Rightarrow>
       \<exists>beats. net_log (snd s') = net_log (snd s) @ beats \<and> list_all (is_heartbeat c) beats
         \<and> length beats = Suc (length (takeWhile (\<lambda>e. \<not> stops_worker e) es))
         \<and> returned = list_ex stops_worker es"
proof (induction es arbitrary: s)
  case Nil
  from beat_sends [of E T config c C s] show ?case by auto
next
  case (Cons e es)
  from beat_sends [of E T config c C s] obtain rq where
    rq: "net_log (snd (beat E T config (Some c) C s)) = net_log (snd s) @ [Sent rq]" "is_heartbeat c (Sent rq)" by blast
  show ?case
  proof (cases "stops_worker e")
    case True
    with rq show ?thesis by (simp add: Let_def)
  next
    case False
    obtain returned s' where run: "heartbeat_run E T config (Some c) C es (beat E T config (Some c) C s) = (returned, s')" by (rule prod.exhaust)
    from Cons.IH [of "beat E T config (Some c) C s"] run obtain beats where
      "net_log (snd s') = net_log (snd s) @ Sent rq # beats" "list_all (is_heartbeat c) beats"
      "length beats = Suc (length (takeWhile (\<lambda>e. \<not> stops_worker e) es))" "returned = list_ex stops_worker es"
      by (auto simp: rq)
    with False run rq show ?thesis by (intro exI [of _ "Sent rq # beats"] case_prodI2) (auto simp: Let_def)
  qed
qed

subsection \<open>What the health worker logs\<close>

fun expected_log :: "string \<Rightarrow> HealthState option \<Rightarrow> HealthState option \<Rightarrow> health_log option" where
  "expected_log c None None = None"
| "expected_log c None (Some now) = Some (Health_Observed c)"
| "expected_log c (Some before) None = Some (Disappeared c)"
| "expected_log c (Some before) (Some now) =
     (if before = now then None else if he_ready now then Some (Became_Ready c) else Some (Health_Degraded c))"

abbreviation container_of :: "RuntimeHealthSnapshot \<Rightarrow> string" where
  "container_of s \<equiv> wl_container_id (hs_workload s)"

lemma map_of_current:
  "map_of (current_states ss) = map_of (rev (map (\<lambda>s. (container_of s, health_of s)) ss))"
proof -
  have "map_of (fold (\<lambda>s. AList.update (container_of s) (health_of s)) ss al)
      = map_of al ++ map_of (rev (map (\<lambda>s. (container_of s, health_of s)) ss))" for al
    by (induction ss arbitrary: al) (auto simp: update_conv' map_add_def fun_eq_iff split: option.splits)
  then show ?thesis by (simp add: current_states_def)
qed

lemma distinct_current: "distinct (map fst (current_states ss))"
proof -
  have "distinct (map fst (fold (\<lambda>s. AList.update (container_of s) (health_of s)) ss al))" if "distinct (map fst al)" for al
    using that by (induction ss arbitrary: al) (simp_all add: distinct_update)
  then show ?thesis by (simp add: current_states_def)
qed

lemma snapshot_log_expected:
  "set (snapshot_log known s) = {l. expected_log (container_of s) (map_of known (container_of s)) (Some (health_of s)) = Some l}"
  by (auto simp: snapshot_log_def Let_def split: option.splits)

lemma by_presence:
  "{l. \<exists>c v. g c = Some v \<and> h c (Some v) = Some l} \<union> {l. \<exists>c. g c = None \<and> h c None = Some l} = {l. \<exists>c. h c (g c) = Some l}"
  by (intro set_eqI) (simp, metis option.exhaust)

text \<open>The health worker logs what changed, and all of it. After a check it knows the states of the latest
  snapshot and nothing else, and its log has one entry for each container whose state is not what it was:
  seen for the first time, ready again, degraded, or gone.\<close>

theorem health_log_reports_changes:
  assumes "distinct (map container_of snapshots)"
  shows "case observe known snapshots of (logged, current) \<Rightarrow>
      map_of current = map_of (map (\<lambda>s. (container_of s, health_of s)) snapshots) \<and> distinct (map fst current)
    \<and> set logged = {l. \<exists>c. expected_log c (map_of known c) (map_of current c) = Some l}"
proof -
  have current: "map_of (current_states snapshots) = map_of (map (\<lambda>s. (container_of s, health_of s)) snapshots)" (is "_ = map_of ?l")
  proof -
    have "distinct (map fst (rev ?l))" using assms by (simp add: comp_def flip: rev_map)
    then show ?thesis using assms map_of_inject_set [of "rev ?l" ?l] by (simp add: map_of_current comp_def)
  qed
  have mem: "map_of ?l (container_of s) = Some (health_of s)" if "s \<in> set snapshots" for s
    using assms that by (intro map_of_is_SomeI) (auto simp: comp_def)
  have seen: "set (concat (map (snapshot_log known) snapshots))
      = {l. \<exists>c v. map_of ?l c = Some v \<and> expected_log c (map_of known c) (Some v) = Some l}"
    using mem by (fastforce simp: snapshot_log_expected dest: map_of_SomeD)
  have gone: "set (map (\<lambda>(c, _). Disappeared c) (filter (\<lambda>(c, _). map_of ?l c = None) known))
      = {l. \<exists>c. map_of ?l c = None \<and> expected_log c (map_of known c) None = Some l}" (is "?A = ?B")
  proof
    show "?A \<subseteq> ?B"
    proof
      fix l assume "l \<in> ?A"
      then obtain c v where "l = Disappeared c" "(c, v) \<in> set known" "map_of ?l c = None" by auto
      moreover from weak_map_of_SomeI [OF this(2)] obtain p where "map_of known c = Some p" by blast
      ultimately show "l \<in> ?B" by force
    qed
    show "?B \<subseteq> ?A"
    proof
      fix l assume "l \<in> ?B"
      then obtain c p where "map_of ?l c = None" "map_of known c = Some p" "l = Disappeared c"
        by (auto elim: expected_log.elims)
      then show "l \<in> ?A" by (force dest: map_of_SomeD)
    qed
  qed
  have "set (concat (map (snapshot_log known) snapshots) @ map (\<lambda>(c, _). Disappeared c) (filter (\<lambda>(c, _). map_of ?l c = None) known))
      = {l. \<exists>c. expected_log c (map_of known c) (map_of ?l c) = Some l}"
    unfolding set_append seen gone by (rule by_presence)
  then show ?thesis using current distinct_current by (simp add: observe_def Let_def)
qed

definition demo_snapshot :: "string \<Rightarrow> bool \<Rightarrow> RuntimeHealthSnapshot" where
  "demo_snapshot container ready =
     \<lparr>hs_workload = \<lparr>wl_container_id = container, wl_project_id = 1, wl_deployment_id = 2,
        wl_status = (if ready then ''Up'' else ''Up (unhealthy)'')\<rparr>,
      hs_ready = ready, hs_reason = (if ready then None else Some ''unhealthy'')\<rparr>"

theorem health_log_reports_changes_witness:
  "case observe (current_states [demo_snapshot ''first'' True, demo_snapshot ''gone'' True])
       [demo_snapshot ''first'' False, demo_snapshot ''second'' True] of
     (logged, current) \<Rightarrow>
       map_of current ''first'' = Some (health_of (demo_snapshot ''first'' False))
       \<and> {Health_Degraded ''first'', Health_Observed ''second'', Disappeared ''gone''} \<subseteq> set logged"
proof -
  let ?known = "current_states [demo_snapshot ''first'' True, demo_snapshot ''gone'' True]"
  have "distinct (map container_of [demo_snapshot ''first'' False, demo_snapshot ''second'' True])" by (simp add: demo_snapshot_def)
  from health_log_reports_changes [OF this, of ?known] obtain logged current where
    run: "observe ?known [demo_snapshot ''first'' False, demo_snapshot ''second'' True] = (logged, current)"
      "map_of current = [''second'' \<mapsto> health_of (demo_snapshot ''second'' True), ''first'' \<mapsto> health_of (demo_snapshot ''first'' False)]"
    and logged: "set logged = {l. \<exists>c. expected_log c (map_of ?known c) (map_of current c) = Some l}"
    by (auto simp: demo_snapshot_def split: prod.splits)
  have known: "map_of ?known = [''first'' \<mapsto> health_of (demo_snapshot ''first'' True), ''gone'' \<mapsto> health_of (demo_snapshot ''gone'' True)]"
    by (simp add: map_of_current demo_snapshot_def)
  have "expected_log ''first'' (map_of ?known ''first'') (map_of current ''first'') = Some (Health_Degraded ''first'')"
    "expected_log ''second'' (map_of ?known ''second'') (map_of current ''second'') = Some (Health_Observed ''second'')"
    "expected_log ''gone'' (map_of ?known ''gone'') (map_of current ''gone'') = Some (Disappeared ''gone'')"
    unfolding known run(2) by (simp_all add: health_of_def demo_snapshot_def)
  then have "{Health_Degraded ''first'', Health_Observed ''second'', Disappeared ''gone''} \<subseteq> set logged"
    unfolding logged by blast
  then show ?thesis using run by simp
qed

text \<open>The delay before the first check is at most a fifth of the interval and at most five seconds.\<close>

theorem jitter_bounded: "jitter agent_id interval * 5 \<le> interval \<and> jitter agent_id interval \<le> from_secs 5"
proof -
  define m where "m = min (as_millis interval div 5) 5000"
  have "jitter agent_id interval \<le> m * 10 ^ 6"
  proof (cases "m = 0")
    case False
    define v where "v = unat (fold (\<lambda>byte hash. hash * 31 + of_nat (of_char byte)) agent_id (0 :: 128 word)) mod (m + 1)"
    have "v \<le> m" by (simp add: v_def less_Suc_eq_le [symmetric])
    moreover have "m < 2 ^ 64" by (simp add: m_def)
    ultimately have "unat (of_nat v :: u64) = v" by (simp add: unat_of_nat take_bit_nat_eq_self)
    with \<open>v \<le> m\<close> False show ?thesis unfolding v_def by (simp add: jitter_def Let_def m_def [symmetric] from_millis_def)
  qed (simp add: jitter_def m_def)
  moreover have "m * 10 ^ 6 * 5 \<le> interval"
  proof -
    have "m * 5 \<le> interval div 10 ^ 6" by (simp add: m_def as_millis_def)
    then have "m * 5 * 10 ^ 6 \<le> interval" by (simp add: less_eq_div_iff_mult_less_eq)
    then show ?thesis by (simp add: ac_simps)
  qed
  moreover have "m * 10 ^ 6 \<le> from_secs 5" by (simp add: m_def from_secs_def)
  ultimately show ?thesis by linarith
qed

end
