(* ===== verification/Telemetry.thy ===== *)
theory Telemetry
  imports Host_Files Heartbeat
begin

text \<open>
  The telemetry of a node, \<^verbatim>\<open>telemetry.rs\<close> of \<^verbatim>\<open>sakala-agent-runtime\<close>: the versions of the tools, asked for once
  and kept in a \<^verbatim>\<open>OnceCell\<close>, and the state of Docker, Caddy, the network, the workspace, memory and disk, read anew
  for every heartbeat.

  The cell is the first component of the state. The futures of one \<^verbatim>\<open>join!\<close> run in the order in which it first
  polls them. Environment variable, parallelism and the reading of an \<^verbatim>\<open>f64\<close> are parameters.
\<close>

definition PROBE_TIMEOUT :: duration where "PROBE_TIMEOUT = from_secs 2"

record collector =
  tc_workspace_root :: string
  tc_runtime_network :: string
  tc_caddy_container :: string

record ('x, 'f) host_facts =
  hx_hostname :: "string option"
  hx_parallelism :: "nat option"
  hx_probe_uuid :: "'x host_world \<Rightarrow> uuid"
  hx_parse_f64 :: "string \<Rightarrow> 'f option"
  hx_f64_as_u64 :: "'f \<Rightarrow> u64"

subsection \<open>Single probes\<close>

definition command_ready :: "'w runner \<Rightarrow> CommandSpec \<Rightarrow> string option \<Rightarrow> ('w, bool) async" where
  "command_ready run command expected_stdout =
     abind (atry (run (with_timeout PROBE_TIMEOUT command) null_sink)) (\<lambda>r.
     aret (case r of
             Inl _ \<Rightarrow> False
           | Inr out \<Rightarrow> po_success out \<and> (case expected_stdout of None \<Rightarrow> True | Some expected \<Rightarrow> trim (po_stdout out) = expected)))"

definition docker_info_command :: CommandSpec where
  "docker_info_command = args [''info'', ''--format'', ''{{.ServerVersion}}''] (command_new ''docker'')"

definition caddy_running_command :: "string \<Rightarrow> CommandSpec" where
  "caddy_running_command container = args [''inspect'', ''--format'', ''{{.State.Running}}'', container] (command_new ''docker'')"

definition network_command :: "string \<Rightarrow> CommandSpec" where
  "network_command network = args [''network'', ''inspect'', network] (command_new ''docker'')"

text \<open>\<^verbatim>\<open>is_ok()\<close> and \<^verbatim>\<open>ok()\<close> of a file operation.\<close>

definition hio_ok :: "('x, 'a) hio \<Rightarrow> ('x host_world, 'a option) async" where
  "hio_ok m = abind (atry (hio_try m)) (\<lambda>r. aret (case r of Inr x \<Rightarrow> Some x | Inl _ \<Rightarrow> None))"

definition workspace_writable :: "host_env \<Rightarrow> ('x, 'f) host_facts \<Rightarrow> string \<Rightarrow> ('x host_world, bool) async" where
  "workspace_writable H K workspace_root w =
     (let probe = path_join workspace_root (''.sakala-readiness-'' @ hf_uuid_str H (hx_probe_uuid K w))
      in abind (hio_ok (fs_create_new H probe 420)) (\<lambda>created.
           if created = None then aret False
           else abind (hio_ok (host_remove_file H probe)) (\<lambda>removed. aret (removed \<noteq> None))) w)"

definition live_runtime_operational :: "host_env \<Rightarrow> ('x, 'f) host_facts \<Rightarrow> 'x host_world runner \<Rightarrow> collector \<Rightarrow> ('x host_world, bool) async" where
  "live_runtime_operational H K run P =
     abind (command_ready run docker_info_command None) (\<lambda>docker.
     abind (command_ready run (caddy_running_command (tc_caddy_container P)) (Some ''true'')) (\<lambda>caddy.
     abind (command_ready run (network_command (tc_runtime_network P)) None) (\<lambda>network.
     abind (workspace_writable H K (tc_workspace_root P)) (\<lambda>workspace.
     aret (docker \<and> caddy \<and> network \<and> workspace)))))"

definition command_version :: "'w runner \<Rightarrow> string \<Rightarrow> string list \<Rightarrow> ('w, string option) async" where
  "command_version run program vs =
     abind (atry (run (args vs (with_timeout PROBE_TIMEOUT (command_new program))) null_sink)) (\<lambda>r.
     aret (case r of
             Inl _ \<Rightarrow> None
           | Inr out \<Rightarrow>
               if \<not> po_success out then None
               else (let v = trim (po_stdout out) in if v = [] then None else Some v)))"

definition dependency_versions :: "'w runner \<Rightarrow> ('w, json) async" where
  "dependency_versions run =
     abind (command_version run ''git'' [''--version'']) (\<lambda>git.
     abind (command_version run ''docker'' [''version'', ''--format'', ''{{.Server.Version}}'']) (\<lambda>docker.
     abind (command_version run ''docker'' [''buildx'', ''version'']) (\<lambda>buildx.
     abind (command_version run ''railpack'' [''--version'']) (\<lambda>railpack.
     aret (JObject [(''git'', jstr git), (''docker'', jstr docker), (''buildx'', jstr buildx), (''railpack'', jstr railpack)])))))"

text \<open>Sizes in \<^verbatim>\<open>/proc/meminfo\<close> and of \<^verbatim>\<open>df\<close> and \<^verbatim>\<open>du\<close> are in units of 1024 bytes.\<close>

definition kib :: "string option \<Rightarrow> u64 option" where
  "kib v = Option.bind (Option.bind v parse_u64) (\<lambda>n. checked_mul n 1024)"

definition memory_line :: "string \<Rightarrow> u64 option \<times> u64 option \<Rightarrow> u64 option \<times> u64 option" where
  "memory_line line m =
     (case split_whitespace line of
        [] \<Rightarrow> m
      | key # others \<Rightarrow>
          if key = ''MemTotal:'' then (kib (nth_opt others 0), snd m)
          else if key = ''MemAvailable:'' then (fst m, kib (nth_opt others 0))
          else m)"

definition read_memory :: "host_env \<Rightarrow> ('x host_world, u64 option \<times> u64 option) async" where
  "read_memory H =
     abind (hio_ok (host_read H ''/proc/meminfo'')) (\<lambda>contents.
     aret (fold memory_line (lines (case contents of Some c \<Rightarrow> c | None \<Rightarrow> [])) (None, None)))"

definition successful :: "RuntimeError + ProcessOutput \<Rightarrow> ProcessOutput option" where
  "successful r = (case r of Inl _ \<Rightarrow> None | Inr out \<Rightarrow> if po_success out then Some out else None)"

definition df_fields :: "ProcessOutput option \<Rightarrow> string list" where
  "df_fields df =
     (case df of
        None \<Rightarrow> []
      | Some out \<Rightarrow>
          (case nth_opt (filter (\<lambda>l. trim l \<noteq> []) (lines (po_stdout out))) 1 of
             None \<Rightarrow> []
           | Some line \<Rightarrow> split_whitespace line))"

definition df_command :: "string \<Rightarrow> CommandSpec" where
  "df_command root = with_timeout PROBE_TIMEOUT (args [''-Pk'', root] (command_new ''df''))"

definition du_command :: "string \<Rightarrow> CommandSpec" where
  "du_command root = with_timeout PROBE_TIMEOUT (args [''-sk'', root] (command_new ''du''))"

definition disk_resources :: "'w runner \<Rightarrow> string \<Rightarrow> ('w, u64 option \<times> u64 option \<times> u64 option) async" where
  "disk_resources run workspace_root =
     abind (atry (run (df_command workspace_root) null_sink)) (\<lambda>df.
       let columns = df_fields (successful df)
       in abind (atry (run (du_command workspace_root) null_sink)) (\<lambda>du.
          aret (kib (nth_opt columns 1), kib (nth_opt columns 3),
            kib (Option.bind (successful du) (\<lambda>out. nth_opt (split_whitespace (po_stdout out)) 0)))))"

definition first_f64 :: "('x, 'f) host_facts \<Rightarrow> string option \<Rightarrow> 'f option" where
  "first_f64 K contents = Option.bind contents (\<lambda>c. Option.bind (nth_opt (split_whitespace c) 0) (hx_parse_f64 K))"

subsection \<open>The snapshot\<close>

type_synonym 'x telemetry_world = "json option \<times> 'x host_world"

definition on_host :: "('x host_world, 'a) async \<Rightarrow> ('x telemetry_world, 'a) async" where
  "on_host m s = (case s of (cell, w) \<Rightarrow> (case m w of (r, w) \<Rightarrow> (r, (cell, w))))"

text \<open>\<^verbatim>\<open>OnceCell::get_or_init\<close>: a future that is dropped leaves the cell empty.\<close>

definition get_or_init :: "('x host_world, json) async \<Rightarrow> ('x telemetry_world, json) async" where
  "get_or_init init s =
     (case s of
        (Some v, w) \<Rightarrow> (Ready (Inr v), (Some v, w))
      | (None, w) \<Rightarrow>
          (case init w of
             (Ready (Inr v), w) \<Rightarrow> (Ready (Inr v), (Some v, w))
           | (r, w) \<Rightarrow> (r, (None, w))))"

definition telemetry_snapshot :: "host_env \<Rightarrow> ('x, 'f) host_facts \<Rightarrow> 'x host_world runner \<Rightarrow> collector \<Rightarrow> ('x telemetry_world, 'f NodeTelemetry) async" where
  "telemetry_snapshot H K run P =
     abind (get_or_init (dependency_versions run)) (\<lambda>dependencies.
     abind (on_host (live_runtime_operational H K run P)) (\<lambda>runtime_operational.
     abind (on_host (read_memory H)) (\<lambda>memory.
     abind (on_host (disk_resources run (tc_workspace_root P))) (\<lambda>disk.
     abind (on_host (hio_ok (host_read H ''/proc/uptime''))) (\<lambda>uptime.
     abind (on_host (hio_ok (host_read H ''/proc/loadavg''))) (\<lambda>load.
     aret \<lparr>nt_hostname = hx_hostname K, nt_uptime_seconds = map_option (hx_f64_as_u64 K) (first_f64 K uptime),
       nt_cpu_total = hx_parallelism K, nt_cpu_load_1m = first_f64 K load,
       nt_memory_total_bytes = fst memory, nt_memory_available_bytes = snd memory,
       nt_disk_total_bytes = fst disk, nt_disk_available_bytes = fst (snd disk), nt_workspace_used_bytes = snd (snd disk),
       nt_runtime_operational = Some runtime_operational, nt_runtime_dependencies = dependencies\<rparr>))))))"

lemma wp_on_host [simp]: "wp (on_host m) Q (cell, w) = wp m (\<lambda>r w. Q r (cell, w)) w"
  by (simp add: wp_def on_host_def split: prod.splits)

lemma wp_get_or_init:
  "wp (get_or_init m) Q (Some v, w) = Q (Ready (Inr v)) (Some v, w)"
  "wp (get_or_init m) Q (None, w) = wp m (\<lambda>r w. Q r (case r of Ready (Inr v) \<Rightarrow> Some v | _ \<Rightarrow> None, w)) w"
  by (cases "m w" rule: fut_cases; simp add: wp_def get_or_init_def)+

subsection \<open>Which commands a snapshot runs\<close>

definition probe :: "CommandSpec \<Rightarrow> CommandSpec" where
  "probe c = with_timeout PROBE_TIMEOUT c"

definition version_commands :: "CommandSpec list" where
  "version_commands =
     [args [''--version''] (probe (command_new ''git'')),
      args [''version'', ''--format'', ''{{.Server.Version}}''] (probe (command_new ''docker'')),
      args [''buildx'', ''version''] (probe (command_new ''docker'')), args [''--version''] (probe (command_new ''railpack''))]"

definition live_commands :: "collector \<Rightarrow> CommandSpec list" where
  "live_commands P =
     [probe docker_info_command, probe (caddy_running_command (tc_caddy_container P)), probe (network_command (tc_runtime_network P))]"

definition snapshot_commands :: "collector \<Rightarrow> json option \<Rightarrow> CommandSpec list" where
  "snapshot_commands P cell =
     (if cell = None then version_commands else []) @ live_commands P @ [df_command (tc_workspace_root P), du_command (tc_workspace_root P)]"

definition answered :: "trace \<Rightarrow> CommandSpec \<Rightarrow> (string \<Rightarrow> bool) \<Rightarrow> bool" where
  "answered t c p = list_ex (\<lambda>(c', r). c' = c \<and> (case r of Ready (Inr out) \<Rightarrow> po_success out \<and> p (po_stdout out) | _ \<Rightarrow> False)) t"

definition all_answered :: "collector \<Rightarrow> trace \<Rightarrow> bool" where
  "all_answered P t \<longleftrightarrow>
     answered t (probe docker_info_command) (\<lambda>_. True)
   \<and> answered t (probe (caddy_running_command (tc_caddy_container P))) (\<lambda>out. trim out = ''true'')
   \<and> answered t (probe (network_command (tc_runtime_network P))) (\<lambda>_. True)"

text \<open>The commands \<open>cs\<close> were run, all of them unless the future was dropped.\<close>

definition ran :: "CommandSpec list \<Rightarrow> ('a \<Rightarrow> trace \<Rightarrow> bool) \<Rightarrow> (RuntimeError, 'a) fut \<Rightarrow> trace \<Rightarrow> trace \<Rightarrow> bool" where
  "ran cs p r old new \<longleftrightarrow>
     (\<exists>t. new = t @ old \<and>
        (case r of
           Ready (Inr x) \<Rightarrow> map fst (rev t) = cs \<and> p x t
         | Ready (Inl _) \<Rightarrow> False
         | Cut \<Rightarrow> map fst (rev t) = take (length t) cs))"

lemma wp_abindI: "wp m (wp_then f Q) w \<Longrightarrow> wp (abind m f) Q w"
  by simp

lemma wp_command:
  assumes "\<And>s w'. hw_env w' = (c, Ready s) # hw_env w \<Longrightarrow> Q (Ready (Inr s)) w'"
    and "\<And>w'. hw_env w' = (c, Cut) # hw_env w \<Longrightarrow> Q Cut w'"
  shows "wp (atry (recorded_host run c sink)) Q w"
  unfolding wp_atry using assms by (intro wp_recorded_host wp_try_cases) simp_all

lemma wp_hio_ok:
  assumes "\<And>x w'. hw_env w' = hw_env w \<Longrightarrow> Q (Ready (Inr x)) w'" "\<And>w'. hw_env w' = hw_env w \<Longrightarrow> Q Cut w'"
  shows "wp (hio_ok (host_step H work part)) Q w"
  unfolding hio_ok_def wp_abind wp_atry by (rule wp_hio_try) (simp_all add: assms)

lemma wp_workspace_writable:
  assumes "\<And>b w'. hw_env w' = hw_env w \<Longrightarrow> Q (Ready (Inr b)) w'" "\<And>w'. hw_env w' = hw_env w \<Longrightarrow> Q Cut w'"
  shows "wp (workspace_writable H K root) Q w"
proof -
  let ?probe = "path_join root (''.sakala-readiness-'' @ hf_uuid_str H (hx_probe_uuid K w))"
  have "wp (abind (hio_ok (fs_create_new H ?probe 420)) (\<lambda>created.
      if created = None then aret False
      else abind (hio_ok (host_remove_file H ?probe)) (\<lambda>removed. aret (removed \<noteq> None)))) Q w"
    unfolding fs_create_new_def host_remove_file_def wp_abind
    by (intro wp_hio_ok) (auto intro!: assms wp_hio_ok)
  then show ?thesis unfolding workspace_writable_def wp_def Let_def .
qed

lemma run_versions:
  "wp (dependency_versions (recorded_host run)) (\<lambda>r w'. ran version_commands (\<lambda>_ _. True) r (hw_env w) (hw_env w')) w"
  unfolding dependency_versions_def command_version_def
  by (auto simp del: wp_abind wp_atry simp: ran_def version_commands_def probe_def intro!: wp_abindI wp_command)

lemma run_live:
  "wp (live_runtime_operational H K (recorded_host run) P)
     (\<lambda>r w'. ran (live_commands P) (\<lambda>b t. if b then all_answered P t else True) r (hw_env w) (hw_env w')) w"
  unfolding live_runtime_operational_def command_ready_def
  by (auto simp del: wp_abind wp_atry simp: ran_def live_commands_def probe_def all_answered_def answered_def
      intro!: wp_abindI wp_command wp_workspace_writable split: sum.splits)

lemma run_disk:
  "wp (disk_resources (recorded_host run) root) (\<lambda>r w'. ran [df_command root, du_command root] (\<lambda>_ _. True) r (hw_env w) (hw_env w')) w"
  unfolding disk_resources_def
  by (auto simp del: wp_abind wp_atry simp: ran_def Let_def intro!: wp_abindI wp_command)

lemma run_memory:
  assumes "\<And>m w'. hw_env w' = hw_env w \<Longrightarrow> Q (Ready (Inr m)) w'" "\<And>w'. hw_env w' = hw_env w \<Longrightarrow> Q Cut w'"
  shows "wp (read_memory H) Q w"
  unfolding read_memory_def host_read_def wp_abind by (rule wp_hio_ok) (auto intro!: assms)

lemma wp_read_ok:
  assumes "\<And>x w'. hw_env w' = hw_env w \<Longrightarrow> Q (Ready (Inr x)) w'" "\<And>w'. hw_env w' = hw_env w \<Longrightarrow> Q Cut w'"
  shows "wp (hio_ok (host_read H path)) Q w"
  unfolding host_read_def by (rule wp_hio_ok) (fact assms)+

lemma all_answered_mono: "all_answered P t \<Longrightarrow> all_answered P (t' @ t)"
  by (simp add: all_answered_def answered_def)

lemma ran_append:
  assumes "ran cs' p r (t @ old) new" "map fst (rev t) = cs" "\<And>x t'. p x t' \<Longrightarrow> q x (t' @ t)"
  shows "ran (cs @ cs') q r old new"
proof -
  from assms(1) obtain t' where t': "new = t' @ t @ old"
    and r: "case r of Ready (Inr x) \<Rightarrow> map fst (rev t') = cs' \<and> p x t' | Ready (Inl _) \<Rightarrow> False
      | Cut \<Rightarrow> map fst (rev t') = take (length t') cs'"
    by (auto simp: ran_def)
  from arg_cong [OF assms(2), of length] have "length t = length cs" by simp
  with t' r assms(2,3) show ?thesis
    by (auto simp: ran_def intro!: exI [of _ "t' @ t"] split: fut.splits sum.splits)
qed

lemma ran_Cut:
  assumes "ran cs p Cut old new"
  shows "ran (cs @ cs') q Cut old new"
proof -
  from assms obtain t where t: "new = t @ old" "map fst (rev t) = take (length t) cs" by (auto simp: ran_def)
  from arg_cong [OF t(2), of length] have "length t \<le> length cs" by simp
  with t show ?thesis by (auto simp: ran_def)
qed

lemma wp_ran_then:
  fixes m :: "(trace host_world, 'a) async"
  assumes "wp m (\<lambda>r w'. ran cs p r (hw_env w) (hw_env w')) w"
    and "\<And>x w' t. hw_env w' = t @ hw_env w \<Longrightarrow> map fst (rev t) = cs \<Longrightarrow> p x t
      \<Longrightarrow> wp (f x) (\<lambda>r (cell', w''). cell' = cell \<and> ran cs' (q x) r (hw_env w') (hw_env w'')) (cell, w')"
    and "\<And>x y t t'. p x t \<Longrightarrow> q x y t' \<Longrightarrow> q' y (t' @ t)"
  shows "wp (abind (on_host m) f) (\<lambda>r (cell', w'). cell' = cell \<and> ran (cs @ cs') q' r (hw_env w) (hw_env w')) (cell, w)"
  unfolding wp_abind wp_on_host
proof (rule wp_mono [OF assms(1)])
  fix r and w' :: "trace host_world" assume r: "ran cs p r (hw_env w) (hw_env w')"
  show "wp_then f (\<lambda>r (cell', w'). cell' = cell \<and> ran (cs @ cs') q' r (hw_env w) (hw_env w')) r (cell, w')"
  proof (rule wp_then_cases)
    fix x assume "r = Ready (Inr x)"
    with r obtain t where t: "hw_env w' = t @ hw_env w" "map fst (rev t) = cs" "p x t" by (auto simp: ran_def)
    show "wp (f x) (\<lambda>r (cell', w'). cell' = cell \<and> ran (cs @ cs') q' r (hw_env w) (hw_env w')) (cell, w')"
      by (rule wp_mono [OF assms(2) [OF t]]) (use t in \<open>auto intro: ran_append assms(3)\<close>)
  next
    fix e assume "r = Ready (Inl e)"
    with r show "case (cell, w') of (cell', w'') \<Rightarrow> cell' = cell \<and> ran (cs @ cs') q' (Ready (Inl e)) (hw_env w) (hw_env w'')"
      by (auto simp: ran_def)
  next
    assume "r = Cut"
    with r show "case (cell, w') of (cell', w'') \<Rightarrow> cell' = cell \<and> ran (cs @ cs') q' Cut (hw_env w) (hw_env w'')"
      by (auto intro: ran_Cut)
  qed
qed

lemmas wp_ran_next = wp_ran_then [where q = "\<lambda>_. r" and q' = r for r]

lemma run_read:
  "wp (read_memory H) (\<lambda>r w'. ran [] (\<lambda>_ _. True) r (hw_env w) (hw_env w')) w"
  "wp (hio_ok (host_read H path)) (\<lambda>r w'. ran [] (\<lambda>_ _. True) r (hw_env w) (hw_env w')) w"
  by (auto intro!: run_memory wp_read_ok simp: ran_def)

lemma snapshot_rest:
  assumes "\<And>b m d u l. nt_runtime_operational (f b m d u l) = Some b" "\<And>b m d u l. nt_runtime_dependencies (f b m d u l) = v"
  shows "wp (abind (on_host (live_runtime_operational H K (recorded_host run) P)) (\<lambda>runtime_operational.
     abind (on_host (read_memory H)) (\<lambda>memory.
     abind (on_host (disk_resources (recorded_host run) (tc_workspace_root P))) (\<lambda>disk.
     abind (on_host (hio_ok (host_read H ''/proc/uptime''))) (\<lambda>uptime.
     abind (on_host (hio_ok (host_read H ''/proc/loadavg''))) (\<lambda>load. aret (f runtime_operational memory disk uptime load)))))))
     (\<lambda>r (cell', w'). cell' = cell \<and>
        ran (live_commands P @ [] @ [df_command (tc_workspace_root P), du_command (tc_workspace_root P)] @ [] @ [] @ [])
          (\<lambda>x t. nt_runtime_dependencies x = v \<and> (nt_runtime_operational x = Some True \<longrightarrow> all_answered P t)) r (hw_env w) (hw_env w'))
     (cell, w)"
proof -
  let ?q = "\<lambda>b x t. nt_runtime_dependencies x = v \<and> nt_runtime_operational x = Some b"
  show ?thesis
    by (rule wp_ran_then [OF run_live, where q = ?q], rule wp_ran_next [OF run_read(1)], rule wp_ran_next [OF run_disk],
        rule wp_ran_next [OF run_read(2)], rule wp_ran_next [OF run_read(2)])
      (auto simp: assms ran_def all_answered_mono split: if_splits)
qed

lemma bounded_args [simp]: "cs_timeout (args vs c) = cs_timeout c" "cs_timeout_disabled (args vs c) = cs_timeout_disabled c"
  by (induction vs arbitrary: c) (simp_all add: args_def arg_def)

lemma snapshot_commands_bounded:
  "list_all (\<lambda>c. cs_timeout c = Some PROBE_TIMEOUT \<and> \<not> cs_timeout_disabled c) (snapshot_commands P cell)"
  by (simp add: snapshot_commands_def version_commands_def live_commands_def probe_def docker_info_command_def
      caddy_running_command_def network_command_def df_command_def du_command_def with_timeout_def command_new_def)

lemma snapshot_ran:
  "wp (telemetry_snapshot H K (recorded_host run) P)
     (\<lambda>r (cell', w'). (case cell of Some v \<Rightarrow> cell' = Some v | None \<Rightarrow> True)
        \<and> ran (snapshot_commands P cell)
            (\<lambda>x t. cell' = Some (nt_runtime_dependencies x) \<and> (nt_runtime_operational x = Some True \<longrightarrow> all_answered P t)) r [] (hw_env w'))
     (cell, w\<lparr>hw_env := []\<rparr>)"
proof (cases cell)
  case (Some v)
  show ?thesis
    unfolding telemetry_snapshot_def
    by (rule wp_abindI, simp only: wp_get_or_init Some wp_then.simps,
        rule wp_mono [OF snapshot_rest [where v = v]]) (auto simp: snapshot_commands_def ran_def split: fut.splits sum.splits)
next
  case None
  have rest: "wp (abind (on_host (live_runtime_operational H K (recorded_host run) P)) (\<lambda>runtime_operational.
     abind (on_host (read_memory H)) (\<lambda>memory.
     abind (on_host (disk_resources (recorded_host run) (tc_workspace_root P))) (\<lambda>disk.
     abind (on_host (hio_ok (host_read H ''/proc/uptime''))) (\<lambda>uptime.
     abind (on_host (hio_ok (host_read H ''/proc/loadavg''))) (\<lambda>load.
     aret \<lparr>nt_hostname = hx_hostname K, nt_uptime_seconds = map_option (hx_f64_as_u64 K) (first_f64 K uptime),
       nt_cpu_total = hx_parallelism K, nt_cpu_load_1m = first_f64 K load,
       nt_memory_total_bytes = fst memory, nt_memory_available_bytes = snd memory,
       nt_disk_total_bytes = fst disk, nt_disk_available_bytes = fst (snd disk), nt_workspace_used_bytes = snd (snd disk),
       nt_runtime_operational = Some runtime_operational, nt_runtime_dependencies = v\<rparr>))))))
     (\<lambda>r (cell', w'). ran (snapshot_commands P cell)
        (\<lambda>x t. cell' = Some (nt_runtime_dependencies x) \<and> (nt_runtime_operational x = Some True \<longrightarrow> all_answered P t)) r [] (hw_env w'))
     (Some v, w1)"
    if "hw_env w1 = t" "map fst (rev t) = version_commands" for w1 t v
  proof (rule wp_mono [OF snapshot_rest [where v = v and cell = "Some v"]]; clarsimp)
    fix r and w2 :: "trace host_world"
    let ?p = "\<lambda>x t. nt_runtime_dependencies x = v \<and> (nt_runtime_operational x = Some True \<longrightarrow> all_answered P t)"
    assume "ran (live_commands P @ [df_command (tc_workspace_root P), du_command (tc_workspace_root P)]) ?p r (hw_env w1) (hw_env w2)"
    then have "ran (live_commands P @ [df_command (tc_workspace_root P), du_command (tc_workspace_root P)]) ?p r (t @ []) (hw_env w2)"
      by (simp add: that)
    from ran_append [OF this that(2), where q = "\<lambda>x t. v = nt_runtime_dependencies x \<and> (nt_runtime_operational x = Some True \<longrightarrow> all_answered P t)"]
    show "ran (snapshot_commands P cell)
        (\<lambda>x t. v = nt_runtime_dependencies x \<and> (nt_runtime_operational x = Some True \<longrightarrow> all_answered P t)) r [] (hw_env w2)"
      by (auto simp: snapshot_commands_def None all_answered_def answered_def)
  qed
  show ?thesis
    unfolding telemetry_snapshot_def
    apply (rule wp_abindI, simp only: wp_get_or_init None, rule wp_mono [OF run_versions], rule wp_then_cases)
    subgoal for r w1 v using rest [of w1 "hw_env w1" v] by (simp add: ran_def None)
    subgoal by (simp add: ran_def)
    subgoal by (auto simp: snapshot_commands_def intro: ran_Cut)
    done
qed

text \<open>Every snapshot looks at the node anew, and no look can hang it. A snapshot runs a fixed list of
  commands, each with the probe's deadline of two seconds; the versions of the tools are asked for at most once
  and then come from the cell. Whatever the cell holds, a snapshot says that the runtime is operational only if
  Docker answered, Caddy was running and the network was there during this very snapshot.\<close>

theorem telemetry_live_and_bounded:
  "case telemetry_snapshot H K (recorded_host run) P (cell, w\<lparr>hw_env := []\<rparr>) of
     (r, (cell', w')) \<Rightarrow>
       map fst (rev (hw_env w')) = take (length (hw_env w')) (snapshot_commands P cell)
     \<and> list_all (\<lambda>(c, _). cs_timeout c = Some (from_secs 2) \<and> \<not> cs_timeout_disabled c) (hw_env w')
     \<and> (case cell of Some v \<Rightarrow> cell' = Some v | None \<Rightarrow> True)
     \<and> (case r of
          Ready (Inr t) \<Rightarrow>
            length (hw_env w') = length (snapshot_commands P cell)
          \<and> cell' = Some (nt_runtime_dependencies t)
          \<and> (if nt_runtime_operational t = Some True then all_answered P (hw_env w') else True)
        | Ready (Inl _) \<Rightarrow> False
        | Cut \<Rightarrow> True)"
proof -
  obtain r cell' w' where run: "telemetry_snapshot H K (recorded_host run) P (cell, w\<lparr>hw_env := []\<rparr>) = (r, (cell', w'))" by (rule prod_cases3)
  from wpD [OF snapshot_ran run] have cell: "case cell of Some v \<Rightarrow> cell' = Some v | None \<Rightarrow> True"
    and ran: "ran (snapshot_commands P cell)
        (\<lambda>x t. cell' = Some (nt_runtime_dependencies x) \<and> (nt_runtime_operational x = Some True \<longrightarrow> all_answered P t)) r [] (hw_env w')"
    by auto
  from ran have take: "map fst (rev (hw_env w')) = take (length (hw_env w')) (snapshot_commands P cell)"
    and out: "case r of
          Ready (Inr t) \<Rightarrow> length (hw_env w') = length (snapshot_commands P cell) \<and> cell' = Some (nt_runtime_dependencies t)
            \<and> (if nt_runtime_operational t = Some True then all_answered P (hw_env w') else True)
        | Ready (Inl _) \<Rightarrow> False | Cut \<Rightarrow> True"
    by (auto simp: ran_def split: fut.splits sum.splits dest: arg_cong [of _ _ length])
  have "set (map fst (hw_env w')) \<subseteq> set (snapshot_commands P cell)"
    using take by (metis set_map set_rev set_take_subset)
  then have "list_all (\<lambda>(c, _). cs_timeout c = Some (from_secs 2) \<and> \<not> cs_timeout_disabled c) (hw_env w')"
    using snapshot_commands_bounded [of P cell] by (fastforce simp: list_all_iff PROBE_TIMEOUT_def)
  then show ?thesis
    using run take out cell by (auto split: fut.splits sum.splits)
qed

end
