(* ===== verification/Runtime_Executor.thy ===== *)
theory Runtime_Executor
  imports Lifecycle Containers Workspace Build_Services Telemetry
begin

text \<open>
  The Docker executor put together: \<^verbatim>\<open>with_runner\<close> and \<^verbatim>\<open>with_services\<close> of \<^verbatim>\<open>executor/docker.rs\<close> connect the
  services modelled in \<open>Containers\<close>, \<open>Workspace\<close>, \<open>Build_Services\<close>, \<open>Routing\<close> and \<open>Telemetry\<close> to the executor of
  \<open>Deployment\<close> and \<open>Lifecycle\<close>. Also here: the Noop executor.

  The services share one world: the sites directory of Caddy around the host's files, on which docker, git
  and the other programs run.
\<close>

subsection \<open>Services on the common world\<close>

type_synonym 'x node_world = "'x host_world route_world"

definition lift_workspace_manager :: "'x workspace_manager \<Rightarrow> 'x route_world workspace_manager" where
  "lift_workspace_manager m =
     \<lparr>wm_checkout = (\<lambda>command_id source. in_env (wm_checkout m command_id source)), wm_cleanup = (\<lambda>ws. in_env (wm_cleanup m ws)),
      wm_cleanup_stale = (\<lambda>d. in_env (wm_cleanup_stale m d)), wm_available_disk_bytes = in_env (wm_available_disk_bytes m)\<rparr>"

definition lift_container_engine :: "'x container_engine \<Rightarrow> 'x route_world container_engine" where
  "lift_container_engine c =
     \<lparr>ce_resolve_resources = ce_resolve_resources c, ce_ensure_capacity = (\<lambda>p. in_env (ce_ensure_capacity c p)),
      ce_detect_orphans = in_env (ce_detect_orphans c), ce_capacity = in_env (ce_capacity c),
      ce_health_snapshot = in_env (ce_health_snapshot c), ce_workload = (\<lambda>p d. in_env (ce_workload c p d)),
      ce_restart = (\<lambda>m s. in_env (ce_restart c m s)), ce_stop = (\<lambda>m s. in_env (ce_stop c m s)),
      ce_start_existing = (\<lambda>m. in_env (ce_start_existing c m)), ce_remove = (\<lambda>m. in_env (ce_remove c m)),
      ce_start = (\<lambda>q. in_env (ce_start c q)), ce_report_startup_logs = (\<lambda>n. in_env (ce_report_startup_logs c n)),
      ce_start_log_follower = (\<lambda>n i b w. case ce_start_log_follower c n i b (rw_env w) of (started, x) \<Rightarrow> (started, w\<lparr>rw_env := x\<rparr>)),
      ce_cleanup_previous = (\<lambda>p n. in_env (ce_cleanup_previous c p n)), ce_cleanup_candidate = (\<lambda>n i. in_env (ce_cleanup_candidate c n i)),
      ce_detect_stale_images = (\<lambda>d. in_env (ce_detect_stale_images c d)),
      ce_cleanup_stale_images = (\<lambda>d. in_env (ce_cleanup_stale_images c d)),
      ce_shutdown = (\<lambda>w. w\<lparr>rw_env := ce_shutdown c (rw_env w)\<rparr>)\<rparr>"

definition lift_reporter :: "'x reporter \<Rightarrow> 'x route_world reporter" where
  "lift_reporter R =
     \<lparr>rep_event = (\<lambda>e w. case rep_event R e (rw_env w) of (r, x) \<Rightarrow> (r, w\<lparr>rw_env := x\<rparr>)),
      rep_log = (\<lambda>l w. case rep_log R l (rw_env w) of (r, x) \<Rightarrow> (r, w\<lparr>rw_env := x\<rparr>)),
      rep_commit = (\<lambda>j w. w\<lparr>rw_env := rep_commit R j (rw_env w)\<rparr>), rep_now = (\<lambda>w. rep_now R (rw_env w))\<rparr>"

text \<open>What the services take from libraries, from the host and from the reporter of the command; and the two
  synchronisation objects of the executor, the semaphore for builds and the mutex for admissions.\<close>

record ('x, 'f) runtime_libs =
  lib_host :: host_env
  lib_routes :: route_env
  lib_rfc3339 :: rfc3339_parser
  lib_f64 :: "'f float64"
  lib_json :: "string \<Rightarrow> string + json"
  lib_dir_len :: "string \<Rightarrow> nat"
  lib_url :: url_parser
  lib_debug :: "string \<Rightarrow> string"
  lib_ser :: serialisers
  lib_sleep_dropped :: "'x host_world \<Rightarrow> bool"
  lib_reporter :: "'x host_world reporter"
  lib_acquire_build :: "('x host_world, unit) async"
  lib_available_permits :: "'x node_world \<Rightarrow> nat"
  lib_lock_admission :: "('x host_world, unit) async"
  lib_cause :: "nat \<Rightarrow> cut_cause"

definition docker_engine_of :: "DockerRuntimeConfig \<Rightarrow> DockerContainerEngine" where
  "docker_engine_of config =
     \<lparr>dc_runtime_network = drc_runtime_network config, dc_resource_safety = drc_resource_safety config,
      dc_max_active_containers = drc_max_active_containers config, dc_agent_id = drc_agent_id config\<rparr>"

definition preflight_of :: "DockerRuntimeConfig \<Rightarrow> docker_preflight" where
  "preflight_of config =
     \<lparr>pf_workspace_root = drc_workspace_root config, pf_runtime_network = drc_runtime_network config,
      pf_caddy_sites_dir = drc_caddy_sites_dir config, pf_caddy_container = drc_caddy_container config\<rparr>"

definition collector_of :: "docker_preflight \<Rightarrow> collector" where
  "collector_of P =
     \<lparr>tc_workspace_root = pf_workspace_root P, tc_runtime_network = pf_runtime_network P, tc_caddy_container = pf_caddy_container P\<rparr>"

definition with_runner :: "('x, 'f) runtime_libs \<Rightarrow> DockerRuntimeConfig \<Rightarrow> 'x host_world runner \<Rightarrow> 'x node_world docker_executor" where
  "with_runner L config run =
     (let H = lib_host L; R = lib_reporter L;
          reloader = docker_exec_reloader run (drc_caddy_container config) R
      in \<lparr>dx_workspace = lift_workspace_manager (git_workspace_manager H (drc_workspace_root config) run R),
          dx_inspect = (\<lambda>ws source. in_env (inspect H (lib_dir_len L) (lib_json L) run R ws source)),
          dx_build = (\<lambda>q. in_env (build H (drc_railpack_frontend config) run R q)),
          dx_containers = lift_container_engine (docker_container_engine H (docker_engine_of config) (lib_rfc3339 L) (lib_f64 L) run R),
          dx_wait_until_ready = (\<lambda>container. in_env (wait_until_ready (lib_debug L) (lib_sleep_dropped L) (drc_health_attempts config) run container)),
          dx_routes = caddy_route_manager ((lib_routes L)\<lparr>re_sites_dir := drc_caddy_sites_dir config\<rparr>) reloader,
          dx_timeout_safety = drc_timeout_safety config, dx_acquire_build = in_env (lib_acquire_build L),
          dx_lock_admission = in_env (lib_lock_admission L),
          dx_max_concurrent_builds = drc_max_concurrent_builds config, dx_workspace_gc_max_age = drc_workspace_gc_max_age config,
          dx_image_gc_max_age = drc_image_gc_max_age config, dx_min_workspace_free_bytes = drc_min_workspace_free_bytes config,
          dx_uuid_str = hf_uuid_str H, dx_url = lib_url L, dx_debug = lib_debug L, dx_ser = lib_ser L, dx_cause = lib_cause L\<rparr>)"

text \<open>What the heartbeat and the health worker ask of this executor. Nothing drops the telemetry of a heartbeat
  before it is complete; were it dropped, it would count as unavailable.\<close>

type_synonym 'x runtime_world = "json option \<times> 'x node_world"

definition as_probe :: "('w, 'a) async \<Rightarrow> ('c \<times> 'w, 'a) probe" where
  "as_probe m s =
     (case s of (cell, w) \<Rightarrow>
        (case m w of
           (Ready (Inr x), w) \<Rightarrow> (Ready (Inr x), (cell, w))
         | (Ready (Inl e), w) \<Rightarrow> (Ready (Inl (ree_of_runtime e)), (cell, w))
         | (Cut, w) \<Rightarrow> (Cut, (cell, w))))"

definition node_telemetry :: "('x, 'f) runtime_libs \<Rightarrow> ('x, 'f) host_facts \<Rightarrow> DockerRuntimeConfig \<Rightarrow> 'x host_world runner
    \<Rightarrow> 'x runtime_world \<Rightarrow> (RuntimeExecutionError + 'f NodeTelemetry) \<times> 'x runtime_world" where
  "node_telemetry L K config run s =
     (case s of (cell, w) \<Rightarrow>
        (case telemetry_snapshot (lib_host L) K run (collector_of (preflight_of config)) (cell, rw_env w) of
           (r, (cell, h)) \<Rightarrow>
             ((case r of
                 Ready (Inr t) \<Rightarrow> Inr t
               | Ready (Inl e) \<Rightarrow> Inl (ree_of_runtime e)
               | Cut \<Rightarrow> Inl (ree_of_runtime Cancelled)), (cell, w\<lparr>rw_env := h\<rparr>))))"

definition docker_probes :: "('x, 'f) runtime_libs \<Rightarrow> ('x, 'f) host_facts \<Rightarrow> DockerRuntimeConfig \<Rightarrow> 'x host_world runner
    \<Rightarrow> ('x runtime_world, 'f) probes" where
  "docker_probes L K config run =
     \<lparr>pr_node_telemetry = node_telemetry L K config run,
      pr_capacity = as_probe (\<lambda>w. executor_capacity (with_runner L config run) (lib_available_permits L w) w),
      pr_health_snapshot = as_probe (ce_health_snapshot (dx_containers (with_runner L config run)))\<rparr>"

subsection \<open>The Noop executor\<close>

definition noop_event :: "timestamp \<Rightarrow> DeploymentEvent" where
  "noop_event now =
     \<lparr>ev_event_type = ''runtime.noop.completed'', ev_level = Level_Info,
      ev_message = ''Noop runtime completed command without host changes.'', ev_metadata = JObject [(''executor'', JString ''noop'')],
      ev_occurred_at = now\<rparr>"

definition noop_log :: "timestamp \<Rightarrow> DeploymentLog" where
  "noop_log now =
     \<lparr>log_stream = System, log_message = ''Foundation mode: no Docker, Caddy, or Railpack operation executed.'', log_recorded_at = now\<rparr>"

definition execute_noop :: "'w reporter \<Rightarrow> 'w \<Rightarrow> (RuntimeExecutionError, json) fut \<times> 'w" where
  "execute_noop R w =
     (let now = rep_now R w
      in case rep_event R (noop_event now) w of
           (Ready (Inr _), w) \<Rightarrow>
             (case rep_log R (noop_log now) w of
                (Ready (Inr _), w) \<Rightarrow> (Ready (Inr JNull), w)
              | (Ready (Inl e), w) \<Rightarrow> (Ready (Inl e), w)
              | (Cut, w) \<Rightarrow> (Cut, w))
         | (Ready (Inl e), w) \<Rightarrow> (Ready (Inl e), w)
         | (Cut, w) \<Rightarrow> (Cut, w))"

subsection \<open>The token of a command\<close>

definition with_credential_token :: "string \<Rightarrow> RepositoryCredential option \<Rightarrow> RepositoryCredential option" where
  "with_credential_token token credential = map_option (\<lambda>c. c\<lparr>rc_token := token\<rparr>) credential"

lemma source_with_token:
  "deployment_source U p (with_credential_token token credential) = map_sum id (with_token token) (deployment_source U p credential)"
  "inspection_source U p' (with_credential_token token credential) = map_sum id (with_token token) (inspection_source U p' credential)"
  by (cases "validate_repository_source U (dp_repository_url p) (dp_commit_sha p)";
      cases "validate_repository_source U (ip_repository_url p') (ip_commit_sha p')";
      simp add: deployment_source_def inspection_source_def with_credential_token_def with_token_def)+

lemma abind_alift_map: "abind (alift (map_sum id g r)) f = abind (alift r) (\<lambda>x. f (g x))"
  by (cases r) (simp_all add: abind_def fun_eq_iff)

lemma checkout_without_token:
  assumes "blind run"
  shows "wm_checkout (dx_workspace (with_runner L config run)) command_id (with_token token source)
       = wm_checkout (dx_workspace (with_runner L config run)) command_id source"
  by (simp add: with_runner_def Let_def lift_workspace_manager_def git_workspace_manager_def checkout_confines_token [OF assms])

lemma credential_fields:
  "dpq_command_id (q\<lparr>dpq_repository_credential := c\<rparr>) = dpq_command_id q"
  "dpq_project_id (q\<lparr>dpq_repository_credential := c\<rparr>) = dpq_project_id q"
  "dpq_deployment_id (q\<lparr>dpq_repository_credential := c\<rparr>) = dpq_deployment_id q"
  "dpq_payload (q\<lparr>dpq_repository_credential := c\<rparr>) = dpq_payload q"
  "dpq_repository_credential (q\<lparr>dpq_repository_credential := c\<rparr>) = c"
  by simp_all

lemma deployment_of_credential:
  "start_candidate X (q\<lparr>dpq_repository_credential := c\<rparr>) = start_candidate X q"
  "finalize_deployment X R (q\<lparr>dpq_repository_credential := c\<rparr>) = finalize_deployment X R q"
  "settle_deployment X R (q\<lparr>dpq_repository_credential := c\<rparr>) = settle_deployment X R q"
  unfolding fun_eq_iff start_candidate_def finalize_deployment_def settle_deployment_def run_container_request_def credential_fields
  by (intro allI refl)+

lemma deploy_of_credential:
  "deploy_inner X R (q\<lparr>dpq_repository_credential := c\<rparr>) = deploy_inner X R q"
  unfolding fun_eq_iff deploy_inner_def deploy_steps_def deployment_of_credential credential_fields by (intro allI refl)

text \<open>C8: the repository token reaches nothing but git. On the real services, a deployment and an inspection come out
  the same whatever the token of the command is, as long as the programs they run do not look at the secret
  environment of git: the same result or error, the same files and routes, the same commands with the same
  arguments and environments, the same events, logs and container labels.\<close>

theorem commands_confine_token:
  assumes "blind run"
  shows "run_deployment (with_runner L config run) R (q\<lparr>dpq_repository_credential := with_credential_token token (dpq_repository_credential q)\<rparr>)
         = run_deployment (with_runner L config run) R q
       \<and> run_inspection (with_runner L config run) R (i\<lparr>ipr_repository_credential := with_credential_token token (ipr_repository_credential i)\<rparr>)
         = run_inspection (with_runner L config run) R i"
proof
  show "run_deployment (with_runner L config run) R (q\<lparr>dpq_repository_credential := with_credential_token token (dpq_repository_credential q)\<rparr>)
      = run_deployment (with_runner L config run) R q"
    unfolding run_deployment_def deployment_steps_def Let_def source_with_token abind_alift_map checkout_without_token [OF assms]
      deployment_of_credential deploy_of_credential credential_fields ..
  have "without_credential (with_token token source) = without_credential source" "src_commit_sha (with_token token source) = src_commit_sha source"
    for source by (simp_all add: without_credential_def with_token_def)
  then show "run_inspection (with_runner L config run) R (i\<lparr>ipr_repository_credential := with_credential_token token (ipr_repository_credential i)\<rparr>)
      = run_inspection (with_runner L config run) R i"
    by (simp add: run_inspection_def source_with_token abind_alift_map checkout_without_token [OF assms])
qed

subsection \<open>A node whose Docker is down\<close>

definition never_succeeds :: "'w runner \<Rightarrow> CommandSpec \<Rightarrow> bool" where
  "never_succeeds run c \<longleftrightarrow> (\<forall>w. case fst (run c null_sink w) of Ready (Inr out) \<Rightarrow> \<not> po_success out | _ \<Rightarrow> True)"

lemma wp_abind_any:
  assumes "\<And>x w. wp (f x) Q w" "\<And>e w. Q (Ready (Inl e)) w" "\<And>w. Q Cut w"
  shows "wp (abind m f) Q w"
  unfolding wp_abind by (rule wp_any, rule wp_then_cases) (simp_all add: assms)

lemma live_not_operational:
  assumes "never_succeeds run (probe docker_info_command)"
  shows "wp (live_runtime_operational H K run P) (\<lambda>r w. case r of Ready (Inr b) \<Rightarrow> \<not> b | _ \<Rightarrow> True) w"
proof -
  have "wp (command_ready run docker_info_command None) (\<lambda>r w. case r of Ready (Inr b) \<Rightarrow> \<not> b | _ \<Rightarrow> True) w"
    using assms [unfolded never_succeeds_def, rule_format, of w]
    by (cases "run (probe docker_info_command) null_sink w" rule: fut_cases) (simp_all add: command_ready_def probe_def wp_def abind_def)
  then show ?thesis
    unfolding live_runtime_operational_def wp_abind
    by (rule wp_mono) (auto simp del: wp_abind intro!: wp_then_cases wp_abind_any)
qed

lemma snapshot_not_operational:
  assumes "never_succeeds run (probe docker_info_command)"
  shows "wp (telemetry_snapshot H K run P) (\<lambda>r w. case r of Ready (Inr t) \<Rightarrow> nt_runtime_operational t = Some False | _ \<Rightarrow> True) s"
proof -
  have live: "wp (on_host (live_runtime_operational H K run P)) (\<lambda>r w. case r of Ready (Inr b) \<Rightarrow> \<not> b | _ \<Rightarrow> True) s" for s
    by (cases s) (use live_not_operational [OF assms] in \<open>simp add: wp_on_host\<close>)
  have after: "wp (abind (on_host (live_runtime_operational H K run P)) f) (\<lambda>r w. case r of Ready (Inr t) \<Rightarrow> nt_runtime_operational t = Some False | _ \<Rightarrow> True) s"
    if "\<And>w. wp (f False) (\<lambda>r w. case r of Ready (Inr t) \<Rightarrow> nt_runtime_operational t = Some False | _ \<Rightarrow> True) w" for f s
    unfolding wp_abind by (rule wp_mono [OF live]) (auto intro!: wp_then_cases that)
  show ?thesis
    unfolding telemetry_snapshot_def by (rule wp_abind_any, rule after) (auto simp del: wp_abind intro!: wp_abind_any)
qed


subsection \<open>A concrete node\<close>

definition demo_libs :: "(unit, unit) runtime_libs" where
  "demo_libs =
     \<lparr>lib_host = demo_host, lib_routes = example_route_env, lib_rfc3339 = (\<lambda>_. Inr 0),
      lib_f64 = \<lparr>fl_parse = (\<lambda>_. None), fl_times = (\<lambda>x _. x), fl_is_finite = (\<lambda>_. True), fl_is_sign_negative = (\<lambda>_. False),
        fl_above_u64_max = (\<lambda>_. False), fl_round = (\<lambda>_. 0)\<rparr>,
      lib_json = (\<lambda>_. Inr JNull), lib_dir_len = (\<lambda>_. 0), lib_url = github_parser, lib_debug = id,
      lib_ser = \<lparr>se_limits = (\<lambda>_. JNull), se_applied = (\<lambda>_. JNull), se_builder = (\<lambda>_. JNull),
        se_inspection = (\<lambda>_. Inr JNull), se_deploy_result = (\<lambda>_. Inr JNull)\<rparr>,
      lib_sleep_dropped = (\<lambda>_. False), lib_reporter = quiet_reporter, lib_acquire_build = aret (),
      lib_available_permits = (\<lambda>_. 1), lib_lock_admission = aret (), lib_cause = (\<lambda>_. By_Caller)\<rparr>"

definition demo_config :: DockerRuntimeConfig where
  "demo_config =
     \<lparr>drc_agent_id = ''agent-1'', drc_workspace_root = ''/srv'', drc_workspace_gc_max_age = 0, drc_image_gc_max_age = 0,
      drc_min_workspace_free_bytes = 0, drc_runtime_network = ''sakala-runtime'', drc_caddy_sites_dir = ''/etc/caddy/sites'',
      drc_caddy_container = ''sakala-caddy'', drc_railpack_frontend = ''railpack'', drc_resource_safety = default_resource_safety,
      drc_timeout_safety = default_timeout_safety, drc_max_concurrent_builds = 1, drc_max_active_containers = 20,
      drc_health_attempts = 10, drc_health_interval = 0\<rparr>"

definition private_request :: "string \<Rightarrow> DeployProjectRequest" where
  "private_request token =
     demo_request\<lparr>dpq_repository_credential := Some \<lparr>rc_username = ''x-access-token'', rc_token = token\<rparr>\<rparr>"

definition private_inspection :: "string \<Rightarrow> InspectProjectRequest" where
  "private_inspection token =
     \<lparr>ipr_command_id = 4, ipr_payload = \<lparr>ip_repository_url = dp_repository_url example_payload, ip_commit_sha = dp_commit_sha example_payload,
        ip_repository_access = TemporaryCredential\<rparr>,
      ipr_repository_credential = Some \<lparr>rc_username = ''x-access-token'', rc_token = token\<rparr>\<rparr>"

theorem commands_confine_token_witness:
  "\<forall>x. run_deployment (with_runner demo_libs demo_config (answering [])) demo_reporter (private_request ''secret-1'') (fresh x)
     = run_deployment (with_runner demo_libs demo_config (answering [])) demo_reporter (private_request ''secret-2'') (fresh x)"
proof -
  have "blind (answering [] :: unit host_world runner)" by (simp add: blind_def answering_def fun_eq_iff)
  from commands_confine_token [OF this, where L = demo_libs and config = demo_config and R = demo_reporter
      and q = "private_request ''secret-2''" and token = "''secret-1''" and i = "private_inspection ''secret-2''"]
  show ?thesis by (simp add: private_request_def with_credential_token_def)
qed

definition down :: "'w runner" where
  "down c sink w = (Ready (Inr \<lparr>po_success = False, po_code = Some 1, po_stdout = [], po_stderr = ''Cannot connect to the Docker daemon''\<rparr>), w)"

definition demo_facts :: "(unit, unit) host_facts" where
  "demo_facts = \<lparr>hx_hostname = None, hx_parallelism = None, hx_probe_uuid = (\<lambda>_. 0), hx_parse_f64 = (\<lambda>_. None), hx_f64_as_u64 = (\<lambda>_. 0)\<rparr>"

definition demo_context :: "(unit runtime_world, unit) HeartbeatRuntimeContext" where
  "demo_context =
     \<lparr>hc_node_lifecycle = (\<lambda>_. lifecycle_new), hc_runtime_driver = ''docker'', hc_runtime = docker_probes demo_libs demo_facts demo_config down,
      hc_scheduler_metrics = (\<lambda>_. metrics_default), hc_reconciliation = (\<lambda>_. None), hc_startup_reconciliation_at = 0,
      hc_minimum_workspace_free_bytes = 0, hc_now = (\<lambda>_. 0), hc_meanwhile = id\<rparr>"


end
