(* ===== verification/Serving.thy ===== *)
theory Serving
  imports Runtime_Executor
begin

text \<open>
  What a deployment does to the traffic of the node. The locales state what the Docker executor relies on: no
  service but the route manager touches what is served (\<open>quiet_services\<close>), and that one changes it in one step or
  not at all (\<open>serving_executor\<close>). Within it,
  what is served after a deployment follows from the calls the deployment made. The interpretation discharges
  the laws for the Caddy route manager and the other real services.
\<close>

subsection \<open>Services that leave the traffic alone\<close>

definition quietly :: "('w \<Rightarrow> 'v) \<Rightarrow> ('w, 'a) async \<Rightarrow> bool" where
  "quietly view m \<longleftrightarrow> (\<forall>w. view (snd (m w)) = view w)"

lemma quietlyD: "quietly view m \<Longrightarrow> m w = (r, w') \<Longrightarrow> view w' = view w"
  by (metis quietly_def snd_conv)

text \<open>Nothing published yet; and what is published, judged by the calls alone.\<close>

definition untouched :: "('w \<Rightarrow> 'v) \<Rightarrow> 'v \<Rightarrow> 'w dworld \<Rightarrow> bool" where
  "untouched view old w \<longleftrightarrow> view (dw_env w) = old \<and> \<not> attempted S_Activate w"

definition published :: "('w \<Rightarrow> 'v) \<Rightarrow> 'v \<Rightarrow> 'v \<Rightarrow> 'w dworld \<Rightarrow> bool" where
  "published view old new w \<longleftrightarrow>
     (if (S_Activate, Finished) \<in> set (dw_calls w) then view (dw_env w) = new
      else if (S_Activate, Dropped_Midway) \<in> set (dw_calls w) then view (dw_env w) \<in> {old, new}
      else view (dw_env w) = old)"

lemma untouched_published: "untouched view old w \<Longrightarrow> published view old new w"
  by (force simp: untouched_def published_def attempted_def)

lemma logged_env [simp]: "dw_env (logged s e x w) = x"
  by (simp add: logged_def)

lemma flags_untouched [simp]:
  "untouched view old (w\<lparr>dw_build_permit := b\<rparr>) = untouched view old w" "untouched view old (w\<lparr>dw_admission := b\<rparr>) = untouched view old w"
  "untouched view old (w\<lparr>dw_route_activated := b\<rparr>) = untouched view old w" "untouched view old (w\<lparr>dw_inflight := f\<rparr>) = untouched view old w"
  by (simp_all add: untouched_def)

lemma flags_published [simp]:
  "published view old new (w\<lparr>dw_build_permit := b\<rparr>) = published view old new w"
  "published view old new (w\<lparr>dw_admission := b\<rparr>) = published view old new w"
  "published view old new (w\<lparr>dw_route_activated := b\<rparr>) = published view old new w"
  "published view old new (w\<lparr>dw_inflight := f\<rparr>) = published view old new w"
  by (simp_all add: published_def)

lemma quiet_step:
  assumes "view x = view (dw_env w)" "s \<noteq> S_Activate"
  shows "untouched view old w \<Longrightarrow> untouched view old (logged s e x w)"
    and "published view old new w \<Longrightarrow> published view old new (logged s e x w)"
  using assms by (auto simp: untouched_def published_def split: if_splits)

text \<open>A predicate on the state of a command that only depends on the calls made and on the traffic, and not on calls
  other than the activation; the operations that keep it.\<close>

definition steady :: "('w \<Rightarrow> 'v) \<Rightarrow> ('w dworld \<Rightarrow> bool) \<Rightarrow> bool" where
  "steady view P \<longleftrightarrow>
     (\<forall>w x s e. view x = view (dw_env w) \<longrightarrow> s \<noteq> S_Activate \<longrightarrow> P w \<longrightarrow> P (logged s e x w))
   \<and> (\<forall>w b. P (w\<lparr>dw_build_permit := b\<rparr>) = P w) \<and> (\<forall>w b. P (w\<lparr>dw_admission := b\<rparr>) = P w)
   \<and> (\<forall>w b. P (w\<lparr>dw_route_activated := b\<rparr>) = P w) \<and> (\<forall>w f. P (w\<lparr>dw_inflight := f\<rparr>) = P w)"

lemma steady_preds [simp]: "steady view (untouched view old)" "steady view (published view old new)"
  by (simp_all add: steady_def quiet_step)

lemma steady_logged: "steady view P \<Longrightarrow> view x = view (dw_env w) \<Longrightarrow> s \<noteq> S_Activate \<Longrightarrow> P w \<Longrightarrow> P (logged s e x w)"
  by (simp add: steady_def)

lemma steady_flags:
  assumes "steady view P"
  shows "P (w\<lparr>dw_build_permit := b\<rparr>) = P w" "P (w\<lparr>dw_admission := b\<rparr>) = P w" "P (w\<lparr>dw_route_activated := b\<rparr>) = P w"
    "P (w\<lparr>dw_inflight := f\<rparr>) = P w"
  using assms by (simp_all add: steady_def)

definition keeps :: "('w dworld \<Rightarrow> bool) \<Rightarrow> ('w dworld, 'a) async \<Rightarrow> bool" where
  "keeps P m \<longleftrightarrow> (\<forall>w. P w \<longrightarrow> wp m (\<lambda>_. P) w)"

definition leads :: "('w dworld \<Rightarrow> bool) \<Rightarrow> ('w dworld \<Rightarrow> bool) \<Rightarrow> ('w dworld, 'a) async \<Rightarrow> bool" where
  "leads P P' m \<longleftrightarrow> (\<forall>w. P w \<longrightarrow> wp m (\<lambda>_. P') w)"

lemma keeps_abind:
  assumes "keeps P m" "\<And>x. keeps P (f x)"
  shows "keeps P (abind m f)"
  unfolding keeps_def
proof (intro allI impI)
  fix w assume "P w"
  with assms(1) have "wp m (\<lambda>_. P) w" by (simp add: keeps_def)
  then show "wp (abind m f) (\<lambda>_. P) w"
    unfolding wp_abind by (rule wp_mono) (use assms(2) in \<open>auto simp: keeps_def intro!: wp_then_cases\<close>)
qed

lemma leads_abind:
  assumes "keeps P m" "\<And>x. leads P P' (f x)" "\<And>w. P w \<Longrightarrow> P' w"
  shows "leads P P' (abind m f)"
  unfolding leads_def
proof (intro allI impI)
  fix w assume "P w"
  with assms(1) have "wp m (\<lambda>_. P) w" by (simp add: keeps_def)
  then show "wp (abind m f) (\<lambda>_. P') w"
    unfolding wp_abind by (rule wp_mono) (use assms(2,3) in \<open>auto simp: leads_def intro!: wp_then_cases\<close>)
qed

lemma leads_then:
  assumes "leads P P' m" "\<And>x. keeps P' (f x)"
  shows "leads P P' (abind m f)"
  unfolding leads_def
proof (intro allI impI)
  fix w assume "P w"
  with assms(1) have "wp m (\<lambda>_. P') w" by (simp add: leads_def)
  then show "wp (abind m f) (\<lambda>_. P') w"
    unfolding wp_abind by (rule wp_mono) (use assms(2) in \<open>auto simp: keeps_def intro!: wp_then_cases\<close>)
qed

lemma keeps_atry: "keeps P m \<Longrightarrow> keeps P (atry m)"
  unfolding keeps_def wp_atry
  by (intro allI impI, rule wp_mono, blast, rename_tac r w', case_tac r) simp_all

lemma keeps_values: "keeps P (aret x)" "keeps P (athrow e)" "keeps P (alift r)"
  by (auto simp: keeps_def intro: wp_alift)

lemma keeps_case: "(\<And>x. keeps P (f x)) \<Longrightarrow> (\<And>e. keeps P (g e)) \<Longrightarrow> keeps P (case r of Inl e \<Rightarrow> g e | Inr x \<Rightarrow> f x)"
  by (cases r) simp_all

lemma keeps_if: "keeps P m \<Longrightarrow> keeps P n \<Longrightarrow> keeps P (if c then m else n)"
  by simp

lemma keeps_flags:
  assumes "steady view P"
  shows "keeps P (modify (\<lambda>w. w\<lparr>dw_build_permit := b\<rparr>))" "keeps P (modify (\<lambda>w. w\<lparr>dw_admission := b\<rparr>))"
    "keeps P (modify (\<lambda>w. w\<lparr>dw_route_activated := b\<rparr>))"
  using assms by (simp_all add: keeps_def steady_flags)

lemma keeps_call:
  assumes "steady view P" "quietly view m" "s \<noteq> S_Activate"
  shows "keeps P (call s m)"
proof -
  have "P (logged s e x w)" if "m (dw_env w) = (r, x)" "P w" for e x r w
    by (rule steady_logged [OF assms(1) quietlyD [OF assms(2) that(1)] assms(3) that(2)])
  then show ?thesis
    unfolding keeps_def by (intro allI impI, rename_tac w, case_tac "m (dw_env w)") (simp add: wp_def call_def)
qed

lemma keeps_sync:
  assumes "steady view P" "\<And>x. view (snd (f x)) = view x" "s \<noteq> S_Activate"
  shows "keeps P (call_sync s f)"
proof -
  have "P (logged s Finished x w)" if "f (dw_env w) = (a, x)" "P w" for a x w
    using steady_logged [OF assms(1) _ assms(3) that(2)] assms(2) [of "dw_env w"] that(1) by simp
  then show ?thesis
    unfolding keeps_def by (intro allI impI, rename_tac w, case_tac "f (dw_env w)") (simp add: wp_def call_sync_def)
qed

lemma keeps_awhen: "keeps P m \<Longrightarrow> keeps P (awhen c m)"
  by (simp add: keeps_def)

lemma keeps_timeout: "steady view P \<Longrightarrow> keeps P m \<Longrightarrow> keeps P (timeout X operation d m)"
  unfolding keeps_def wp_timeout
  by (intro allI impI, rule wp_mono, blast, rename_tac r w', case_tac r) (simp_all add: steady_flags)

lemma leads_select: "steady view P' \<Longrightarrow> leads P P' m \<Longrightarrow> leads P P' (select_deployment X m)"
  unfolding leads_def wp_select
  by (intro allI impI, rule wp_mono, blast, rename_tac r w', case_tac r) (simp_all add: steady_flags)

lemmas keeps_rules = keeps_abind keeps_atry keeps_values keeps_case keeps_if keeps_awhen

subsection \<open>The contracts\<close>

text \<open>An activation that was dropped may or may not have changed what is served.\<close>

fun activation :: "'v \<Rightarrow> 'v \<Rightarrow> (RuntimeError, 'a) fut \<Rightarrow> 'v \<Rightarrow> bool" where
  "activation old new (Ready (Inr _)) v \<longleftrightarrow> v = new"
| "activation old new (Ready (Inl _)) v \<longleftrightarrow> v = old"
| "activation old new Cut v \<longleftrightarrow> v = old \<or> v = new"

definition route_of :: "(uuid \<Rightarrow> string) \<Rightarrow> DeployProjectRequest \<Rightarrow> RouteSpec" where
  "route_of us q =
     \<lparr>rs_project_id = dpq_project_id q, rs_deployment_id = dpq_deployment_id q, rs_domain = dp_domain (dpq_payload q),
      rs_upstream = container_name us (dpq_project_id q) (dpq_deployment_id q), rs_port = dp_container_port (dpq_payload q)\<rparr>"

locale quiet_services =
  fixes X :: "'w docker_executor" and R :: "'w reporter" and view :: "'w \<Rightarrow> 'v"
  assumes quiet_workspace:
      "quietly view (wm_available_disk_bytes (dx_workspace X))" "quietly view (wm_checkout (dx_workspace X) command_id source)"
      "quietly view (wm_cleanup (dx_workspace X) ws)"
    and quiet_engine:
      "quietly view (ce_ensure_capacity (dx_containers X) project)" "quietly view (ce_start (dx_containers X) rq)"
      "quietly view (ce_report_startup_logs (dx_containers X) container)"
      "quietly view (ce_cleanup_previous (dx_containers X) project container)"
      "quietly view (ce_cleanup_candidate (dx_containers X) container img)"
      "view (snd (ce_start_log_follower (dx_containers X) container command_id bounds w)) = view w"
    and quiet_others:
      "quietly view (dx_build X bq)" "quietly view (dx_wait_until_ready X container)"
      "quietly view (dx_acquire_build X)" "quietly view (dx_lock_admission X)"
    and quiet_reports:
      "view (snd (rep_event R ev w)) = view w" "view (snd (rep_log R ln w)) = view w"
begin

lemmas quiet_calls = quiet_workspace quiet_engine quiet_others

lemma keeps_event:
  assumes "steady view P"
  shows "keeps P (emit_event R event_type message metadata)"
  unfolding emit_event_def
proof (rule keeps_call [OF assms])
  show "quietly view (\<lambda>w. case rep_event R \<lparr>ev_event_type = event_type, ev_level = Level_Info, ev_message = message,
              ev_metadata = metadata, ev_occurred_at = rep_now R w\<rparr> w of
         (Ready (Inr _), w') \<Rightarrow> (Ready (Inr ()), w')
       | (Ready (Inl e), w') \<Rightarrow> (Ready (Inl (runtime_of_ree e)), w')
       | (Cut, w') \<Rightarrow> (Cut, w'))"
    using quiet_reports(1) unfolding quietly_def
    by (intro allI) (auto split: prod.splits fut.splits sum.splits dest: arg_cong [where f = "\<lambda>x. view (snd x)"])
qed simp

lemma keeps_log:
  assumes "steady view P"
  shows "keeps P (warn_log R message)"
  unfolding warn_log_def
proof (rule keeps_call [OF assms])
  show "quietly view (\<lambda>w. case rep_log R \<lparr>log_stream = System, log_message = message, log_recorded_at = rep_now R w\<rparr> w of
         (Ready _, w') \<Rightarrow> (Ready (Inr ()), w')
       | (Cut, w') \<Rightarrow> (Cut, w'))"
    using quiet_reports(2) unfolding quietly_def
    by (intro allI) (auto split: prod.splits fut.splits dest: arg_cong [where f = "\<lambda>x. view (snd x)"])
qed simp

lemmas keeps_services = keeps_call [OF _ quiet_calls(1)] keeps_call [OF _ quiet_calls(2)] keeps_call [OF _ quiet_calls(3)]
  keeps_call [OF _ quiet_calls(4)] keeps_call [OF _ quiet_calls(5)] keeps_call [OF _ quiet_calls(6)]
  keeps_call [OF _ quiet_calls(7)] keeps_call [OF _ quiet_calls(8)] keeps_call [OF _ quiet_others(1)]
  keeps_call [OF _ quiet_others(2)] keeps_call [OF _ quiet_others(3)] keeps_call [OF _ quiet_others(4)]
  keeps_event keeps_log keeps_flags [where view = view] keeps_timeout [where view = view] keeps_sync [where view = view]

lemma keeps_candidate: "steady view P \<Longrightarrow> keeps P (start_candidate X q ws img container applied)"
  unfolding start_candidate_def by (intro keeps_rules keeps_services) simp_all

lemma keeps_finalize: "steady view P \<Longrightarrow> keeps P (finalize_deployment X R q img container applied builder)"
  unfolding finalize_deployment_def
  by (intro keeps_rules keeps_services) (simp_all add: quiet_engine)

lemma keeps_settle: "steady view P \<Longrightarrow> keeps P (settle_deployment X R q ws img container applied result)"
  unfolding settle_deployment_def
  by (intro keeps_rules keeps_services) simp_all

text \<open>What a whole deployment does to the view, from what its main part does.\<close>

lemma leads_deployment:
  assumes steps: "\<And>ws img container applied timeouts. container = container_name (dx_uuid_str X) (dpq_project_id q) (dpq_deployment_id q) \<Longrightarrow>
      leads P P' (deploy_steps X R q ws img container applied timeouts)"
    and steady: "steady view P" "steady view P'" and start: "\<And>w. P w \<Longrightarrow> P' w"
  shows "leads P P' (deployment_steps X R q)"
proof -
  have inner: "leads P P' (deploy_inner X R q ws img container applied timeouts)"
    if "container = container_name (dx_uuid_str X) (dpq_project_id q) (dpq_deployment_id q)" for ws img container applied timeouts
    unfolding leads_def
  proof (intro allI impI)
    fix w assume "P w"
    with steps [OF that, of ws img applied timeouts]
    have "wp (deploy_steps X R q ws img container applied timeouts) (\<lambda>_. P') w" by (simp add: leads_def)
    then show "wp (deploy_inner X R q ws img container applied timeouts) (\<lambda>_. P') w"
      by (cases "deploy_steps X R q ws img container applied timeouts w" rule: fut_cases)
        (simp_all add: wp_def deploy_inner_def steady_flags [OF steady(2)])
  qed
  show ?thesis
    unfolding deployment_steps_def ensure_workspace_capacity_def Let_def
    by (rule leads_then [OF leads_select [where view = view]] leads_abind inner keeps_rules keeps_services keeps_settle
        | simp add: steady start)+
qed

end

locale serving_executor = quiet_services X R served
  for X :: "'w docker_executor" and R :: "'w reporter" and served :: "'w \<Rightarrow> uuid \<Rightarrow> 'c" +
  fixes content :: "RouteSpec \<Rightarrow> 'c"
  assumes quiet_commit: "served (rep_commit R out w) = served w"
    and activates:
      "rm_activate (dx_routes X) r w = (outcome, w') \<Longrightarrow> activation (served w) ((served w)(rs_project_id r := content r)) outcome (served w')"
begin

lemma leads_activate:
  "leads (untouched served old) (published served old (old(rs_project_id r := content r))) (call S_Activate (rm_activate (dx_routes X) r))"
proof -
  have "published served old (old(rs_project_id r := content r)) (logged S_Activate (ending_of outcome) x w)"
    if "untouched served old w" "rm_activate (dx_routes X) r (dw_env w) = (outcome, x)" for w outcome x
    using that(1) activates [OF that(2)]
    by (cases "(outcome, x)" rule: fut_cases) (auto simp: untouched_def published_def attempted_def image_iff)
  then show ?thesis
    unfolding leads_def
    by (intro allI impI, rename_tac w, case_tac "rm_activate (dx_routes X) r (dw_env w)") (simp add: wp_def call_def)
qed

lemma leads_deploy_steps:
  assumes "container = container_name (dx_uuid_str X) (dpq_project_id q) (dpq_deployment_id q)"
  shows "leads (untouched served old) (published served old (old(dpq_project_id q := content (route_of (dx_uuid_str X) q))))
    (deploy_steps X R q ws img container applied timeouts)"
proof -
  have activate: "leads (untouched served old) (published served old (old(dpq_project_id q := content (route_of (dx_uuid_str X) q))))
      (call S_Activate (rm_activate (dx_routes X) \<lparr>rs_project_id = dpq_project_id q, rs_deployment_id = dpq_deployment_id q,
         rs_domain = dp_domain (dpq_payload q), rs_upstream = container, rs_port = dp_container_port (dpq_payload q)\<rparr>))"
    using leads_activate [of old "route_of (dx_uuid_str X) q"] by (simp add: route_of_def assms)
  show ?thesis
    unfolding deploy_steps_def
    by (rule leads_then [OF activate] leads_abind keeps_rules keeps_services keeps_candidate keeps_finalize
        | simp add: quiet_commit untouched_published)+
qed

lemma deployment_serves:
  "case run_deployment X R q (fresh x) of (r, w) \<Rightarrow>
     published served (served x) ((served x)(dpq_project_id q := content (route_of (dx_uuid_str X) q))) w"
proof -
  let ?P = "published served (served x) ((served x)(dpq_project_id q := content (route_of (dx_uuid_str X) q)))"
  have "leads (untouched served (served x)) ?P (deployment_steps X R q)"
    by (rule leads_deployment [OF leads_deploy_steps]) (simp_all add: untouched_published)
  moreover have "untouched served (served x) (fresh x)" by (simp add: untouched_def fresh_def attempted_def)
  ultimately have "wp (deployment_steps X R q) (\<lambda>_. ?P) (fresh x)" by (simp add: leads_def)
  then show ?thesis by (auto simp: run_deployment_def wp_def drop_owned_def published_def split: prod.splits)
qed

end

subsection \<open>The real services\<close>

text \<open>A node whose sites directory can be written, with the text form of UUIDs.\<close>

definition healthy :: "('x, 'f) runtime_libs \<Rightarrow> ('x, 'f) runtime_libs" where
  "healthy L = L\<lparr>lib_routes := (lib_routes L)\<lparr>re_io := (\<lambda>_. Io_Ok), re_uuid_str := uuid_hyphenated, re_uuid_parse := uuid_parse\<rparr>\<rparr>"

text \<open>What Caddy serves for a project is what its route file says.\<close>

definition node_served :: "'x node_world \<Rightarrow> uuid \<Rightarrow> io_error + string" where
  "node_served w p = reads w (uuid_hyphenated p @ ''.Caddyfile'')"

definition node_content :: "('x, 'f) runtime_libs \<Rightarrow> RouteSpec \<Rightarrow> io_error + string" where
  "node_content L r = Inr (route_content (lib_routes (healthy L)) r)"

lemma served_env [simp]: "node_served (w\<lparr>rw_env := x\<rparr>) = node_served w"
  by (simp add: node_served_def reads_def fun_eq_iff)

lemma quietly_in_env [simp]: "quietly node_served (in_env m)"
  by (simp add: quietly_def in_env_def split: prod.split)

lemma route_files_apart:
  assumes "re_uuid_str E = uuid_hyphenated" "p' \<noteq> p"
  shows "uuid_hyphenated p' @ ''.Caddyfile'' \<noteq> route_file E p" "uuid_hyphenated p' @ ''.Caddyfile'' \<noteq> temporary_file E p"
proof -
  show "uuid_hyphenated p' @ ''.Caddyfile'' \<noteq> route_file E p"
    using assms by (simp add: route_file_def hyphenated.str_inj)
  have "list_all (\<lambda>c. is_ascii_hexdigit c \<or> c = CHR ''-'') (uuid_hyphenated p')" "uuid_hyphenated p' \<noteq> []"
    using uuid_hyphenated_roundtrip [of p'] by auto
  then show "uuid_hyphenated p' @ ''.Caddyfile'' \<noteq> temporary_file E p"
    by (cases "uuid_hyphenated p'") (auto simp: temporary_file_def is_ascii_hexdigit_def is_ascii_digit_def)
qed

lemma activate_serves:
  assumes "activate E rl r w = (outcome, w')" "\<And>n. re_io E n = Io_Ok" "re_uuid_str E = uuid_hyphenated"
  shows "activation (node_served w) ((node_served w)(rs_project_id r := Inr (route_content E r))) outcome (node_served w')"
proof -
  let ?p = "rs_project_id r"
  have slot: "node_served v ?p = reads v (route_file E ?p)" for v by (simp add: node_served_def route_file_def assms(3))
  from activate_settles [OF assms(2), where L = rl and r = r and w = w] assms(1)
  have post: "activated_post E r (reads w) outcome w'" by simp
  then have "replaced E r (reads w) (reads w')" by (cases "(outcome, w')" rule: fut_cases) auto
  then have "node_served w' p' = node_served w p'" if "p' \<noteq> ?p" for p'
    using route_files_apart [OF assms(3) that] by (simp add: replaced_def node_served_def)
  then have "node_served w' = (node_served w)(?p := node_served w' ?p)" by auto
  moreover have "activation (node_served w ?p) (Inr (route_content E r)) outcome (node_served w' ?p)"
    using post unfolding slot by (cases "(outcome, w')" rule: fut_cases) (auto simp: replaced_def)
  ultimately show ?thesis
    by (cases "(outcome, w')" rule: fut_cases) (auto simp: fun_upd_idem_iff)
qed

lemmas real_services = with_runner_def Let_def lift_workspace_manager_def lift_container_engine_def

interpretation node: serving_executor "with_runner (healthy L) config run" "lift_reporter (lib_reporter L)" node_served "node_content L"
  for L :: "('x, 'f) runtime_libs" and config run
proof unfold_locales
  fix r and w w' :: "'x node_world" and outcome
  assume "rm_activate (dx_routes (with_runner (healthy L) config run)) r w = (outcome, w')"
  then obtain rl where "activate ((lib_routes (healthy L))\<lparr>re_sites_dir := drc_caddy_sites_dir config\<rparr>) rl r w = (outcome, w')"
    by (auto simp: real_services caddy_route_manager_def)
  moreover have "route_content ((lib_routes (healthy L))\<lparr>re_sites_dir := d\<rparr>) = route_content (lib_routes (healthy L))" for d
    by (simp add: fun_eq_iff route_content_def expected_prefix_def current_prefix_def owned_prefix_def)
  ultimately show "activation (node_served w) ((node_served w)(rs_project_id r := node_content L r)) outcome (node_served w')"
    using activate_serves [where E = "(lib_routes (healthy L))\<lparr>re_sites_dir := drc_caddy_sites_dir config\<rparr>" and rl = rl and r = r
        and w = w and outcome = outcome and w' = w']
    by (simp add: healthy_def node_content_def)
qed (auto simp: real_services lift_reporter_def split: prod.splits)


end
