(* ===== verification/Admission.thy ===== *)
theory Admission
  imports Containers
begin

text \<open>
  Concurrent deployments on one node and the guard \<^verbatim>\<open>SAKALA_MAX_ACTIVE_CONTAINERS\<close>. The part of \<^verbatim>\<open>deploy_inner\<close>
  (\<^verbatim>\<open>executor/docker.rs\<close>) between taking the lock \<^verbatim>\<open>container_admission\<close> and dropping it is a state machine with one
  phase per task: the tasks interleave in any order, and between any two steps of a task containers may stop by
  themselves or be put to sleep. Whether a task passes the check is \<open>admits\<close>, which is what \<open>ensure_capacity\<close>
  computes from the projects Docker lists (\<open>ensure_capacity_admits\<close>).

  A container may come up before its \<^verbatim>\<open>docker run\<close> returns (\<open>launches\<close>, then \<open>started\<close>). A dropped
  \<^verbatim>\<open>docker run\<close> is taken to start no container any more.
\<close>

subsection \<open>The machine\<close>

datatype admission_phase = Queued | Holding | Admitted | Launched | Released

record admission_state =
  ad_running :: "string list"
  ad_sleeping :: "string list"
  ad_lock :: "nat option"
  ad_tasks :: "nat \<Rightarrow> (string \<times> admission_phase) option"

definition unlock :: "nat \<Rightarrow> admission_state \<Rightarrow> admission_state" where
  "unlock t s = s\<lparr>ad_lock := (if ad_lock s = Some t then None else ad_lock s)\<rparr>"

definition set_phase :: "nat \<Rightarrow> (string \<times> admission_phase) option \<Rightarrow> admission_state \<Rightarrow> admission_state" where
  "set_phase t x s = s\<lparr>ad_tasks := (ad_tasks s)(t := x)\<rparr>"

inductive admission_step :: "nat \<Rightarrow> admission_state \<Rightarrow> admission_state \<Rightarrow> bool" for maximum where
  arrives: "ad_tasks s t = None \<Longrightarrow> admission_step maximum s (set_phase t (Some (p, Queued)) s)"
| locks: "ad_tasks s t = Some (p, Queued) \<Longrightarrow> ad_lock s = None
    \<Longrightarrow> admission_step maximum s (set_phase t (Some (p, Holding)) (s\<lparr>ad_lock := Some t\<rparr>))"
| passes: "ad_tasks s t = Some (p, Holding) \<Longrightarrow> admits maximum p (ad_running s)
    \<Longrightarrow> admission_step maximum s (set_phase t (Some (p, Admitted)) s)"
| refused: "ad_tasks s t = Some (p, Holding) \<Longrightarrow> \<not> admits maximum p (ad_running s)
    \<Longrightarrow> admission_step maximum s (set_phase t None (unlock t s))"
| launches: "ad_tasks s t = Some (p, Admitted)
    \<Longrightarrow> admission_step maximum s (set_phase t (Some (p, Launched)) (s\<lparr>ad_running := p # ad_running s\<rparr>))"
| started: "ad_tasks s t = Some (p, Launched)
    \<Longrightarrow> admission_step maximum s (set_phase t (Some (p, Released)) (unlock t s))"
| ends: "ad_tasks s t = Some (p, ph) \<Longrightarrow> admission_step maximum s (set_phase t None (unlock t s))"
| exits: "p \<in> set (ad_running s) \<Longrightarrow> admission_step maximum s (s\<lparr>ad_running := remove1 p (ad_running s)\<rparr>)"
| sleeps: "p \<in> set (ad_running s)
    \<Longrightarrow> admission_step maximum s (s\<lparr>ad_running := remove1 p (ad_running s), ad_sleeping := p # ad_sleeping s\<rparr>)"

text \<open>\<^verbatim>\<open>run_wake\<close> starts the container it finds: it takes no lock and asks for no capacity.\<close>

inductive wake_step :: "admission_state \<Rightarrow> admission_state \<Rightarrow> bool" where
  wakes: "p \<in> set (ad_sleeping s)
    \<Longrightarrow> wake_step s (s\<lparr>ad_running := p # ad_running s, ad_sleeping := remove1 p (ad_sleeping s)\<rparr>)"

definition idle_node :: "string list \<Rightarrow> admission_state" where
  "idle_node running = \<lparr>ad_running = running, ad_sleeping = [], ad_lock = None, ad_tasks = (\<lambda>_. None)\<rparr>"

inductive_cases admission_stepE: "admission_step maximum s s'"

subsection \<open>The guard holds for deployments\<close>

definition in_section :: "admission_phase \<Rightarrow> bool" where
  "in_section ph \<longleftrightarrow> ph = Holding \<or> ph = Admitted \<or> ph = Launched"

definition admission_inv :: "nat \<Rightarrow> admission_state \<Rightarrow> bool" where
  "admission_inv maximum s \<longleftrightarrow>
     card (set (ad_running s)) \<le> maximum
   \<and> (\<forall>t p ph. ad_tasks s t = Some (p, ph) \<longrightarrow> in_section ph \<longrightarrow> ad_lock s = Some t)
   \<and> (\<forall>t p. ad_tasks s t = Some (p, Admitted) \<longrightarrow> p \<in> set (ad_running s) \<or> card (set (ad_running s)) < maximum)"

lemma card_remove1: "card (set (remove1 p xs)) \<le> card (set xs)"
  by (simp add: card_mono set_remove1_subset)

lemma gone_or_room:
  assumes "p \<in> set xs \<or> card (set xs) < n" "card (set xs) \<le> n"
  shows "p \<in> set (remove1 q xs) \<or> card (set (remove1 q xs)) < n"
proof (cases "p \<in> set xs \<and> p \<notin> set (remove1 q xs)")
  case True
  then have "set (remove1 q xs) \<subset> set xs" using set_remove1_subset [of q xs] by blast
  then have "card (set (remove1 q xs)) < card (set xs)" by (simp add: psubset_card_mono)
  with assms(2) show ?thesis by simp
qed (use assms card_remove1 [of q xs] in \<open>auto intro: le_less_trans\<close>)

lemma admitted_room: "admits maximum p xs \<Longrightarrow> p \<in> set xs \<or> card (set xs) < maximum"
  using card_length [of xs] by (auto simp: admits_def)

lemma card_insert_room: "p \<in> set xs \<or> card (set xs) < n \<Longrightarrow> card (set xs) \<le> n \<Longrightarrow> card (insert p (set xs)) \<le> n"
  by (auto simp: insert_absorb card_insert_if)

lemma admission_invI:
  assumes "card (set (ad_running s)) \<le> maximum"
    and "\<And>t p ph. ad_tasks s t = Some (p, ph) \<Longrightarrow> in_section ph \<Longrightarrow> ad_lock s = Some t"
    and "\<And>t p. ad_tasks s t = Some (p, Admitted) \<Longrightarrow> p \<in> set (ad_running s) \<or> card (set (ad_running s)) < maximum"
  shows "admission_inv maximum s"
  using assms unfolding admission_inv_def by blast

lemma admission_inv_runs: "admission_inv maximum s \<Longrightarrow> card (set (ad_running s)) \<le> maximum"
  by (simp add: admission_inv_def)

lemma admission_inv_locked:
  "admission_inv maximum s \<Longrightarrow> ad_tasks s t = Some (p, ph) \<Longrightarrow> in_section ph \<Longrightarrow> ad_lock s = Some t"
  by (auto simp: admission_inv_def)

lemma admission_inv_room:
  "admission_inv maximum s \<Longrightarrow> ad_tasks s t = Some (p, Admitted)
   \<Longrightarrow> p \<in> set (ad_running s) \<or> card (set (ad_running s)) < maximum"
  by (auto simp: admission_inv_def)

lemmas admission_invD = admission_inv_runs admission_inv_locked admission_inv_room

lemma in_section_simps [simp]: "\<not> in_section Queued" "in_section Holding" "in_section Admitted" "in_section Launched" "\<not> in_section Released"
  by (simp_all add: in_section_def)

lemma fewer_run:
  assumes "admission_inv maximum s" "ad_running s' = remove1 q (ad_running s)" "ad_lock s' = ad_lock s" "ad_tasks s' = ad_tasks s"
  shows "admission_inv maximum s'"
proof (rule admission_invI)
  show "card (set (ad_running s')) \<le> maximum"
    using card_remove1 [of q "ad_running s"] admission_inv_runs [OF assms(1)] assms(2) by simp
  show "ad_lock s' = Some t" if "ad_tasks s' t = Some (p, ph)" "in_section ph" for t p ph
    using admission_inv_locked [OF assms(1)] that assms by simp
  show "p \<in> set (ad_running s') \<or> card (set (ad_running s')) < maximum" if "ad_tasks s' t = Some (p, Admitted)" for t p
    unfolding assms(2)
    by (rule gone_or_room) (use admission_inv_room [OF assms(1)] admission_inv_runs [OF assms(1)] that assms in auto)
qed

lemma task_leaves:
  assumes "admission_inv maximum s" "case x of None \<Rightarrow> True | Some (q, ph) \<Rightarrow> \<not> in_section ph" "s' = s \<or> s' = unlock t s"
  shows "admission_inv maximum (set_phase t x s')"
  using assms by (intro admission_invI)
    (auto simp: set_phase_def unlock_def split: if_splits dest: admission_invD)

lemma alone:
  assumes "admission_inv maximum s" "ad_tasks s t = Some (p, ph)" "in_section ph" "ad_tasks s u = Some (q, ph')" "in_section ph'"
  shows "u = t"
  using admission_inv_locked [OF assms(1) assms(2) assms(3)] admission_inv_locked [OF assms(1) assms(4) assms(5)] by simp

lemma admission_inv_step:
  assumes "admission_step maximum s s'" "admission_inv maximum s"
  shows "admission_inv maximum s'"
  using assms
proof (induction rule: admission_step.induct)
  case (locks s t p)
  then show ?case
    by (intro admission_invI) (auto simp: set_phase_def split: if_splits dest: admission_invD)
next
  case (passes s t p)
  then show ?case
    by (intro admission_invI)
      (auto simp: set_phase_def split: if_splits dest: admission_inv_runs admission_inv_locked admission_inv_room admitted_room)
next
  case (launches s t p)
  have room: "p \<in> set (ad_running s) \<or> card (set (ad_running s)) < maximum"
    by (rule admission_inv_room [OF launches(2) launches(1)])
  show ?case
  proof (rule admission_invI)
    show "card (set (ad_running (set_phase t (Some (p, Launched)) (s\<lparr>ad_running := p # ad_running s\<rparr>)))) \<le> maximum"
      using card_insert_room [OF room admission_inv_runs [OF launches(2)]] by (simp add: set_phase_def)
  next
    fix u q ph
    assume "ad_tasks (set_phase t (Some (p, Launched)) (s\<lparr>ad_running := p # ad_running s\<rparr>)) u = Some (q, ph)" "in_section ph"
    then show "ad_lock (set_phase t (Some (p, Launched)) (s\<lparr>ad_running := p # ad_running s\<rparr>)) = Some u"
      using admission_inv_locked [OF launches(2), of u q ph] admission_inv_locked [OF launches(2) launches(1)]
      by (cases "u = t") (simp_all add: set_phase_def)
  next
    fix u q
    assume "ad_tasks (set_phase t (Some (p, Launched)) (s\<lparr>ad_running := p # ad_running s\<rparr>)) u = Some (q, Admitted)"
    then have "u \<noteq> t" "ad_tasks s u = Some (q, Admitted)" by (auto simp: set_phase_def split: if_splits)
    with alone [OF launches(2) launches(1), of u q Admitted]
    show "q \<in> set (ad_running (set_phase t (Some (p, Launched)) (s\<lparr>ad_running := p # ad_running s\<rparr>)))
        \<or> card (set (ad_running (set_phase t (Some (p, Launched)) (s\<lparr>ad_running := p # ad_running s\<rparr>)))) < maximum"
      by simp
  qed
next
  case (started s t p)
  then show ?case using task_leaves [of maximum s "Some (p, Released)" "unlock t s" t] by simp
next
  case (exits p s)
  then show ?case using fewer_run [of maximum s "s\<lparr>ad_running := remove1 p (ad_running s)\<rparr>" p] by simp
next
  case (sleeps p s)
  then show ?case
    using fewer_run [of maximum s "s\<lparr>ad_running := remove1 p (ad_running s), ad_sleeping := p # ad_sleeping s\<rparr>" p] by simp
next
  case (arrives s t p)
  then show ?case using task_leaves [of maximum s "Some (p, Queued)" s t] by simp
next
  case (refused s t p)
  then show ?case using task_leaves [of maximum s None "unlock t s" t] by simp
next
  case (ends s t p ph)
  then show ?case using task_leaves [of maximum s None "unlock t s" t] by simp
qed

lemma admission_inv_reachable:
  assumes "(admission_step maximum)\<^sup>*\<^sup>* s s'" "admission_inv maximum s"
  shows "admission_inv maximum s'"
  using assms by (induction rule: rtranclp_induct) (auto intro: admission_inv_step)

lemma admission_inv_idle: "card (set running) \<le> maximum \<Longrightarrow> admission_inv maximum (idle_node running)"
  by (simp add: admission_inv_def idle_node_def)


lemma deploys:
  assumes "ad_tasks s t = None" "ad_lock s = None" "admits maximum p (ad_running s)"
  shows "(admission_step maximum)\<^sup>*\<^sup>* s (s\<lparr>ad_running := p # ad_running s\<rparr>)"
proof -
  let ?q = "set_phase t (Some (p, Queued)) s"
  let ?h = "set_phase t (Some (p, Holding)) (?q\<lparr>ad_lock := Some t\<rparr>)"
  let ?a = "set_phase t (Some (p, Admitted)) ?h"
  let ?l = "set_phase t (Some (p, Launched)) (?a\<lparr>ad_running := p # ad_running ?a\<rparr>)"
  let ?r = "set_phase t (Some (p, Released)) (unlock t ?l)"
  have "admission_step maximum s ?q" using assms(1) by (rule arrives)
  then have "(admission_step maximum)\<^sup>*\<^sup>* s ?q" by (rule r_into_rtranclp)
  moreover have "admission_step maximum ?q ?h" by (rule locks) (use assms in \<open>simp_all add: set_phase_def\<close>)
  ultimately have "(admission_step maximum)\<^sup>*\<^sup>* s ?h" by (rule rtranclp.rtrancl_into_rtrancl)
  moreover have "admission_step maximum ?h ?a" by (rule passes) (use assms in \<open>simp_all add: set_phase_def\<close>)
  ultimately have "(admission_step maximum)\<^sup>*\<^sup>* s ?a" by (rule rtranclp.rtrancl_into_rtrancl)
  moreover have "admission_step maximum ?a ?l" by (rule launches) (simp add: set_phase_def)
  ultimately have "(admission_step maximum)\<^sup>*\<^sup>* s ?l" by (rule rtranclp.rtrancl_into_rtrancl)
  moreover have "admission_step maximum ?l ?r" by (rule started) (simp add: set_phase_def)
  ultimately have "(admission_step maximum)\<^sup>*\<^sup>* s ?r" by (rule rtranclp.rtrancl_into_rtrancl)
  moreover have "admission_step maximum ?r (set_phase t None (unlock t ?r))"
    by (rule ends [of _ _ p Released]) (simp add: set_phase_def)
  ultimately have "(admission_step maximum)\<^sup>*\<^sup>* s (set_phase t None (unlock t ?r))" by (rule rtranclp.rtrancl_into_rtrancl)
  moreover have "set_phase t None (unlock t ?r) = s\<lparr>ad_running := p # ad_running s\<rparr>"
    using assms by (simp add: set_phase_def unlock_def fun_upd_idem)
  ultimately show ?thesis by simp
qed


subsection \<open>It does not hold for waking\<close>


end
