(* ===== verification/Polling.thy ===== *)
theory Polling
  imports Scheduler Dispatcher
begin

text \<open>
  The polling loop \<^verbatim>\<open>run\<close> of \<^verbatim>\<open>scheduler/poller.rs\<close> together with the tasks it spawns, as a state machine. The
  scheduler of \<open>Scheduler\<close> and the dispatcher of \<open>Dispatcher\<close> meet in the lifecycle state of the node, an atomic
  cell: the handlers of \<open>DrainNode\<close> and \<open>ResumeNode\<close> store to it from their tasks, the loop loads it twice (to
  finish a drain and to admit a command) and stores to it once. Loads and stores are separate steps, so a task
  may run between a check of the loop and what the loop does next.
\<close>

subsection \<open>The machine\<close>

text \<open>Where the loop is. \<open>Finishing_Drain\<close> is between the check for a finished drain and the store,
  \<open>Passed_Check\<close> between the admission of a command and its start.\<close>

datatype poller_pc =
    Turn_Begins
  | Finishing_Drain
  | Before_Poll
  | Commands "AgentCommand list"
  | Passed_Check AgentCommand "AgentCommand list"
  | Sleeping
  | Cancelling
  | Poller_Stopped

text \<open>\<open>nd_live\<close> are the tasks that have not ended yet, with the command each one works on.\<close>

record poller_node =
  nd_pc :: poller_pc
  nd_lifecycle :: NodeLifecycle
  nd_executions :: CommandExecutions
  nd_live :: "task_id \<Rightarrow> AgentCommand option"

definition poller_start :: "nat \<Rightarrow> NodeLifecycle \<Rightarrow> poller_node" where
  "poller_start limit l =
     \<lparr>nd_pc = Turn_Begins, nd_lifecycle = l, nd_executions = executions_new limit metrics_default, nd_live = (\<lambda>_. None)\<rparr>"

inductive node_step :: "codec \<Rightarrow> http_env \<Rightarrow> 'rt dispatcher \<Rightarrow> poller_node \<Rightarrow> poller_node \<Rightarrow> bool" for C E d where
  task_stores: "nd_live s i = Some command \<Longrightarrow> dispatch C E d r now command (nd_lifecycle s) w = (res, l, w')
    \<Longrightarrow> node_step C E d s (s\<lparr>nd_lifecycle := l\<rparr>)"
| task_ends: "nd_live s i = Some command \<Longrightarrow> node_step C E d s (s\<lparr>nd_live := (nd_live s)(i := None)\<rparr>)"
| reaps: "nd_pc s = Turn_Begins \<Longrightarrow> nd_live s i = None
    \<Longrightarrow> node_step C E d s (s\<lparr>nd_executions := reap i ok (nd_executions s)\<rparr>)"
| sees_drained: "nd_pc s = Turn_Begins \<Longrightarrow> lifecycle_state (nd_lifecycle s) = Draining \<Longrightarrow> executions_len (nd_executions s) = 0
    \<Longrightarrow> node_step C E d s (s\<lparr>nd_pc := Finishing_Drain\<rparr>)"
| finishes_drain: "nd_pc s = Finishing_Drain
    \<Longrightarrow> node_step C E d s (s\<lparr>nd_pc := Before_Poll, nd_lifecycle := lifecycle_set (nd_lifecycle s) Drained\<rparr>)"
| sees_no_drain: "nd_pc s = Turn_Begins \<Longrightarrow> lifecycle_state (nd_lifecycle s) \<noteq> Draining \<or> executions_len (nd_executions s) \<noteq> 0
    \<Longrightarrow> node_step C E d s (s\<lparr>nd_pc := Before_Poll\<rparr>)"
| polls: "nd_pc s = Before_Poll
    \<Longrightarrow> node_step C E d s (s\<lparr>nd_pc := Commands commands,
          nd_executions := (nd_executions s)\<lparr>ce_metrics := begin_poll (ce_metrics (nd_executions s))\<rparr>\<rparr>)"
| runs_locally: "nd_pc s = Before_Poll \<Longrightarrow> node_step C E d s (s\<lparr>nd_pc := Sleeping\<rparr>)"
| leaves: "nd_pc s = Commands (command # commands) \<Longrightarrow> \<not> may_start (nd_lifecycle s) command
    \<Longrightarrow> node_step C E d s (s\<lparr>nd_pc := Commands commands\<rparr>)"
| admits_command: "nd_pc s = Commands (command # commands) \<Longrightarrow> may_start (nd_lifecycle s) command
    \<Longrightarrow> node_step C E d s (s\<lparr>nd_pc := Passed_Check command commands\<rparr>)"
| starts: "nd_pc s = Passed_Check command commands \<Longrightarrow> try_start command (nd_executions s) = (True, ce)
    \<Longrightarrow> node_step C E d s (s\<lparr>nd_pc := Commands commands, nd_executions := ce,
          nd_live := (nd_live s)(ce_next_id (nd_executions s) := Some command)\<rparr>)"
| defers: "nd_pc s = Passed_Check command commands \<Longrightarrow> try_start command (nd_executions s) = (False, ce)
    \<Longrightarrow> node_step C E d s (s\<lparr>nd_pc := Commands commands, nd_executions := ce\<lparr>ce_metrics := command_deferred (ce_metrics ce)\<rparr>\<rparr>)"
| turn_ends: "nd_pc s = Commands [] \<Longrightarrow> node_step C E d s (s\<lparr>nd_pc := Sleeping\<rparr>)"
| interval_over: "nd_pc s = Sleeping \<Longrightarrow> node_step C E d s (s\<lparr>nd_pc := Turn_Begins\<rparr>)"
| shuts_down: "nd_pc s = Sleeping
    \<Longrightarrow> node_step C E d s (s\<lparr>nd_pc := Cancelling, nd_executions := cancel_all (nd_executions s)\<rparr>)"
| joins: "nd_pc s = Cancelling \<Longrightarrow> nd_live s i = None
    \<Longrightarrow> node_step C E d s (s\<lparr>nd_executions := wait_one i ok (nd_executions s)\<rparr>)"
| stops: "nd_pc s = Cancelling \<Longrightarrow> ce_tasks (nd_executions s) = [] \<Longrightarrow> node_step C E d s (s\<lparr>nd_pc := Poller_Stopped\<rparr>)"

subsection \<open>The invariant\<close>

definition node_command :: "AgentCommand \<Rightarrow> bool" where
  "node_command command \<longleftrightarrow> cmd_type command = DrainNode \<or> cmd_type command = ResumeNode"

definition closed_to_work :: "NodeLifecycle \<Rightarrow> bool" where
  "closed_to_work l \<longleftrightarrow> lifecycle_state l = Drained \<or> lifecycle_state l = Maintenance"

definition pending_start :: "poller_pc \<Rightarrow> AgentCommand option" where
  "pending_start pc = (case pc of Passed_Check command _ \<Rightarrow> Some command | _ \<Rightarrow> None)"

definition node_inv :: "poller_node \<Rightarrow> bool" where
  "node_inv s \<longleftrightarrow>
     dom (nd_live s) \<subseteq> tk_id ` set (ce_tasks (nd_executions s))
   \<and> (nd_pc s = Finishing_Drain \<longrightarrow> ce_tasks (nd_executions s) = [] \<and> lifecycle_state (nd_lifecycle s) = Draining)
   \<and> (nd_pc s = Poller_Stopped \<longrightarrow> ce_tasks (nd_executions s) = [])
   \<and> (closed_to_work (nd_lifecycle s) \<longrightarrow>
        (\<forall>command \<in> ran (nd_live s) \<union> set_option (pending_start (nd_pc s)). node_command command))"

lemma pending_start_simps [simp]:
  "pending_start Turn_Begins = None" "pending_start Finishing_Drain = None" "pending_start Before_Poll = None"
  "pending_start (Commands cs) = None" "pending_start (Passed_Check c cs) = Some c" "pending_start Sleeping = None"
  "pending_start Cancelling = None" "pending_start Poller_Stopped = None"
  by (simp_all add: pending_start_def)

lemma node_invI:
  assumes "dom (nd_live s) \<subseteq> tk_id ` set (ce_tasks (nd_executions s))"
    and "nd_pc s = Finishing_Drain \<Longrightarrow> ce_tasks (nd_executions s) = [] \<and> lifecycle_state (nd_lifecycle s) = Draining"
    and "nd_pc s = Poller_Stopped \<Longrightarrow> ce_tasks (nd_executions s) = []"
    and "\<And>command. closed_to_work (nd_lifecycle s) \<Longrightarrow> command \<in> ran (nd_live s) \<union> set_option (pending_start (nd_pc s)) \<Longrightarrow> node_command command"
  shows "node_inv s"
  using assms unfolding node_inv_def by blast

lemma tasks_remove [simp]: "ce_tasks (remove_metadata i ce) = ce_tasks ce"
  by (auto simp: remove_metadata_def release_metadata_def split: option.splits)

lemma tasks_fold_remove [simp]: "ce_tasks (fold remove_metadata is ce) = ce_tasks ce"
  by (induction "is" arbitrary: ce) auto

lemma tasks_ended:
  "ce_tasks (reap i ok ce) = filter (\<lambda>t. tk_id t \<noteq> i) (ce_tasks ce)"
  "ce_tasks (wait_one i ok ce) = filter (\<lambda>t. tk_id t \<noteq> i) (ce_tasks ce)"
proof -
  have "filter (\<lambda>t. tk_id t \<noteq> i) (ce_tasks ce) = ce_tasks ce" if "find (\<lambda>t. tk_id t = i) (ce_tasks ce) = None"
    using that by (auto simp: find_None_iff filter_id_conv)
  then show "ce_tasks (reap i ok ce) = filter (\<lambda>t. tk_id t \<noteq> i) (ce_tasks ce)"
    "ce_tasks (wait_one i ok ce) = filter (\<lambda>t. tk_id t \<noteq> i) (ce_tasks ce)"
    by (auto simp: reap_def wait_one_def release_task_def Let_def split: option.splits)
qed

lemma ended_keeps_live:
  assumes "dom live \<subseteq> tk_id ` set ts" "live i = None"
  shows "dom live \<subseteq> tk_id ` set (filter (\<lambda>t. tk_id t \<noteq> i) ts)"
  using assms by (fastforce simp: image_iff)

text \<open>What a task may store: nothing but \<open>Draining\<close> by \<open>DrainNode\<close> and \<open>Active\<close> by \<open>ResumeNode\<close>.\<close>

lemma dispatch_opens:
  assumes "dispatch C E d r now command l w = (res, l', w')"
  shows "\<not> closed_to_work l' \<or> lifecycle_state l' = lifecycle_state l"
proof -
  have "lifecycle_state l' = lifecycle_state (fst (snd (dispatch C E d r now command l w)))" by (simp add: assms)
  then show ?thesis by (auto simp: dispatch_lifecycle closed_to_work_def split: if_splits)
qed

lemma node_inv_step:
  assumes "node_step C E d s s'" "node_inv s"
  shows "node_inv s'"
  using assms
proof (induction rule: node_step.induct)
  case (task_stores s i command r now w res l w')
  have "ce_tasks (nd_executions s) \<noteq> []" if "nd_pc s = Finishing_Drain \<or> nd_pc s = Poller_Stopped"
    using task_stores(1,3) by (auto simp: node_inv_def)
  moreover from dispatch_opens [OF task_stores(2)] have "closed_to_work l \<Longrightarrow> closed_to_work (nd_lifecycle s)"
    by (auto simp: closed_to_work_def)
  ultimately show ?case using task_stores(3) by (auto simp: node_inv_def)
next
  case (reaps s i ok)
  then show ?case
    using ended_keeps_live [of "nd_live s" "ce_tasks (nd_executions s)" i] by (simp add: node_inv_def tasks_ended)
next
  case (joins s i ok)
  then show ?case
    using ended_keeps_live [of "nd_live s" "ce_tasks (nd_executions s)" i] by (simp add: node_inv_def tasks_ended)
next
  case (starts s command commands ce)
  have "ce_tasks ce = ce_tasks (nd_executions s) @ [\<lparr>tk_id = ce_next_id (nd_executions s), tk_command_id = cmd_id command, tk_project_id = cmd_project_id command\<rparr>]"
    using starts(2) by (auto simp: try_start_def Let_def split: if_splits)
  moreover have "ran ((nd_live s)(ce_next_id (nd_executions s) := Some command)) \<subseteq> insert command (ran (nd_live s))"
    by (auto simp: ran_def split: if_splits)
  ultimately show ?case
    using starts by (intro node_invI) (auto simp: node_inv_def)
next
  case (defers s command commands ce)
  then have "ce = nd_executions s" by (auto simp: try_start_def Let_def split: if_splits)
  with defers show ?case by (auto simp: node_inv_def)
next
  case (admits_command s command commands)
  have "node_command command" if "closed_to_work (nd_lifecycle s)"
    using that admits_command(2) by (auto simp: may_start_def accepts_workload_commands_def closed_to_work_def node_command_def)
  with admits_command show ?case by (auto simp: node_inv_def)
next
  case (task_ends s i command)
  have "ran ((nd_live s)(i := None)) \<subseteq> ran (nd_live s)" by (auto simp: ran_def split: if_splits)
  with task_ends show ?case by (intro node_invI) (auto simp: node_inv_def)
next
  case (finishes_drain s)
  then have "dom (nd_live s) = {}" by (auto simp: node_inv_def simp del: dom_eq_empty_conv)
  with finishes_drain show ?case by (simp add: node_inv_def)
next
  case (sees_drained s)
  then show ?case by (simp add: node_inv_def executions_len_def)
next
  case (shuts_down s)
  then show ?case by (simp add: node_inv_def cancel_all_def)
qed (simp_all add: node_inv_def)

lemma node_inv_reachable:
  assumes "(node_step C E d)\<^sup>*\<^sup>* (poller_start limit l) s"
  shows "node_inv s"
  using assms
proof (induction rule: rtranclp_induct)
  case base
  show ?case by (simp add: node_inv_def poller_start_def)
qed (rule node_inv_step)

text \<open>C6: draining a node is reliable, however the polling loop and the commands it started interleave. The loop
  declares the node drained only in a moment when it is still draining and no command runs, so it never
  overrides a \<open>ResumeNode\<close>. As long as the node is drained or in maintenance, every command that runs or is about
  to be started is a \<open>DrainNode\<close> or \<open>ResumeNode\<close>. And once the loop has stopped, no command runs any more.\<close>

theorem drained_node_runs_no_workload:
  assumes "(node_step C E d)\<^sup>*\<^sup>* (poller_start limit l) s"
  shows "(if nd_pc s = Finishing_Drain then lifecycle_state (nd_lifecycle s) = Draining \<and> nd_live s = Map.empty else True)
    \<and> (if lifecycle_state (nd_lifecycle s) = Drained \<or> lifecycle_state (nd_lifecycle s) = Maintenance
       then cmd_type ` (ran (nd_live s) \<union> set_option (pending_start (nd_pc s))) \<subseteq> {DrainNode, ResumeNode} else True)
    \<and> (if nd_pc s = Poller_Stopped then nd_live s = Map.empty else True)"
  using node_inv_reachable [OF assms] by (auto simp: node_inv_def closed_to_work_def node_command_def)

definition resume_command :: AgentCommand where
  "resume_command =
     \<lparr>cmd_id = 1, cmd_type = ResumeNode, cmd_status = Status_Pending, cmd_project_id = None, cmd_deployment_id = None,
      cmd_payload = JNull\<rparr>"

theorem drained_node_runs_no_workload_witness:
  "\<exists>s. (node_step example_codec flaky_env example_dispatcher)\<^sup>*\<^sup>* (poller_start 2 (lifecycle_with_state Drained)) s \<and> nd_live s 0 = Some resume_command
     \<and> cmd_type ` (ran (nd_live s) \<union> set_option (pending_start (nd_pc s))) \<subseteq> {DrainNode, ResumeNode}"
proof -
  let ?l = "lifecycle_with_state Drained"
  let ?s0 = "poller_start 2 ?l"
  let ?s1 = "?s0\<lparr>nd_pc := Before_Poll\<rparr>"
  let ?ce = "(nd_executions ?s1)\<lparr>ce_metrics := begin_poll (ce_metrics (nd_executions ?s1))\<rparr>"
  let ?s2 = "?s1\<lparr>nd_pc := Commands [resume_command], nd_executions := ?ce\<rparr>"
  let ?s3 = "?s2\<lparr>nd_pc := Passed_Check resume_command []\<rparr>"
  let ?s4 = "?s3\<lparr>nd_pc := Commands [], nd_executions := snd (try_start resume_command ?ce),
     nd_live := (nd_live ?s3)(ce_next_id (nd_executions ?s3) := Some resume_command)\<rparr>"
  have "node_step example_codec flaky_env example_dispatcher ?s0 ?s1" by (rule sees_no_drain) (simp_all add: poller_start_def)
  moreover have "node_step example_codec flaky_env example_dispatcher ?s1 ?s2" by (rule polls) simp
  moreover have "node_step example_codec flaky_env example_dispatcher ?s2 ?s3" by (rule admits_command) (simp_all add: may_start_def resume_command_def)
  moreover have "node_step example_codec flaky_env example_dispatcher ?s3 ?s4"
    by (rule starts) (simp_all add: try_start_def resume_command_def is_lightweight_def poller_start_def executions_new_def)
  ultimately have run: "(node_step example_codec flaky_env example_dispatcher)\<^sup>*\<^sup>* ?s0 ?s4"
    by (intro converse_rtranclp_into_rtranclp [OF _ converse_rtranclp_into_rtranclp [OF _ converse_rtranclp_into_rtranclp [OF _ r_into_rtranclp]]])
  from drained_node_runs_no_workload [OF run] show ?thesis
    by (intro exI [of _ ?s4] conjI run) (simp_all add: poller_start_def executions_new_def)
qed

subsection \<open>Waiting for the tasks\<close>

text \<open>The whole of \<^verbatim>\<open>wait_for_tasks\<close>: it joins a task as long as there is one. Which task ends next, and how, is
  the argument \<open>joined\<close>; after \<^verbatim>\<open>abort_all\<close> every task ends.\<close>

function wait_for_tasks :: "(CommandExecutions \<Rightarrow> nat \<times> bool) \<Rightarrow> CommandExecutions \<Rightarrow> CommandExecutions" where
  "wait_for_tasks joined ce =
     (if ce_tasks ce = [] then ce
      else
        case joined ce of
          (k, ok) \<Rightarrow> wait_for_tasks joined (wait_one (tk_id (ce_tasks ce ! (k mod length (ce_tasks ce)))) ok ce))"
  by auto
termination
proof (relation "measure (\<lambda>(_, ce). length (ce_tasks ce))", goal_cases)
  case (2 joined ce k ok)
  then have "ce_tasks ce ! (k mod length (ce_tasks ce)) \<in> set (ce_tasks ce)" by simp
  then show ?case by (auto simp: tasks_ended intro: length_filter_less)
qed simp

declare wait_for_tasks.simps [simp del]

lemma wait_one_is_remove:
  assumes "sinv ce" "find (\<lambda>t. tk_id t = i) (ce_tasks ce) = Some k"
  shows "wait_one i ok ce = remove_metadata i (ce\<lparr>ce_tasks := filter (\<lambda>t. tk_id t \<noteq> i) (ce_tasks ce)\<rparr>)"
proof -
  from assms obtain t where "(i, t) \<in> set (ce_task_metadata ce)" "tm_command_id t = tk_command_id k"
    "tm_project_id t = tk_project_id k" "map_of (ce_task_metadata ce) i = Some t"
    "filter (\<lambda>(_, t'). tm_command_id t' = tk_command_id k) (ce_task_metadata ce) = [(i, t)]"
    by (rule reap_release)
  with assms(2) show ?thesis
    by (simp add: wait_one_def Let_def release_task_def remove_metadata_def)
qed

lemma sinv_wait_one: "sinv ce \<Longrightarrow> sinv (wait_one i ok ce)"
proof (cases "find (\<lambda>t. tk_id t = i) (ce_tasks ce)")
  case None
  then show "sinv ce \<Longrightarrow> sinv (wait_one i ok ce)" by (simp add: wait_one_def)
next
  case (Some k)
  assume s: "sinv ce"
  from s Some obtain t where "(i, t) \<in> set (ce_task_metadata ce)" by (rule reap_release)
  with s wait_one_is_remove [OF s Some, of ok] show ?thesis by (simp add: sinv_remove)
qed

lemma sinv_cancel_all: "sinv ce \<Longrightarrow> sinv (cancel_all ce)"
  by (simp add: sinv_def cancel_all_def heavy_count_def light_count_def projects_def map_filter_def o_def
      case_prod_unfold filter_map)

lemma wait_for_tasks_sinv: "sinv ce \<Longrightarrow> sinv (wait_for_tasks joined ce) \<and> ce_tasks (wait_for_tasks joined ce) = []"
proof (induction joined ce rule: wait_for_tasks.induct)
  case (1 joined ce)
  show ?case
  proof (cases "ce_tasks ce = []")
    case True
    with 1(2) show ?thesis by (simp add: wait_for_tasks.simps [of joined ce])
  next
    case False
    with 1 show ?thesis
      by (cases "joined ce") (simp add: wait_for_tasks.simps [of joined ce] sinv_wait_one)
  qed
qed

lemma sinv_empty:
  assumes "sinv ce" "ce_tasks ce = []"
  shows "ce_active_heavy ce = 0" "ce_active_lightweight ce = 0" "ce_active_projects ce = {}" "sm_active_commands (ce_metrics ce) = 0"
  using assms by (auto simp: sinv_def heavy_count_def light_count_def projects_def map_filter_def)

text \<open>C29: the shutdown of the scheduler ends and leaves nothing behind: in whatever order and way the cancelled
  tasks end, waiting for them terminates with no task, no used slot, no locked project and a heartbeat counter
  of zero (as long as no command was started twice).\<close>

theorem shutdown_leaves_nothing:
  assumes "sreach limit False ce"
  shows "case wait_for_tasks joined (cancel_all ce) of
      ce' \<Rightarrow> ce_tasks ce' = [] \<and> ce_active_heavy ce' = 0 \<and> ce_active_lightweight ce' = 0 \<and> ce_active_projects ce' = {}
        \<and> sm_active_commands (ce_metrics ce') = 0"
  using wait_for_tasks_sinv [OF sinv_cancel_all [OF sreach_sinv [OF assms]], of joined] sinv_empty by simp

theorem shutdown_leaves_nothing_witness:
  "\<exists>ce. sreach 2 False ce \<and> ce_tasks ce \<noteq> [] \<and> ce_active_heavy (wait_for_tasks (\<lambda>_. (0, True)) (cancel_all ce)) = 0"
proof -
  let ?n = "executions_new 2 metrics_default"
  let ?ce = "snd (try_start (cleanup_command 1) ?n)"
  have "try_start (cleanup_command 1) ?n = (True, ?ce)" "ce_tasks ?ce \<noteq> []"
    by (simp_all add: try_start_def executions_new_def cleanup_command_def is_lightweight_def)
  then have "sreach 2 False ?ce" "ce_tasks ?ce \<noteq> []"
    by (auto intro: sr_start [OF sr_new] simp: executions_new_def)
  with shutdown_leaves_nothing [of 2 ?ce "\<lambda>_. (0, True)"] show ?thesis by (intro exI [of _ ?ce]) simp
qed

end
