(* ===== verification/Agent.thy ===== *)
theory Agent
  imports Runtime_Executor Polling
begin

text \<open>
  The process \<^verbatim>\<open>sakala-agent\<close>, \<^verbatim>\<open>apps/sakala-agent/src/app.rs\<close>: the order in which it checks the host, recovers what an
  earlier process left, asks the control plane for the state of the node, starts its three workers and stops
  them again.

  \<open>run_agent\<close> keeps a list of what it did. The workers themselves are \<open>health_run\<close>, \<open>heartbeat_run\<close> (\<open>Heartbeat\<close>)
  and the machine of \<open>Polling\<close>; here they are started and joined. The signal, the channel and the end of the
  tasks are the environment.
\<close>

subsection \<open>The runtime as the application sees it\<close>

type_synonym ('w, 'a) rt_call = "'w \<Rightarrow> (RuntimeExecutionError + 'a) \<times> 'w"

record 'w node_runtime =
  nr_preflight :: "('w, RuntimePreflightCheck list) rt_call"
  nr_recover :: "bool \<Rightarrow> ('w, RuntimeReconciliationReport) rt_call"
  nr_health_snapshot :: "('w, RuntimeHealthSnapshot list) rt_call"
  nr_shutdown :: "('w, unit) rt_call"

text \<open>The default methods of the trait, which the Noop executor leaves as they are.\<close>

definition noop_runtime :: "'w node_runtime" where
  "noop_runtime =
     \<lparr>nr_preflight = (\<lambda>w. (Inr [], w)), nr_recover = (\<lambda>_ w. (Inr empty_reconciliation, w)),
      nr_health_snapshot = (\<lambda>w. (Inr [], w)), nr_shutdown = (\<lambda>w. (Inr (), w))\<rparr>"

text \<open>Nothing drops the future of the main task; were one dropped, it would count as cancelled.\<close>

definition awaited :: "('w, 'a) async \<Rightarrow> ('w, 'a) rt_call" where
  "awaited m w =
     (case m w of
        (Ready (Inr x), w) \<Rightarrow> (Inr x, w)
      | (Ready (Inl e), w) \<Rightarrow> (Inl (ree_of_runtime e), w)
      | (Cut, w) \<Rightarrow> (Inl (ree_of_runtime Cancelled), w))"

definition docker_runtime :: "('x, 'f) runtime_libs \<Rightarrow> (string \<Rightarrow> 'x host_world \<Rightarrow> (string, unit) fut \<times> 'x host_world)
    \<Rightarrow> 'x host_world runner \<Rightarrow> DockerRuntimeConfig \<Rightarrow> 'x node_world node_runtime" where
  "docker_runtime L mkdir run config =
     (let X = with_runner L config run
      in \<lparr>nr_preflight = awaited (in_env (preflight_run run mkdir (preflight_of config))),
          nr_recover = (\<lambda>has_factory. awaited (\<lambda>w. case recover X has_factory (fresh w) of (r, d) \<Rightarrow> (r, dw_env d))),
          nr_health_snapshot = awaited (ce_health_snapshot (dx_containers X)),
          nr_shutdown = (\<lambda>w. (Inr (), ce_shutdown (dx_containers X) w))\<rparr>)"

subsection \<open>The run of the agent\<close>

datatype worker = Health_Worker | Heartbeat_Worker | Poller_Worker

datatype agent_act =
    Checked_Host "RuntimePreflightCheck list"
  | Scanned "RuntimeReconciliationReport option"
  | Verified_Health "(nat \<times> nat) option"
  | Spawned_Health string duration
  | Spawned_Heartbeat NodeLifecycle RuntimeReconciliationReport u64
  | Spawned_Poller "ApiClient option" NodeLifecycle
  | Notified_Workers
  | Joined worker
  | Runtime_Shut_Down

text \<open>\<open>ag_docker\<close> is \<^verbatim>\<open>DockerRuntimeExecutor::new\<close>; the rest is the signal, the channel and the tasks.\<close>

record 'w agent_env =
  ag_http :: http_env
  ag_docker :: "DockerRuntimeConfig \<Rightarrow> 'w node_runtime"
  ag_ctrl_c :: "string + unit"
  ag_notify :: "string + unit"
  ag_join :: "worker \<Rightarrow> string + unit"

record 'w agent_world =
  aw_runtime :: 'w
  aw_net :: net
  aw_acts :: "agent_act list"

text \<open>An \<^verbatim>\<open>anyhow::Error\<close> is the list of its contexts, the outermost first.\<close>

type_synonym agent_error = "string list"

definition agent_start :: "'w \<Rightarrow> net \<Rightarrow> 'w agent_world" where
  "agent_start x n = \<lparr>aw_runtime = x, aw_net = n, aw_acts = []\<rparr>"

definition acted :: "agent_act list \<Rightarrow> 'w agent_world \<Rightarrow> 'w agent_world" where
  "acted acts w = w\<lparr>aw_acts := aw_acts w @ acts\<rparr>"

definition from_config :: "http_env \<Rightarrow> AgentConfig \<Rightarrow> CoreError + ApiClient" where
  "from_config E config =
     (case cfg_agent_token config of
        None \<Rightarrow> Inl (InvalidConfiguration ''connected mode requires SAKALA_AGENT_TOKEN'')
      | Some token \<Rightarrow> client_new E (cfg_api_url config) (cfg_agent_id config) token)"

definition agent_client :: "http_env \<Rightarrow> AgentConfig \<Rightarrow> CoreError + ApiClient option" where
  "agent_client E config =
     (case cfg_mode config of
        Local \<Rightarrow> Inr None
      | Connected \<Rightarrow> res_bind (from_config E config) (\<lambda>client. Inr (Some client)))"

definition runtime_of :: "'w agent_env \<Rightarrow> AppConfig \<Rightarrow> 'w node_runtime" where
  "runtime_of A config =
     (case app_runtime_driver config of Noop \<Rightarrow> noop_runtime | Docker \<Rightarrow> ag_docker A (app_docker_runtime config))"

text \<open>A failed scan leaves the shared report at its default. Its reporter factory exists when there is a client.\<close>

definition startup_scan :: "'w node_runtime \<Rightarrow> ApiClient option \<Rightarrow> 'w agent_world \<Rightarrow> RuntimeReconciliationReport \<times> 'w agent_world" where
  "startup_scan R client w =
     (case nr_recover R (client \<noteq> None) (aw_runtime w) of
        (Inr scan, x) \<Rightarrow> (scan, acted [Scanned (Some scan)] (w\<lparr>aw_runtime := x\<rparr>))
      | (Inl e, x) \<Rightarrow> (empty_reconciliation, acted [Scanned None] (w\<lparr>aw_runtime := x\<rparr>)))"

definition startup_health :: "'w node_runtime \<Rightarrow> 'w agent_world \<Rightarrow> 'w agent_world" where
  "startup_health R w =
     (case nr_health_snapshot R (aw_runtime w) of
        (Inr snapshots, x) \<Rightarrow>
          acted [Verified_Health (Some (length snapshots, length (filter (\<lambda>s. \<not> hs_ready s) snapshots)))] (w\<lparr>aw_runtime := x\<rparr>)
      | (Inl e, x) \<Rightarrow> acted [Verified_Health None] (w\<lparr>aw_runtime := x\<rparr>))"

definition desired_lifecycle :: "http_env \<Rightarrow> ApiClient option \<Rightarrow> net \<Rightarrow> (agent_error + NodeLifecycleState) \<times> net" where
  "desired_lifecycle E client n =
     (case client of
        None \<Rightarrow> (Inr Active, n)
      | Some c \<Rightarrow>
          (case node_lifecycle E c n of
             (Inr desired, n) \<Rightarrow> (Inr (lifecycle_from_desired desired), n)
           | (Inl e, n) \<Rightarrow> (Inl [''failed to restore authoritative node lifecycle state'', core_error_text e], n)))"

text \<open>The tail of \<^verbatim>\<open>run\<close>: every step that fails ends it with its context.\<close>

fun agent_steps :: "(string \<times> (string + unit) \<times> agent_act list) list \<Rightarrow> 'w agent_world \<Rightarrow> (agent_error + unit) \<times> 'w agent_world" where
  "agent_steps [] w = (Inr (), w)"
| "agent_steps ((context, Inl e, acts) # steps) w = (Inl [context, e], w)"
| "agent_steps ((context, Inr _, acts) # steps) w = agent_steps steps (acted acts w)"

definition until_stopped :: "'w agent_env \<Rightarrow> (string \<times> (string + unit) \<times> agent_act list) list" where
  "until_stopped A =
     [(''failed to listen for Ctrl+C'', ag_ctrl_c A, []),
      (''failed to notify agent workers of shutdown'', ag_notify A, [Notified_Workers]),
      (''heartbeat worker task failed'', ag_join A Heartbeat_Worker, [Joined Heartbeat_Worker]),
      (''command poller task failed'', ag_join A Poller_Worker, [Joined Poller_Worker]),
      (''runtime health worker task failed'', ag_join A Health_Worker, [Joined Health_Worker])]"

definition agent_shutdown :: "'w node_runtime \<Rightarrow> 'w agent_world \<Rightarrow> (agent_error + unit) \<times> 'w agent_world" where
  "agent_shutdown R w =
     (case nr_shutdown R (aw_runtime w) of
        (Inl e, x) \<Rightarrow> (Inl [''failed to shut down runtime background tasks'', ree_message e], w\<lparr>aw_runtime := x\<rparr>)
      | (Inr _, x) \<Rightarrow> (Inr (), acted [Runtime_Shut_Down] (w\<lparr>aw_runtime := x\<rparr>)))"

definition serve :: "'w agent_env \<Rightarrow> AppConfig \<Rightarrow> ApiClient option \<Rightarrow> 'w node_runtime \<Rightarrow> RuntimeReconciliationReport \<Rightarrow> NodeLifecycle
    \<Rightarrow> 'w agent_world \<Rightarrow> (agent_error + unit) \<times> 'w agent_world" where
  "serve A config client R scan l w =
     (let w = acted [Spawned_Health (cfg_agent_id (app_agent config)) (app_runtime_health_interval config),
                   Spawned_Heartbeat l scan (drc_min_workspace_free_bytes (app_docker_runtime config)),
                   Spawned_Poller client l] w
      in case agent_steps (until_stopped A) w of
           (Inl e, w) \<Rightarrow> (Inl e, w)
         | (Inr _, w) \<Rightarrow> agent_shutdown R w)"

definition run_agent :: "'w agent_env \<Rightarrow> AppConfig \<Rightarrow> 'w agent_world \<Rightarrow> (agent_error + unit) \<times> 'w agent_world" where
  "run_agent A config w =
     (case agent_client (ag_http A) (app_agent config) of
        Inl e \<Rightarrow> (Inl [core_error_text e], w)
      | Inr client \<Rightarrow>
          let R = runtime_of A config
          in case nr_preflight R (aw_runtime w) of
               (Inl e, x) \<Rightarrow> (Inl [''runtime preflight failed'', ree_message e], w\<lparr>aw_runtime := x\<rparr>)
             | (Inr checks, x) \<Rightarrow>
                 let w = acted [Checked_Host checks] (w\<lparr>aw_runtime := x\<rparr>)
                 in if has_fatal_failure checks
                    then (Inl [''runtime preflight found one or more fatal dependency failures''], w)
                    else
                      case startup_scan R client w of
                        (scan, w) \<Rightarrow>
                          let w = startup_health R w
                          in case desired_lifecycle (ag_http A) client (aw_net w) of
                               (Inl e, n) \<Rightarrow> (Inl e, w\<lparr>aw_net := n\<rparr>)
                             | (Inr state, n) \<Rightarrow> serve A config client R scan (lifecycle_with_state state) (w\<lparr>aw_net := n\<rparr>))"

subsection \<open>Order of the steps\<close>

fun is_spawn :: "agent_act \<Rightarrow> bool" where
  "is_spawn (Spawned_Health _ _) = True"
| "is_spawn (Spawned_Heartbeat _ _ _) = True"
| "is_spawn (Spawned_Poller _ _) = True"
| "is_spawn _ = False"

lemma acted_simps [simp]:
  "aw_acts (acted acts w) = aw_acts w @ acts" "aw_net (acted acts w) = aw_net w" "aw_runtime (acted acts w) = aw_runtime w"
  by (simp_all add: acted_def)

definition winding_down :: "agent_act list" where
  "winding_down = [Notified_Workers, Joined Heartbeat_Worker, Joined Poller_Worker, Joined Health_Worker, Runtime_Shut_Down]"

lemma agent_steps_until:
  "\<exists>k \<le> 4. aw_acts (snd (agent_steps (until_stopped A) w)) = aw_acts w @ take k winding_down
     \<and> (is_err (fst (agent_steps (until_stopped A) w)) \<or> k = 4)"
proof -
  show ?thesis
    unfolding until_stopped_def winding_down_def
    apply (cases "ag_ctrl_c A")
     apply (rule exI [of _ 0], simp)
    apply (cases "ag_notify A")
     apply (rule exI [of _ 0], simp)
    apply (cases "ag_join A Heartbeat_Worker")
     apply (rule exI [of _ 1], simp)
    apply (cases "ag_join A Poller_Worker")
     apply (rule exI [of _ 2], simp)
    apply (cases "ag_join A Health_Worker")
     apply (rule exI [of _ 3], simp add: numeral_3_eq_3)
    apply (rule exI [of _ 4], simp add: eval_nat_numeral)
    done
qed

lemma serve_order:
  "\<exists>k. aw_acts (snd (serve A config client R scan l w)) =
       aw_acts w @ [Spawned_Health (cfg_agent_id (app_agent config)) (app_runtime_health_interval config),
         Spawned_Heartbeat l scan (drc_min_workspace_free_bytes (app_docker_runtime config)), Spawned_Poller client l]
       @ take k winding_down
     \<and> (if is_err (fst (serve A config client R scan l w)) then k \<le> 4 else k = 5)"
proof -
  let ?spawned = "[Spawned_Health (cfg_agent_id (app_agent config)) (app_runtime_health_interval config),
       Spawned_Heartbeat l scan (drc_min_workspace_free_bytes (app_docker_runtime config)), Spawned_Poller client l]"
  obtain r w' where steps: "agent_steps (until_stopped A) (acted ?spawned w) = (r, w')" by fastforce
  with agent_steps_until [of A "acted ?spawned w"] obtain k where
    k: "k \<le> 4" "aw_acts w' = aw_acts w @ ?spawned @ take k winding_down" "is_err r \<or> k = 4" by auto
  show ?thesis
  proof (cases r)
    case (Inl e)
    with steps k show ?thesis by (intro exI [of _ k]) (simp add: serve_def Let_def)
  next
    case (Inr u)
    with k have k4: "aw_acts w' = aw_acts w @ ?spawned @ take 4 winding_down" by simp
    obtain q x where shut: "nr_shutdown R (aw_runtime w') = (q, x)" by fastforce
    show ?thesis
    proof (cases q)
      case (Inl e)
      with steps Inr k4 shut show ?thesis
        by (intro exI [of _ 4]) (simp add: serve_def Let_def agent_shutdown_def)
    next
      case inr: (Inr v)
      with steps Inr k4 shut show ?thesis
        by (intro exI [of _ 5]) (simp add: serve_def Let_def agent_shutdown_def winding_down_def)
    qed
  qed
qed

lemma startup_scan_acts:
  "startup_scan R client w = (scan, w') \<Longrightarrow> \<exists>s. aw_acts w' = aw_acts w @ [Scanned s] \<and> aw_net w' = aw_net w"
  by (auto simp: startup_scan_def split: prod.splits sum.splits)

lemma startup_health_acts: "\<exists>h. aw_acts (startup_health R w) = aw_acts w @ [Verified_Health h] \<and> aw_net (startup_health R w) = aw_net w"
  by (auto simp: startup_health_def split: prod.splits sum.splits)

text \<open>C16: the agent starts in order and stops in order. Either it ends with an error before it has started any
  worker; or its preflight reported no fatal failure, the control plane (when it is connected) told the state
  of the node, and the two workers that depend on it were started with that state, after the scan and the
  verification of the workloads. It then stops the workers before the runtime, and it reports success only
  when all of that was done.\<close>

theorem agent_starts_and_stops_in_order:
  "case run_agent A config (agent_start x n) of (r, w) \<Rightarrow>
     (is_err r \<and> list_all (\<lambda>a. \<not> is_spawn a) (aw_acts w))
   \<or> (\<exists>client checks state s h scan k.
        agent_client (ag_http A) (app_agent config) = Inr client
      \<and> fst (nr_preflight (runtime_of A config) x) = Inr checks \<and> \<not> has_fatal_failure checks
      \<and> fst (desired_lifecycle (ag_http A) client n) = Inr state
      \<and> aw_acts w = [Checked_Host checks, Scanned s, Verified_Health h,
           Spawned_Health (cfg_agent_id (app_agent config)) (app_runtime_health_interval config),
           Spawned_Heartbeat (lifecycle_with_state state) scan (drc_min_workspace_free_bytes (app_docker_runtime config)),
           Spawned_Poller client (lifecycle_with_state state)] @ take k winding_down
      \<and> (if is_err r then k \<le> 4 else k = 5))"
proof (cases "agent_client (ag_http A) (app_agent config)")
  case (Inl e)
  then show ?thesis by (simp add: run_agent_def agent_start_def)
next
  case client: (Inr client)
  let ?R = "runtime_of A config"
  obtain r x' where pre: "nr_preflight ?R x = (r, x')" by fastforce
  show ?thesis
  proof (cases r)
    case (Inl e)
    with client pre show ?thesis by (simp add: run_agent_def agent_start_def Let_def)
  next
    case checks: (Inr checks)
    let ?w = "acted [Checked_Host checks] ((agent_start x n)\<lparr>aw_runtime := x'\<rparr>)"
    show ?thesis
    proof (cases "has_fatal_failure checks")
      case True
      with client pre checks show ?thesis by (simp add: run_agent_def agent_start_def Let_def)
    next
      case ok: False
      obtain scan w1 where scan: "startup_scan ?R client ?w = (scan, w1)" by fastforce
      from startup_scan_acts [OF scan] obtain s where w1: "aw_acts w1 = [Checked_Host checks, Scanned s]" "aw_net w1 = n"
        by (auto simp: agent_start_def)
      obtain h where w2: "aw_acts (startup_health ?R w1) = [Checked_Host checks, Scanned s, Verified_Health h]"
          "aw_net (startup_health ?R w1) = n"
        using startup_health_acts [of ?R w1] w1 by auto
      obtain d n' where life: "desired_lifecycle (ag_http A) client n = (d, n')" by fastforce
      have run: "run_agent A config (agent_start x n) =
          (case d of Inl e \<Rightarrow> (Inl e, (startup_health ?R w1)\<lparr>aw_net := n'\<rparr>)
           | Inr state \<Rightarrow> serve A config client ?R scan (lifecycle_with_state state) ((startup_health ?R w1)\<lparr>aw_net := n'\<rparr>))"
        using client pre checks ok scan life w2 by (simp add: run_agent_def Let_def agent_start_def)
      show ?thesis
      proof (cases d)
        case (Inl e)
        with run w2 show ?thesis by simp
      next
        case (Inr state)
        with serve_order [of A config client ?R scan "lifecycle_with_state state" "(startup_health ?R w1)\<lparr>aw_net := n'\<rparr>"] w2
        obtain k where "aw_acts (snd (run_agent A config (agent_start x n))) = [Checked_Host checks, Scanned s, Verified_Health h,
             Spawned_Health (cfg_agent_id (app_agent config)) (app_runtime_health_interval config),
             Spawned_Heartbeat (lifecycle_with_state state) scan (drc_min_workspace_free_bytes (app_docker_runtime config)),
             Spawned_Poller client (lifecycle_with_state state)] @ take k winding_down"
          "if is_err (fst (run_agent A config (agent_start x n))) then k \<le> 4 else k = 5"
          by (auto simp: run)
        moreover have "fst (nr_preflight ?R x) = Inr checks" "fst (desired_lifecycle (ag_http A) client n) = Inr state"
          using pre checks life Inr by simp_all
        ultimately show ?thesis using client ok by (auto simp: case_prod_beta)
      qed
    qed
  qed
qed

subsection \<open>A host that is not ready\<close>

lemma agent_refuses:
  assumes "case fst (nr_preflight (runtime_of A config) x) of Inr checks \<Rightarrow> has_fatal_failure checks | Inl _ \<Rightarrow> True"
  shows "case run_agent A config (agent_start x n) of (r, w) \<Rightarrow> is_err r \<and> list_all (\<lambda>a. \<not> is_spawn a) (aw_acts w) \<and> aw_net w = n"
  using assms
  by (cases "nr_preflight (runtime_of A config) x"; cases "agent_client (ag_http A) (app_agent config)")
    (auto simp: run_agent_def agent_start_def Let_def split: sum.splits)

definition reports_failure :: "(RuntimeError, RuntimePreflightCheck list) fut \<Rightarrow> 'w \<Rightarrow> bool" where
  "reports_failure r w = (case r of Ready (Inr checks) \<Rightarrow> has_fatal_failure checks | _ \<Rightarrow> True)"

lemma wp_command_check:
  assumes "never_succeeds run c"
  shows "wp (command_check run name c) (\<lambda>r w. case r of Ready (Inr check) \<Rightarrow> pc_fatal check \<and> \<not> pc_ready check | _ \<Rightarrow> True) w"
  using assms [unfolded never_succeeds_def, rule_format, of w]
  by (cases "run c null_sink w" rule: fut_cases) (simp_all add: command_check_def wp_def abind_def atry_def)

lemma has_fatal_failure_Cons: "has_fatal_failure (c # cs) \<longleftrightarrow> pc_fatal c \<and> \<not> pc_ready c \<or> has_fatal_failure cs"
  by (simp add: has_fatal_failure_def)

lemma wp_command_checks:
  assumes "never_succeeds run c" "(name, c) \<in> set cs"
  shows "wp (command_checks run cs) reports_failure w"
  using assms(2)
proof (induction cs arbitrary: w)
  case (Cons d cs)
  obtain name' c' where d: "d = (name', c')" by fastforce
  show ?case
  proof (cases "c' = c")
    case True
    have after: "wp (abind (command_checks run cs) (\<lambda>rest. aret (check # rest))) reports_failure w"
      if "pc_fatal check \<and> \<not> pc_ready check" for check w
      using that by (intro wp_abind_any) (simp_all add: reports_failure_def has_fatal_failure_Cons)
    show ?thesis
      unfolding d True command_checks.simps wp_abind [of "command_check run name' c"]
      by (rule wp_mono [OF wp_command_check [OF assms(1)]])
        (auto simp: reports_failure_def simp del: wp_abind intro!: wp_then_cases after)
  next
    case False
    with Cons have ih: "wp (command_checks run cs) reports_failure w" for w by (auto simp: d)
    have "wp (abind (command_checks run cs) (\<lambda>rest. aret (check # rest))) reports_failure w" for check w
      unfolding wp_abind
      by (rule wp_mono [OF ih]) (auto simp: reports_failure_def has_fatal_failure_Cons intro!: wp_then_cases)
    then show ?thesis
      unfolding d command_checks.simps by (rule wp_abind_any) (simp_all add: reports_failure_def del: wp_abind)
  qed
qed simp

lemma has_fatal_failure_append: "has_fatal_failure (cs @ ds) \<longleftrightarrow> has_fatal_failure cs \<or> has_fatal_failure ds"
  by (simp add: has_fatal_failure_def)

lemma wp_preflight_run:
  assumes "never_succeeds run c" "(name, c) \<in> set (preflight_commands P)"
  shows "wp (preflight_run run mkdir P) reports_failure w"
proof -
  have "wp (abind (directory_check mkdir a p f) (\<lambda>x. abind (directory_check mkdir a' p' f') (\<lambda>y. aret (checks @ [x, y])))) reports_failure w"
    if "has_fatal_failure checks" for checks w a p f a' p' f'
    using that by (intro wp_abind_any) (simp_all add: reports_failure_def has_fatal_failure_append)
  then show ?thesis
    unfolding preflight_run_def wp_abind
    by (intro wp_mono [OF wp_command_checks [OF assms]] wp_then_cases) (auto simp: reports_failure_def)
qed


definition demo_app_config :: AppConfig where
  "demo_app_config =
     \<lparr>app_agent =
        \<lparr>cfg_mode = Local, cfg_agent_id = ''agent-1'', cfg_agent_token = None, cfg_api_url = ''http://localhost'',
         cfg_poll_interval_seconds = 5, cfg_heartbeat_interval_seconds = 15, cfg_command_timeout_seconds = 900,
         cfg_max_concurrent_commands = 2, cfg_shutdown_grace_seconds = 30, cfg_runtime_network = ''sakala-runtime'', cfg_capabilities = []\<rparr>,
      app_runtime_driver = Docker, app_docker_runtime = demo_config, app_runtime_health_interval = from_secs 30, app_log_level = ''info''\<rparr>"

definition demo_agent :: "unit node_world agent_env" where
  "demo_agent =
     \<lparr>ag_http = flaky_env, ag_docker = docker_runtime demo_libs (\<lambda>_ w. (Ready (Inr ()), w)) down, ag_ctrl_c = Inr (),
      ag_notify = Inr (), ag_join = (\<lambda>_. Inr ())\<rparr>"


end
