(* ===== verification/Command_Outcome.thy ===== *)
theory Command_Outcome
  imports Serving Processor Agent
begin

text \<open>
  A deployment command from end to end: the processor, the dispatcher, the Docker executor over the real services,
  Caddy's route files and the reports to the control plane in one world. The methods of the executor are the trait
  implementation of \<^verbatim>\<open>executor/docker.rs\<close>; what the control plane is told at the end is compared with what the node
  serves.

  The network and the reporter of a command are what the host's programs run on (\<open>hw_env\<close>), so the calls the runtime
  makes to its reporter change the state the processor looks at.
\<close>

subsection \<open>Services that leave the reporter alone\<close>

text \<open>A program may write lines to its sink; it has no other way to the reporter.\<close>

definition quiet_runner :: "('w \<Rightarrow> 'v) \<Rightarrow> 'w runner \<Rightarrow> bool" where
  "quiet_runner view run \<longleftrightarrow> (\<forall>c sink. (\<forall>stream line. quietly view (sink stream line)) \<longrightarrow> quietly view (run c sink))"

lemma quietly_wp: "quietly view m \<longleftrightarrow> (\<forall>w. wp m (\<lambda>_ w'. view w' = view w) w)"
  by (simp add: quietly_def wp_def split_def)

lemma quietly_from: "quietly view m \<Longrightarrow> view w = v \<Longrightarrow> wp m (\<lambda>_ w'. view w' = v) w"
  unfolding quietly_wp by blast

lemma quietly_abind:
  assumes "quietly view m" "\<And>x. quietly view (f x)"
  shows "quietly view (abind m f)"
  unfolding quietly_wp
proof
  fix w
  show "wp (abind m f) (\<lambda>_ w'. view w' = view w) w"
    unfolding wp_abind
    by (rule wp_mono [OF quietly_from [OF assms(1) refl]], rule wp_then_cases) (simp_all add: quietly_from [OF assms(2)])
qed

lemma quietly_atry: "quietly view m \<Longrightarrow> quietly view (atry m)"
  unfolding quietly_wp wp_atry
  by (intro allI, rule wp_mono, blast, rename_tac r w', case_tac r) simp_all

lemma quietly_values: "quietly view (aret x)" "quietly view (athrow e)" "quietly view (alift r)" "quietly view (Pair s)"
  by (cases r; simp add: quietly_def aret_def athrow_def alift_def)+

lemma quietly_case:
  "(\<And>x. quietly view (f x)) \<Longrightarrow> (\<And>e. quietly view (g e)) \<Longrightarrow> quietly view (case r of Inl e \<Rightarrow> g e | Inr x \<Rightarrow> f x)"
  "quietly view m \<Longrightarrow> (\<And>x. quietly view (f x)) \<Longrightarrow> quietly view (case v of None \<Rightarrow> m | Some x \<Rightarrow> f x)"
  by (simp_all split: sum.split option.split)

lemma quietly_if: "quietly view m \<Longrightarrow> quietly view n \<Longrightarrow> quietly view (if c then m else n)"
  by simp

lemmas quietly_rules = quietly_abind quietly_atry quietly_values quietly_case quietly_if

lemma quietly_hio:
  assumes "\<And>w. view (snd (m w)) = view w"
  shows "quietly view (hio_try m)" "quietly view (hio_found m)"
proof -
  have "view (snd (hio_try m w)) = view w" "view (snd (hio_found m w)) = view w" for w
    using assms [of w] by (auto simp: hio_try_def hio_found_def split: prod.splits fut.splits sum.splits io_error.splits)
  then show "quietly view (hio_try m)" "quietly view (hio_found m)" by (simp_all add: quietly_def)
qed

lemma host_step_env: "hw_env (snd (host_step H work part w)) = hw_env w"
  by (simp add: host_step_def Let_def split: host_fault.split sum.split prod.split)

lemma host_ops_env:
  "hw_env (snd (fs_remove_dir_all H p w)) = hw_env w" "hw_env (snd (host_create_dir_all H p w)) = hw_env w"
  "hw_env (snd (fs_try_exists H p w)) = hw_env w" "hw_env (snd (fs_set_permissions H p mode w)) = hw_env w"
  "hw_env (snd (host_write H p c w)) = hw_env w" "hw_env (snd (fs_create_new H p mode w)) = hw_env w"
  "hw_env (snd (fs_write_all H p c w)) = hw_env w" "hw_env (snd (fs_flush H w)) = hw_env w"
  "hw_env (snd (host_remove_file H p w)) = hw_env w"
  by (simp_all add: fs_remove_dir_all_def host_create_dir_all_def fs_try_exists_def fs_set_permissions_def host_write_def
      fs_create_new_def fs_write_all_def fs_flush_def host_remove_file_def host_step_env)

lemma io_ops_env:
  "rw_env (snd (fs_create_dir_all E w)) = rw_env w" "rw_env (snd (fs_read E n w)) = rw_env w"
  "rw_env (snd (fs_write E n c w)) = rw_env w" "rw_env (snd (fs_rename E a b w)) = rw_env w"
  "rw_env (snd (fs_remove_file E n w)) = rw_env w"
proof -
  have "rw_env (snd (io_step E work spoil w)) = rw_env w" for work :: "dir option \<Rightarrow> io_error + 'c \<times> dir option" and spoil
    by (simp add: io_step_def Let_def split: io_fault.split sum.split prod.split option.split)
  then show "rw_env (snd (fs_create_dir_all E w)) = rw_env w" "rw_env (snd (fs_read E n w)) = rw_env w"
    "rw_env (snd (fs_write E n c w)) = rw_env w" "rw_env (snd (fs_rename E a b w)) = rw_env w"
    "rw_env (snd (fs_remove_file E n w)) = rw_env w"
    by (simp_all add: fs_create_dir_all_def fs_read_def fs_write_def fs_rename_def fs_remove_file_def)
qed

lemma quietly_io:
  assumes "\<And>w. rw_env (snd (m w)) = rw_env w"
  shows "quietly (\<lambda>w. view (rw_env w)) (io_try m)" "quietly (\<lambda>w. view (rw_env w)) (io_found m)"
proof -
  have "rw_env (snd (io_try m w)) = rw_env w" "rw_env (snd (io_found m w)) = rw_env w" for w
    using assms [of w] by (auto simp: io_try_def io_found_def split: prod.splits fut.splits sum.splits io_error.splits)
  then show "quietly (\<lambda>w. view (rw_env w)) (io_try m)" "quietly (\<lambda>w. view (rw_env w)) (io_found m)" by (simp_all add: quietly_def)
qed

lemma quietly_lift: "quietly view m \<Longrightarrow> quietly (\<lambda>w. view (rw_env w)) (in_env m)"
  by (simp add: quietly_def in_env_def split_def)

subsection \<open>The services of the Docker executor\<close>

lemma sink_frames_quiet:
  assumes "\<And>ln w. view (snd (rep_log R ln w)) = view w"
  shows "view (snd (sink_frames R phase stream fs w)) = view w"
proof (induction fs arbitrary: w)
  case (Cons f fs)
  let ?l = "\<lparr>log_stream = stream, log_message = ''['' @ phase @ ''] '' @ trim_end f, log_recorded_at = rep_now R w\<rparr>"
  from assms [of ?l w] Cons show ?case
    by (cases "rep_log R ?l w" rule: fut_cases) (simp_all add: Let_def)
qed simp

lemma quietly_checked:
  assumes "quiet_runner view run" "\<And>ln w. view (snd (rep_log R ln w)) = view w"
  shows "quietly view (run_checked run command phase R)" "quietly view (run command null_sink)" "quietly view (docker_output run command what)"
proof -
  have "quietly view (reporter_sink R phase stream line)" for stream line
    using sink_frames_quiet [of view R, OF assms(2)] by (simp add: quietly_def reporter_sink_def)
  with assms(1) have r: "quietly view (run command (reporter_sink R phase))" by (simp add: quiet_runner_def)
  from assms(1) show n: "quietly view (run command null_sink)"
    by (simp add: quiet_runner_def quietly_def null_sink_def aret_def)
  show "quietly view (run_checked run command phase R)" "quietly view (docker_output run command what)"
    unfolding run_checked_def docker_output_def by (intro quietly_rules r n)+
qed

lemma quietly_workspace:
  fixes f :: "'x \<Rightarrow> 'v"
  defines "view \<equiv> \<lambda>w :: 'x host_world. f (hw_env w)"
  assumes "quiet_runner view run" "\<And>ln w. view (snd (rep_log R ln w)) = view w"
  shows "quietly view (available_disk_bytes root run)" "quietly view (workspace_cleanup H ws)"
    "quietly view (checkout H root run R command_id src)"
proof -
  note run = quietly_checked [OF assms(2), OF assms(3)]
  have io: "quietly view (hio_try m)" "quietly view (hio_found m)" if "\<And>w. hw_env (snd (m w)) = hw_env w" for m :: "('x, 'a) hio"
    using that by (intro quietly_hio; simp add: view_def)+
  show "quietly view (available_disk_bytes root run)"
    unfolding available_disk_bytes_def by (intro quietly_rules run)
  show c: "quietly view (workspace_cleanup H ws)" for ws
    unfolding workspace_cleanup_def by (intro quietly_rules io host_ops_env)
  have "quietly view (git_steps run R ws src askpass)" for ws askpass
    unfolding git_steps_def by (intro quietly_rules run)
  moreover have "quietly view (prepare_workspace H ws src)" for ws
    unfolding prepare_workspace_def restrict_workspace_permissions_def write_askpass_def
    by (intro quietly_rules io host_ops_env)
  ultimately show "quietly view (checkout H root run R command_id src)"
    unfolding checkout_def Let_def by (intro quietly_rules io host_ops_env c)
qed

lemma quietly_containers:
  fixes f :: "'x \<Rightarrow> 'v"
  defines "view \<equiv> \<lambda>w :: 'x host_world. f (hw_env w)"
  assumes "quiet_runner view run" "\<And>ln w. view (snd (rep_log R ln w)) = view w"
  shows "quietly view (ensure_capacity H D run project_id)" "quietly view (start H D run R q)"
    "quietly view (report_startup_logs run R container)" "quietly view (cleanup_previous H run R project_id current)"
    "quietly view (cleanup_candidate run container img)"
    "view (snd (start_log_follower container command_id bounds w)) = view w"
proof -
  note run = quietly_checked [OF assms(2), OF assms(3)]
  have io: "quietly view (hio_try m)" "quietly view (hio_found m)" if "\<And>w. hw_env (snd (m w)) = hw_env w" for m :: "('x, 'a) hio"
    using that by (intro quietly_hio; simp add: view_def)+
  show "quietly view (ensure_capacity H D run project_id)"
    unfolding ensure_capacity_def Let_def by (intro quietly_rules run)
  have "quietly view (write_entries H path es)" for path es
    by (induction es) (auto intro!: quietly_rules io host_ops_env)
  then have "quietly view (write_env_file H ws es)" for ws es
    unfolding write_env_file_def Let_def by (intro quietly_rules io host_ops_env)
  then show "quietly view (start H D run R q)"
    unfolding start_def by (intro quietly_rules run io host_ops_env)
  show "quietly view (report_startup_logs run R container)"
    unfolding report_startup_logs_def by (intro quietly_rules run)
  have "quietly view (cleanup_containers run R current ids)" for ids
    by (induction ids) (auto intro!: quietly_rules run)
  then show "quietly view (cleanup_previous H run R project_id current)"
    unfolding cleanup_previous_def by (intro quietly_rules run)
  have "quietly view (cleanup_artifacts run artifacts failures)" for artifacts failures
    by (induction artifacts arbitrary: failures) (auto intro!: quietly_rules run)
  then show "quietly view (cleanup_candidate run container img)"
    unfolding cleanup_candidate_def by (intro quietly_rules run)
  show "view (snd (start_log_follower container command_id bounds w)) = view w"
    by (simp add: view_def start_log_follower_def Let_def)
qed

lemma quietly_build:
  fixes f :: "'x \<Rightarrow> 'v"
  defines "view \<equiv> \<lambda>w :: 'x host_world. f (hw_env w)"
  assumes "quiet_runner view run" "\<And>ln w. view (snd (rep_log R ln w)) = view w"
  shows "quietly view (build H frontend run R q)" "quietly view (wait_until_ready dbg dropped attempts run container)"
proof -
  note run = quietly_checked [OF assms(2), OF assms(3)]
  have io: "quietly view (hio_try m)" if "\<And>w. hw_env (snd (m w)) = hw_env w" for m :: "('x, 'a) hio"
    using that by (intro quietly_hio; simp add: view_def)+
  have "quietly view (run_builder H frontend run R q b)" for b
    by (cases b) (auto simp: Let_def intro!: quietly_rules run)
  then show "quietly view (build H frontend run R q)"
    unfolding build_def by (intro quietly_rules io host_ops_env)
  have sleep: "quietly view (sleep_step dropped)"
    by (simp add: quietly_def sleep_step_def)
  have "quietly view (wait_attempts dbg dropped run container n)" for n
    by (induction n) (auto simp: Let_def intro!: quietly_rules run sleep)
  then show "quietly view (wait_until_ready dbg dropped attempts run container)"
    unfolding wait_until_ready_def .
qed

lemma quietly_activate:
  assumes "quiet_runner view run" "\<And>ln w. view (snd (rep_log R ln w)) = view w"
  shows "quietly (\<lambda>w. view (rw_env w)) (activate E (docker_exec_reloader run container R) r)"
proof -
  note run = quietly_checked [OF assms(1), OF assms(2)]
  have reload: "quietly view (rl_validate_and_reload (docker_exec_reloader run container R))"
    "quietly view (rl_reload_after_rollback (docker_exec_reloader run container R))"
    unfolding docker_exec_reloader_def by (simp, intro quietly_rules run)+
  have "quietly (\<lambda>w. view (rw_env w)) (write_route E r)"
    unfolding write_route_def by (intro quietly_rules quietly_io io_ops_env)
  moreover have "quietly (\<lambda>w. view (rw_env w)) (restore E s)" for s
    unfolding restore_def by (intro quietly_rules quietly_io io_ops_env)
  ultimately show ?thesis
    unfolding activate_def reload_or_restore_def by (intro quietly_rules quietly_lift reload)
qed

subsection \<open>The contract\<close>

text \<open>The cutover changes what is served and marks the command as committed, with nothing between the two.\<close>

definition reported :: "('w \<Rightarrow> 'v \<times> bool) \<Rightarrow> 'v \<Rightarrow> 'v \<Rightarrow> 'w dworld \<Rightarrow> bool" where
  "reported view old new w \<longleftrightarrow>
     (if (S_Activate, Finished) \<in> set (dw_calls w) then view (dw_env w) = (new, True)
      else if (S_Activate, Dropped_Midway) \<in> set (dw_calls w) then view (dw_env w) = (old, False) \<or> view (dw_env w) = (new, False)
      else view (dw_env w) = (old, False))"

lemma steady_reported: "steady view (reported view old new)"
  by (simp add: steady_def reported_def)

lemma untouched_reported: "untouched view (old, False) w \<Longrightarrow> reported view old new w"
  by (force simp: untouched_def reported_def attempted_def)

locale committing_executor = quiet_services X R "\<lambda>w. (served w, committed w)"
  for X :: "'w docker_executor" and R :: "'w reporter" and served :: "'w \<Rightarrow> uuid \<Rightarrow> 'c" and committed :: "'w \<Rightarrow> bool" +
  fixes content :: "RouteSpec \<Rightarrow> 'c"
  assumes activates:
      "rm_activate (dx_routes X) r w = (outcome, w') \<Longrightarrow>
         activation (served w) ((served w)(rs_project_id r := content r)) outcome (served w') \<and> committed w' = committed w"
    and commits: "served (rep_commit R out w) = served w \<and> committed (rep_commit R out w)"
begin

abbreviation view :: "'w \<Rightarrow> (uuid \<Rightarrow> 'c) \<times> bool" where
  "view w \<equiv> (served w, committed w)"

lemma leads_cutover:
  assumes "keeps (reported view old (old(rs_project_id r := content r))) m"
  shows "leads (untouched view (old, False)) (reported view old (old(rs_project_id r := content r)))
    (abind (call S_Activate (rm_activate (dx_routes X) r)) (\<lambda>_.
     abind (modify (\<lambda>w. w\<lparr>dw_route_activated := True\<rparr>)) (\<lambda>_.
     abind (call_sync S_Commit (\<lambda>x. ((), rep_commit R out x))) (\<lambda>_. m))))"
  unfolding leads_def
proof (intro allI impI)
  let ?P = "reported view old (old(rs_project_id r := content r))"
  let ?rest = "abind (modify (\<lambda>w. w\<lparr>dw_route_activated := True\<rparr>)) (\<lambda>_.
     abind (call_sync S_Commit (\<lambda>x. ((), rep_commit R out x))) (\<lambda>_. m))"
  fix w assume w: "untouched view (old, False) w"
  obtain outcome x where a: "rm_activate (dx_routes X) r (dw_env w) = (outcome, x)" by fastforce
  have none: "(S_Activate, e) \<notin> set (dw_calls w)" for e using w by (force simp: untouched_def attempted_def)
  from activates [OF a] w have post: "activation old (old(rs_project_id r := content r)) outcome (served x)" "\<not> committed x"
    by (simp_all add: untouched_def)
  let ?w1 = "logged S_Activate (ending_of outcome) x w"
  have step: "call S_Activate (rm_activate (dx_routes X) r) w = (outcome, ?w1)" by (simp add: call_def a)
  show "wp (abind (call S_Activate (rm_activate (dx_routes X) r)) (\<lambda>_. ?rest)) (\<lambda>_. ?P) w"
  proof (cases "(outcome, x)" rule: fut_cases)
    case (ok u)
    let ?w2 = "?w1\<lparr>dw_route_activated := True\<rparr>"
    let ?w3 = "logged S_Commit Finished (rep_commit R out x) ?w2"
    have "?P ?w3" using ok post commits [of out x] by (simp add: reported_def)
    then have "wp m (\<lambda>_. ?P) ?w3" using assms by (simp add: keeps_def)
    then show ?thesis using ok step by (simp add: wp_def modify_def call_sync_def)
  next
    case (err e)
    then show ?thesis using step post none by (simp add: wp_def reported_def)
  next
    case cut
    then show ?thesis using step post none by (auto simp: wp_def reported_def)
  qed
qed

lemma leads_commit_steps:
  assumes "container = container_name (dx_uuid_str X) (dpq_project_id q) (dpq_deployment_id q)"
  shows "leads (untouched view (old, False)) (reported view old (old(dpq_project_id q := content (route_of (dx_uuid_str X) q))))
    (deploy_steps X R q ws img container applied timeouts)"
proof -
  note cutover = leads_cutover [where r = "route_of (dx_uuid_str X) q" and old = old]
  have route: "\<lparr>rs_project_id = dpq_project_id q, rs_deployment_id = dpq_deployment_id q, rs_domain = dp_domain (dpq_payload q),
      rs_upstream = container, rs_port = dp_container_port (dpq_payload q)\<rparr> = route_of (dx_uuid_str X) q"
    "rs_project_id (route_of (dx_uuid_str X) q) = dpq_project_id q"
    by (simp_all add: route_of_def assms)
  show ?thesis
    unfolding deploy_steps_def route
    by (rule cutover [unfolded route] leads_abind keeps_rules keeps_services keeps_candidate keeps_finalize
        | simp add: untouched_reported steady_reported)+
qed

lemma deployment_reports:
  assumes "\<not> committed x"
  shows "case run_deployment X R q (fresh x) of (r, w) \<Rightarrow>
     reported view (served x) ((served x)(dpq_project_id q := content (route_of (dx_uuid_str X) q))) w"
proof -
  let ?P = "reported view (served x) ((served x)(dpq_project_id q := content (route_of (dx_uuid_str X) q)))"
  have "leads (untouched view (served x, False)) ?P (deployment_steps X R q)"
    by (rule leads_deployment [OF leads_commit_steps]) (simp_all add: untouched_reported steady_reported)
  moreover have "untouched view (served x, False) (fresh x)" using assms by (simp add: untouched_def fresh_def attempted_def)
  ultimately have "wp (deployment_steps X R q) (\<lambda>_. ?P) (fresh x)" by (simp add: leads_def)
  then show ?thesis by (auto simp: run_deployment_def wp_def drop_owned_def reported_def split: prod.splits)
qed

end

subsection \<open>The node and its reporter\<close>

text \<open>What the agent and the programs it starts share: the network and the reporter of the command, which only the
  agent has, and the state \<open>'d\<close> of the operating system and of docker, which only they have. Beside it there are the
  files of the host.\<close>

record 'd agent_memory =
  am_net :: net
  am_rep :: ReporterState
  am_os :: 'd

type_synonym 'd command_world = "'d agent_memory node_world"

record 'd os =
  os_spawn :: "CommandSpec \<Rightarrow> files \<times> 'd \<Rightarrow> (string + child) \<times> files \<times> 'd"
  os_killpg :: "u32 \<Rightarrow> files \<times> 'd \<Rightarrow> files \<times> 'd"

definition outside :: "'d agent_memory host_world \<Rightarrow> files \<times> 'd \<Rightarrow> 'd agent_memory host_world" where
  "outside w fd = w\<lparr>hw_files := fst fd, hw_env := (hw_env w)\<lparr>am_os := snd fd\<rparr>\<rparr>"

definition host_of :: "'d os \<Rightarrow> 'd agent_memory host_world host" where
  "host_of sys =
     \<lparr>ho_spawn = (\<lambda>c w. case os_spawn sys c (hw_files w, am_os (hw_env w)) of (r, fd) \<Rightarrow> (r, outside w fd)),
      ho_killpg = (\<lambda>pid w. outside w (os_killpg sys pid (hw_files w, am_os (hw_env w))))\<rparr>"

text \<open>The reporter of a command as the runtime gets it. \<open>drops\<close> says of a call whether its future is dropped, before or
  after its work; a panic of the redactor drops it, too.\<close>

definition reporting :: "(net \<Rightarrow> bool option) \<Rightarrow> (ReporterState \<Rightarrow> net \<Rightarrow> ((RuntimeExecutionError + unit) \<times> ReporterState \<times> net) rust)
    \<Rightarrow> 'd agent_memory host_world \<Rightarrow> (RuntimeExecutionError, unit) fut \<times> 'd agent_memory host_world" where
  "reporting drops f w =
     (let m = hw_env w
      in case f (am_rep m) (am_net m) of
           Panic \<Rightarrow> (Cut, w)
         | Ret (res, rep, n) \<Rightarrow>
             let w' = w\<lparr>hw_env := m\<lparr>am_rep := rep, am_net := n\<rparr>\<rparr>
             in case drops (am_net m) of
                  None \<Rightarrow> (Ready res, w')
                | Some done \<Rightarrow> (Cut, if done then w' else w))"

definition control_reporter :: "http_env \<Rightarrow> ReporterInner \<Rightarrow> (net \<Rightarrow> bool option) \<Rightarrow> 'd agent_memory host_world reporter" where
  "control_reporter E r drops =
     \<lparr>rep_event = (\<lambda>ev. reporting drops (\<lambda>rep n. case reporter_event E r ev n of (res, n) \<Rightarrow> Ret (res, rep, n))),
      rep_log = (\<lambda>line. reporting drops (reporter_log E r line)),
      rep_commit = (\<lambda>output w. w\<lparr>hw_env := (hw_env w)\<lparr>am_rep := mark_deployment_committed output (am_rep (hw_env w))\<rparr>\<rparr>),
      rep_now = hw_now\<rparr>"

text \<open>The libraries of a node with this reporter. Waiting for the build permit or the admission lock may be dropped.\<close>

definition connected :: "http_env \<Rightarrow> ReporterInner \<Rightarrow> (net \<Rightarrow> bool option) \<Rightarrow> ('d agent_memory host_world \<Rightarrow> bool)
    \<Rightarrow> ('d agent_memory, 'f) runtime_libs \<Rightarrow> ('d agent_memory, 'f) runtime_libs" where
  "connected E r drops dropped L =
     L\<lparr>lib_reporter := control_reporter E r drops, lib_acquire_build := sleep_step dropped, lib_lock_admission := sleep_step dropped\<rparr>"

definition committed_view :: "'d agent_memory \<Rightarrow> bool" where
  "committed_view m = deployment_committed (am_rep m)"

lemma outside_env [simp]: "committed_view (hw_env (outside w fd)) = committed_view (hw_env w)"
  by (simp add: outside_def committed_view_def)

lemma read_loop_view:
  assumes "\<And>stream line. quietly view (sink stream line)"
  shows "view (snd (snd (read_loop c t sink evs p w))) = view w"
proof -
  have wait: "snd (snd (wait_child c t evs p w)) = w" for evs p and w :: 'a
    by (induction c t evs p w rule: wait_child.induct) simp_all
  show ?thesis
  proof (induction evs arbitrary: p w)
    case (Cons ev evs)
    show ?case
    proof (cases ev)
      case (PLine s l)
      consider e where "l = Inl e" | "l = Inr None" | line where "l = Inr (Some line)" by (metis option.exhaust sum.exhaust)
      then show ?thesis
      proof cases
        case (3 line)
        from quietlyD [OF assms, of s line w] show ?thesis
          by (cases "sink s line w" rule: fut_cases) (use PLine 3 wait Cons in simp_all)
      qed (use PLine Cons wait in simp_all)
    next
      case PDeadline
      with Cons wait show ?thesis by (cases t) simp_all
    qed (use Cons wait in simp_all)
  qed simp
qed

lemma tokio_quiet:
  assumes "\<And>c w. view (snd (ho_spawn H c w)) = view w" "\<And>pid w. view (ho_killpg H pid w) = view w"
  shows "quiet_runner view (tokio_run H d)"
proof -
  have kill: "view (fold (ho_killpg H) pids w) = view w" for pids w
    by (induction pids arbitrary: w) (simp_all add: assms(2))
  have "view (snd (snd (run_child d c sink ch w))) = view w" if "\<And>stream line. quietly view (sink stream line)" for c sink ch w
    using read_loop_view [of view, OF that] by (simp add: run_child_def Let_def)
  then show ?thesis
    using assms(1) unfolding quiet_runner_def quietly_def tokio_run_def
    by (auto simp: kill split: prod.splits sum.splits) (metis snd_conv)+
qed

text \<open>The reporter changes the flag through \<^verbatim>\<open>mark_deployment_committed\<close> only.\<close>

lemma reporter_log_commit:
  assumes "reporter_log E r line s n = Ret (res, s', n')"
  shows "deployment_committed s' = deployment_committed s"
proof -
  from assms obtain a st where a: "accept_log r line (rs_state s) = Ret (a, st)"
    by (auto simp: reporter_log_def rust_bind_Ret)
  show ?thesis
  proof (cases a)
    case (Queued flush_now)
    obtain fres fst' fn where f: "flush_pending E r st n = (fres, fst', fn)" by (rule prod_cases3)
    show ?thesis
      using assms a Queued f
      by (cases flush_now) (auto simp: reporter_log_def deployment_committed_def schedule_flush_def Let_def split: if_splits)
  qed (use assms a in \<open>auto simp: reporter_log_def deployment_committed_def Let_def\<close>)
qed

lemma reporting_commit:
  assumes "\<And>rep n res rep' n'. f rep n = Ret (res, rep', n') \<Longrightarrow> deployment_committed rep' = deployment_committed rep"
  shows "committed_view (hw_env (snd (reporting drops f w))) = committed_view (hw_env w)"
  using assms
  by (auto simp: reporting_def committed_view_def Let_def split: rust.splits prod.splits option.splits)

lemma control_reporter_commit:
  "committed_view (hw_env (snd (rep_event (control_reporter E r drops) ev w))) = committed_view (hw_env w)"
  "committed_view (hw_env (snd (rep_log (control_reporter E r drops) line w))) = committed_view (hw_env w)"
  "committed_view (hw_env (rep_commit (control_reporter E r drops) out w))"
proof -
  show "committed_view (hw_env (snd (rep_event (control_reporter E r drops) ev w))) = committed_view (hw_env w)"
    unfolding control_reporter_def reporter.simps by (rule reporting_commit) (auto split: prod.splits)
  show "committed_view (hw_env (snd (rep_log (control_reporter E r drops) line w))) = committed_view (hw_env w)"
    unfolding control_reporter_def reporter.simps by (rule reporting_commit) (rule reporter_log_commit)
  show "committed_view (hw_env (rep_commit (control_reporter E r drops) out w))"
    by (simp add: control_reporter_def committed_view_def mark_deployment_committed_def deployment_committed_def)
qed

lemma programs_quiet: "quiet_runner (\<lambda>w. committed_view (hw_env w)) (tokio_run (host_of sys) d)"
  by (rule tokio_quiet) (simp_all add: host_of_def split: prod.split)

lemma quiet_services_pair:
  assumes "quiet_services X R f" "quiet_services X R g"
  shows "quiet_services X R (\<lambda>w. (f w, g w))"
proof -
  have "quietly (\<lambda>w. (f w, g w)) m \<longleftrightarrow> quietly f m \<and> quietly g m" for m :: "('a, 'b) async"
    by (auto simp: quietly_def)
  moreover have "quietly (\<lambda>w. (f w, g w)) m \<longleftrightarrow> quietly f m \<and> quietly g m" for m :: "('a, unit) async"
    by (auto simp: quietly_def)
  ultimately show ?thesis
    using assms by (simp add: quiet_services_def quietly_def)
qed

abbreviation node_committed :: "'d command_world \<Rightarrow> bool" where
  "node_committed w \<equiv> committed_view (hw_env (rw_env w))"

abbreviation node_executor :: "('d agent_memory, 'f) runtime_libs \<Rightarrow> http_env \<Rightarrow> ReporterInner \<Rightarrow> (net \<Rightarrow> bool option)
    \<Rightarrow> ('d agent_memory host_world \<Rightarrow> bool) \<Rightarrow> DockerRuntimeConfig \<Rightarrow> 'd os \<Rightarrow> duration \<Rightarrow> 'd command_world docker_executor" where
  "node_executor L E r drops dropped config sys d \<equiv>
     with_runner (healthy (connected E r drops dropped L)) config (tokio_run (host_of sys) d)"

lemma node_quiet_commit:
  "quiet_services (node_executor L E r drops dropped config sys d) (lift_reporter (control_reporter E r drops)) node_committed"
proof -
  note quiet = programs_quiet [of sys d] control_reporter_commit(2) [of E r drops]
  note services = quietly_workspace [OF quiet] quietly_containers [OF quiet] quietly_build [OF quiet]
  have wait: "quietly (\<lambda>w. committed_view (hw_env w)) (sleep_step dropped)" by (simp add: quietly_def sleep_step_def)
  show ?thesis
    by unfold_locales
      (auto simp: real_services healthy_def connected_def git_workspace_manager_def docker_container_engine_def lift_reporter_def
        services(9) control_reporter_commit(1,2) split_def
        intro!: quietly_lift services wait)
qed

interpretation agent: committing_executor "node_executor L E r drops dropped config sys d" "lift_reporter (control_reporter E r drops)"
    node_served node_committed "node_content L"
  for L :: "('d agent_memory, 'f) runtime_libs" and E r drops dropped config sys d
proof -
  let ?L = "connected E r drops dropped L" and ?run = "tokio_run (host_of sys) d"
  let ?X = "node_executor L E r drops dropped config sys d"
  let ?R = "control_reporter E r drops :: 'd agent_memory host_world reporter"
  have served: "quiet_services ?X (lift_reporter ?R) node_served"
    using node.quiet_services_axioms [where L = ?L and config = config and run = ?run] by (simp add: connected_def)
  show "committing_executor ?X (lift_reporter ?R) node_served node_committed (node_content L)"
  proof (intro committing_executor.intro committing_executor_axioms.intro quiet_services_pair served node_quiet_commit)
    fix rt w outcome w'
    assume a: "rm_activate (dx_routes ?X) rt w = (outcome, w')"
    have "node_content ?L = (node_content L :: RouteSpec \<Rightarrow> _)" by (simp add: fun_eq_iff node_content_def connected_def healthy_def)
    with node.activates [OF a] have "activation (node_served w) ((node_served w)(rs_project_id rt := node_content L rt)) outcome (node_served w')"
      by simp
    moreover have "quietly node_committed (rm_activate (dx_routes ?X) rt)"
      by (simp add: real_services caddy_route_manager_def connected_def healthy_def
          quietly_activate [OF programs_quiet control_reporter_commit(2)])
    with a have "node_committed w' = node_committed w" by (auto dest: quietlyD)
    ultimately show "activation (node_served w) ((node_served w)(rs_project_id rt := node_content L rt)) outcome (node_served w')
        \<and> node_committed w' = node_committed w" ..
  next
    fix out w
    show "node_served (rep_commit (lift_reporter ?R) out w) = node_served w \<and> node_committed (rep_commit (lift_reporter ?R) out w)"
      by (simp add: lift_reporter_def control_reporter_commit(3))
  qed
qed

subsection \<open>The executor as the dispatcher sees it\<close>

text \<open>A command enters the runtime with its network and reporter and leaves with them.\<close>

definition enter :: "'d command_world eworld \<Rightarrow> 'd command_world" where
  "enter w = (ew_rt w)\<lparr>rw_env := (rw_env (ew_rt w))\<lparr>hw_env := (hw_env (rw_env (ew_rt w)))\<lparr>am_net := ew_net w, am_rep := ew_rep w\<rparr>\<rparr>\<rparr>"

definition leave :: "'d command_world \<Rightarrow> 'd command_world eworld" where
  "leave v = \<lparr>ew_net = am_net (hw_env (rw_env v)), ew_rep = am_rep (hw_env (rw_env v)), ew_rt = v\<rparr>"

definition on_node :: "('d command_world, 'a) rt_call \<Rightarrow> ('d command_world, 'a) rt_op" where
  "on_node f w = (case f (enter w) of (r, v) \<Rightarrow> (r, leave v))"

definition command_method :: "('d command_world dworld, 'a) async \<Rightarrow> ('d command_world, 'a) rt_op" where
  "command_method m = on_node (\<lambda>v. case awaited m (fresh v) of (r, d) \<Rightarrow> (r, dw_env d))"

text \<open>\<^verbatim>\<open>impl RuntimeExecutor for DockerRuntimeExecutor\<close>. \<open>cancelled\<close> is the token the last two look at between their
  steps; the other methods race it in their own \<^verbatim>\<open>select!\<close> or hand it to their programs.\<close>

definition docker_port :: "('d agent_memory, 'f) runtime_libs \<Rightarrow> (string \<Rightarrow> 'd agent_memory host_world \<Rightarrow> (string, unit) fut \<times> 'd agent_memory host_world)
    \<Rightarrow> 'd agent_memory host_world runner \<Rightarrow> DockerRuntimeConfig \<Rightarrow> (nat \<Rightarrow> bool) \<Rightarrow> 'd command_world executor" where
  "docker_port L mkdir run config cancelled =
     (let X = with_runner L config run; R = lift_reporter (lib_reporter L)
      in \<lparr>ex_preflight = on_node (nr_preflight (docker_runtime L mkdir run config)),
          ex_capacity = on_node (awaited (\<lambda>v. executor_capacity X (lib_available_permits L v) v)),
          ex_inspect_project = (\<lambda>q. command_method (run_inspection X R q)),
          ex_deploy_project = (\<lambda>q. command_method (run_deployment X R q)),
          ex_restart_project = (\<lambda>q. command_method (run_restart X R q)),
          ex_stop_project = (\<lambda>q. command_method (run_stop X R q True)),
          ex_sleep_project = (\<lambda>q. command_method (run_stop X R q False)),
          ex_wake_project = (\<lambda>q. command_method (run_wake X R q)),
          ex_health_check = (\<lambda>q. command_method (run_health_check X q)),
          ex_refresh_route = (\<lambda>q. command_method (run_refresh_route X q)),
          ex_reconcile_workload = (\<lambda>q. command_method (reconcile_workload X cancelled q)),
          ex_cleanup_runtime = (\<lambda>q. command_method (cleanup_runtime X cancelled q))\<rparr>)"

subsection \<open>The processor put together\<close>

text \<open>The constructors of \<^verbatim>\<open>commands/dispatcher.rs\<close>; the node lifecycle they take is an argument of \<open>dispatch\<close>.\<close>

definition with_repository_credentials :: "'rt executor \<Rightarrow> 'rt credential_provider \<Rightarrow> 'rt dispatcher" where
  "with_repository_credentials runtime credentials =
     \<lparr>di_executor = runtime, di_credentials = credentials, di_has_reporter_factory = False\<rparr>"

definition dispatcher_new :: "'rt executor \<Rightarrow> 'rt dispatcher" where
  "dispatcher_new runtime =
     \<lparr>di_executor = runtime, di_credentials = unavailable_credential, di_has_reporter_factory = False\<rparr>"

definition with_dependencies :: "'rt executor \<Rightarrow> 'rt credential_provider \<Rightarrow> 'rt dispatcher" where
  "with_dependencies runtime credentials =
     \<lparr>di_executor = runtime, di_credentials = credentials, di_has_reporter_factory = False\<rparr>"

definition with_reporter_factory :: "'rt dispatcher \<Rightarrow> 'rt dispatcher" where
  "with_reporter_factory d = d\<lparr>di_has_reporter_factory := True\<rparr>"

text \<open>The dispatcher of a processor, from \<^verbatim>\<open>CommandProcessor::with_node_lifecycle\<close>.\<close>

definition processor_dispatcher :: "http_env \<Rightarrow> ApiClient \<Rightarrow> 'rt executor \<Rightarrow> 'rt dispatcher" where
  "processor_dispatcher E client runtime = with_reporter_factory (with_dependencies runtime (api_credential E client))"

subsection \<open>Executions of a command\<close>

text \<open>How the deadline may meet an execution that would end like a dispatch: after its end; or in some world before
  it, in which nothing is committed that the end takes back, and then the execution ends within the window or is
  dropped there. A dispatch whose future is dropped has the result \<open>Cancelled\<close> in name only; that it may count as an
  end adds cases and takes none away.\<close>

fun execution_of :: "(RuntimeExecutionError + json) \<times> NodeLifecycle \<times> 'rt eworld \<Rightarrow> 'rt eworld execution \<Rightarrow> bool" where
  "execution_of (res, l, w') (InTime r w) \<longleftrightarrow> r = res \<and> w = w'"
| "execution_of (res, l, w') (Late w rest) \<longleftrightarrow>
     (deployment_committed (ew_rep w) \<longrightarrow> deployment_committed (ew_rep w')) \<and> (rest = Ends res w' \<or> rest = Elapses w')"

lemma settle_execution:
  assumes "execution_of (res, l, w') x" "settle deadline x = (outcome, w1)"
  shows "w1 = w'" "is_err outcome \<Longrightarrow> \<not> deployment_committed (ew_rep w')"
    "\<not> is_err outcome \<Longrightarrow> deployment_committed (ew_rep w') \<or> \<not> is_err res"
proof -
  have "w1 = w' \<and> (is_err outcome \<longrightarrow> \<not> deployment_committed (ew_rep w'))
      \<and> (\<not> is_err outcome \<longrightarrow> deployment_committed (ew_rep w') \<or> \<not> is_err res)"
  proof (cases x)
    case (InTime r w)
    with assms show ?thesis by (cases r) (auto simp: settle_def await_execution_def split: if_splits)
  next
    case (Late w rest)
    with assms show ?thesis
      by (cases res) (auto simp: settle_def await_execution_def split: if_splits)
  qed
  then show "w1 = w'" "is_err outcome \<Longrightarrow> \<not> deployment_committed (ew_rep w')"
    "\<not> is_err outcome \<Longrightarrow> deployment_committed (ew_rep w') \<or> \<not> is_err res" by blast+
qed

definition deploy_request :: "AgentCommand \<Rightarrow> uuid \<Rightarrow> uuid \<Rightarrow> DeployProjectPayload \<Rightarrow> RepositoryCredential option \<Rightarrow> DeployProjectRequest" where
  "deploy_request command project deployment pl credential =
     \<lparr>dpq_command_id = cmd_id command, dpq_project_id = project, dpq_deployment_id = deployment, dpq_payload = pl,
      dpq_repository_credential = credential\<rparr>"

text \<open>The activation of the route was dropped before its end was known.\<close>

definition cutover_dropped :: "'w docker_executor \<Rightarrow> 'w reporter \<Rightarrow> DeployProjectRequest \<Rightarrow> 'w \<Rightarrow> bool" where
  "cutover_dropped X R q x \<longleftrightarrow> (S_Activate, Dropped_Midway) \<in> set (dw_calls (snd (run_deployment X R q (fresh x))))"

lemma deploy_method:
  fixes L :: "('d agent_memory, 'f) runtime_libs" and w :: "'d command_world eworld"
    and E r drops dropped config sys t
  defines "X \<equiv> node_executor L E r drops dropped config sys t" and "R \<equiv> lift_reporter (control_reporter E r drops)"
  assumes "command_method (run_deployment X R q) w = (res, w')" and start: "\<not> deployment_committed (ew_rep w)"
  shows "\<not> is_err res \<Longrightarrow> deployment_committed (ew_rep w')"
    "if deployment_committed (ew_rep w')
         then node_served (ew_rt w') = (node_served (ew_rt w))(dpq_project_id q := node_content L (route_of (hf_uuid_str (lib_host L)) q))
         else node_served (ew_rt w') = node_served (ew_rt w)
           \<or> (cutover_dropped X R q (enter w)
              \<and> node_served (ew_rt w') = (node_served (ew_rt w))(dpq_project_id q := node_content L (route_of (hf_uuid_str (lib_host L)) q)))"
proof -
  obtain f v where run: "run_deployment X R q (fresh (enter w)) = (f, v)" by fastforce
  have w': "w' = leave (dw_env v)" and res: "\<not> is_err res \<Longrightarrow> \<exists>j. f = Ready (Inr j)"
    using assms(3) run by (auto simp: command_method_def on_node_def awaited_def split: fut.splits sum.splits)
  have old: "node_served (enter w) = node_served (ew_rt w)" by (simp add: enter_def)
  have "\<not> node_committed (enter w)" using start by (simp add: enter_def committed_view_def)
  from agent.deployment_reports [OF this, where L = L and E = E and r = r and drops = drops and dropped = dropped
      and config = config and sys = sys and d = t and q = q] run
  have rep: "reported (\<lambda>w. (node_served w, node_committed w)) (node_served (ew_rt w))
      ((node_served (ew_rt w))(dpq_project_id q := node_content L (route_of (hf_uuid_str (lib_host L)) q))) v"
    unfolding X_def R_def old by (simp add: old with_runner_def Let_def healthy_def connected_def)
  from run_deployment_post [of X R q "enter w"] run have "run_post f v" by simp
  then have fin: "\<not> is_err res \<Longrightarrow> (S_Activate, Finished) \<in> set (dw_calls v)" using res by (auto split: if_splits)
  have "deployment_committed (ew_rep w') = node_committed (dw_env v)" "ew_rt w' = dw_env v"
    by (simp_all add: w' leave_def committed_view_def)
  with rep fin run show "\<not> is_err res \<Longrightarrow> deployment_committed (ew_rep w')"
    "if deployment_committed (ew_rep w')
         then node_served (ew_rt w') = (node_served (ew_rt w))(dpq_project_id q := node_content L (route_of (hf_uuid_str (lib_host L)) q))
         else node_served (ew_rt w') = node_served (ew_rt w)
           \<or> (cutover_dropped X R q (enter w)
              \<and> node_served (ew_rt w') = (node_served (ew_rt w))(dpq_project_id q := node_content L (route_of (hf_uuid_str (lib_host L)) q)))"
    by (auto simp: reported_def cutover_dropped_def split: if_splits)
qed

subsection \<open>What is reported is what is served\<close>

lemma api_credential_keeps:
  assumes "api_credential E c command_id access w = (r, w')"
  obtains n where "w' = w\<lparr>ew_net := n\<rparr>"
proof (cases access)
  case Public
  with assms that [of "ew_net w"] show ?thesis by simp
next
  case TemporaryCredential
  with assms that show ?thesis by (auto split: prod.splits sum.splits)
qed

lemma process_settled:
  assumes "claim E (pr_client p) (cmd_id command) (ew_net w) = (Inr (), n1)"
    and "event E (pr_client p) (cmd_id command) (claimed_event now) n1 = (Inr ack, n2)"
    and "command_policy C p command = Inr (deadline, log_bounds)"
    and "settle deadline (exec (reporter_new (pr_client p) (cmd_id command) log_bounds) deadline
           (w\<lparr>ew_net := n2, ew_rep := reporter_init\<rparr>)) = (outcome, w1)"
  shows "ew_rt (snd (process C E p exec now command w)) = ew_rt w1"
    "\<exists>sent k. k < max_attempts (pr_client p) \<and> net_log (ew_net (snd (process C E p exec now command w))) =
       sent @ attempt_log (ac_retry (pr_client p)) (terminal_request E (pr_client p) (cmd_id command) outcome) 0 k"
proof -
  let ?r = "reporter_new (pr_client p) (cmd_id command) log_bounds"
  note run = process_settles [where run = exec, OF assms, unfolded Let_def]
  have "ew_rt (flush_w E ?r w1) = ew_rt w1" by (simp add: flush_w_def split: prod.split)
  with run show "ew_rt (snd (process C E p exec now command w)) = ew_rt w1" by (simp split: prod.split)
  from run finish_log [of p E command outcome "ew_net (flush_w E ?r w1)"]
  show "\<exists>sent k. k < max_attempts (pr_client p) \<and> net_log (ew_net (snd (process C E p exec now command w))) =
       sent @ attempt_log (ac_retry (pr_client p)) (terminal_request E (pr_client p) (cmd_id command) outcome) 0 k"
    by (auto split: prod.splits)
qed

lemma deploy_handler:
  fixes L :: "('d agent_memory, 'f) runtime_libs" and w :: "'d command_world eworld"
  assumes command: "cmd_project_id command = Some project" "cmd_deployment_id command = Some deployment"
      "deploy_payload C command = Inr pl"
    and libs: "N = healthy (connected E r drops dropped L)"
    and dispatcher: "d = processor_dispatcher E client (docker_port N mkdir (tokio_run (host_of sys) t) config cancelled)"
    and start: "\<not> deployment_committed (ew_rep w)"
    and handled: "handle_deploy_project C d command w = (res, w')"
  shows "\<not> is_err res \<Longrightarrow> deployment_committed (ew_rep w')"
    "if deployment_committed (ew_rep w')
     then node_served (ew_rt w') = (node_served (ew_rt w))
        (project := node_content L (route_of (hf_uuid_str (lib_host L)) (deploy_request command project deployment pl None)))
     else node_served (ew_rt w') = node_served (ew_rt w)
       \<or> (node_served (ew_rt w') = (node_served (ew_rt w))
            (project := node_content L (route_of (hf_uuid_str (lib_host L)) (deploy_request command project deployment pl None)))
          \<and> (\<exists>credential n. cutover_dropped (with_runner N config (tokio_run (host_of sys) t)) (lift_reporter (lib_reporter N))
               (deploy_request command project deployment pl credential) (enter (w\<lparr>ew_net := n\<rparr>))))"
proof -
  let ?q = "deploy_request command project deployment pl"
  let ?X = "with_runner N config (tokio_run (host_of sys) t)" and ?R = "lift_reporter (lib_reporter N)"
  let ?new = "(node_served (ew_rt w))(project := node_content L (route_of (hf_uuid_str (lib_host L)) (?q None)))"
  note parts = processor_dispatcher_def with_reporter_factory_def with_dependencies_def
  have reporter: "lib_reporter (healthy (connected E r drops dropped L)) = control_reporter E r drops"
    by (simp add: healthy_def connected_def)
  obtain c wc where c: "api_credential E client (cmd_id command) (dp_repository_access pl) w = (c, wc)" by fastforce
  then obtain n where wc: "wc = w\<lparr>ew_net := n\<rparr>" by (rule api_credential_keeps)
  have "(\<not> is_err res \<longrightarrow> deployment_committed (ew_rep w'))
    \<and> (if deployment_committed (ew_rep w') then node_served (ew_rt w') = ?new
       else node_served (ew_rt w') = node_served (ew_rt w)
         \<or> (node_served (ew_rt w') = ?new \<and> (\<exists>credential n. cutover_dropped ?X ?R (?q credential) (enter (w\<lparr>ew_net := n\<rparr>)))))"
  proof (cases c)
    case (Inl e)
    then have "res = Inl e" "w' = wc" using handled c by (simp_all add: handle_deploy_project_def command dispatcher parts)
    with start show ?thesis by (simp add: wc)
  next
    case (Inr credential)
    then have run: "command_method (run_deployment ?X ?R (?q credential)) wc = (res, w')"
      using handled c by (simp add: handle_deploy_project_def command dispatcher parts docker_port_def Let_def deploy_request_def)
    have fresh: "\<not> deployment_committed (ew_rep wc)" using start by (simp add: wc)
    have "route_of us (?q credential) = route_of us (?q None)" "dpq_project_id (?q credential) = project"
        "ew_rt wc = ew_rt w" "enter wc = enter (w\<lparr>ew_net := n\<rparr>)" for us
      by (simp_all add: route_of_def deploy_request_def wc)
    note ends = deploy_method [OF run [unfolded libs reporter] fresh, folded reporter, folded libs, unfolded this]
    then show ?thesis by (auto split: if_splits)
  qed
  then show "\<not> is_err res \<Longrightarrow> deployment_committed (ew_rep w')"
    "if deployment_committed (ew_rep w') then node_served (ew_rt w') = ?new
     else node_served (ew_rt w') = node_served (ew_rt w)
       \<or> (node_served (ew_rt w') = ?new \<and> (\<exists>credential n. cutover_dropped ?X ?R (?q credential) (enter (w\<lparr>ew_net := n\<rparr>))))"
    by blast+
qed

text \<open>C1: the control plane is told what the node does. A deployment command that was claimed is processed over the real
  services, whatever git, docker, Caddy, the network and the deadline do, as long as the sites directory can be
  written. If the last thing sent is \<open>complete\<close>, the project is served by the new container; if it is \<open>fail\<close>,
  everything is served as before, unless the activation of the route was dropped half-way (by a cancellation or the
  deadline): then the new route may be in place. In either case no other project is served differently.\<close>

theorem control_plane_told_what_is_served:
  fixes L :: "('d agent_memory, 'f) runtime_libs" and w :: "'d command_world eworld"
  assumes claimed: "claim E (pr_client p) (cmd_id command) (ew_net w) = (Inr (), n1)"
      "event E (pr_client p) (cmd_id command) (claimed_event now) n1 = (Inr ack, n2)"
    and policy: "command_policy C p command = Inr (deadline, log_bounds)"
    and command: "cmd_type command = DeployProject" "cmd_project_id command = Some project"
      "cmd_deployment_id command = Some deployment" "deploy_payload C command = Inr pl"
    and libs: "N = healthy (connected E (reporter_new (pr_client p) (cmd_id command) log_bounds) drops dropped L)"
    and dispatcher: "d = processor_dispatcher E (pr_client p) (docker_port N mkdir (tokio_run (host_of sys) t) config cancelled)"
    and runs: "execution_of (dispatch C E d r now command l (w\<lparr>ew_net := n2, ew_rep := reporter_init\<rparr>))
      (exec (reporter_new (pr_client p) (cmd_id command) log_bounds) deadline (w\<lparr>ew_net := n2, ew_rep := reporter_init\<rparr>))"
  shows "let w' = snd (process C E p exec now command w);
             old = node_served (ew_rt w);
             new = old(project := node_content L (route_of (hf_uuid_str (lib_host L)) (deploy_request command project deployment pl None)))
         in \<exists>outcome sent k. k < max_attempts (pr_client p)
              \<and> net_log (ew_net w') = sent @ attempt_log (ac_retry (pr_client p)) (terminal_request E (pr_client p) (cmd_id command) outcome) 0 k
              \<and> (case outcome of
                   Inr output \<Rightarrow> node_served (ew_rt w') = new
                 | Inl error \<Rightarrow> node_served (ew_rt w') = old
                     \<or> (node_served (ew_rt w') = new
                        \<and> (\<exists>credential n. cutover_dropped (with_runner N config (tokio_run (host_of sys) t)) (lift_reporter (lib_reporter N))
                             (deploy_request command project deployment pl credential) (enter (w\<lparr>ew_net := n, ew_rep := reporter_init\<rparr>)))))"
proof -
  let ?w0 = "w\<lparr>ew_net := n2, ew_rep := reporter_init\<rparr>"
  obtain res wd where h: "handle_deploy_project C d command ?w0 = (res, wd)" by fastforce
  then have "dispatch C E d r now command l ?w0 = (res, l, wd)"
    by (simp add: dispatch_def command(1) keep_lifecycle_def)
  with runs have ex: "execution_of (res, l, wd) (exec (reporter_new (pr_client p) (cmd_id command) log_bounds) deadline ?w0)" by simp
  obtain outcome w1 where s: "settle deadline (exec (reporter_new (pr_client p) (cmd_id command) log_bounds) deadline ?w0) = (outcome, w1)"
    by fastforce
  have "\<not> deployment_committed (ew_rep ?w0)" by (simp add: deployment_committed_def reporter_init_def)
  note handled = deploy_handler [OF command(2-4) libs dispatcher this h]
  have net: "?w0\<lparr>ew_net := n\<rparr> = w\<lparr>ew_net := n, ew_rep := reporter_init\<rparr>" for n by simp
  note settled = settle_execution [OF ex s]
  show ?thesis
    using process_settled [where exec = exec, OF claimed policy s] settled handled unfolding Let_def settled(1) net
    by (intro exI [of _ outcome]) (auto split: sum.splits if_splits)
qed

subsection \<open>A concrete command\<close>

text \<open>A node where every program succeeds: \<^verbatim>\<open>df\<close> finds space, \<^verbatim>\<open>docker inspect\<close> finds the container running and
  docker lists no other. The repository holds no Dockerfile.\<close>

definition demo_reply :: "CommandSpec \<Rightarrow> string" where
  "demo_reply c =
     (if cs_program c = ''df'' then ''/dev/sda1 100 50 999999 50% /''
      else if list_ex (\<lambda>a. a = ''inspect'') (cs_args c) then ''running'' else '''')"

definition demo_os :: "unit os" where
  "demo_os =
     \<lparr>os_spawn = (\<lambda>c fd. (Inr \<lparr>ch_id = Some 42, ch_stdout = True, ch_stderr = True,
        ch_events = [PLine Proc_Stdout (Inr (Some (demo_reply c))), PLine Proc_Stdout (Inr None), PLine Proc_Stderr (Inr None),
          PWait (Inr (True, Some 0))]\<rparr>, fd)), os_killpg = (\<lambda>_ fd. fd)\<rparr>"

definition command_libs :: "(unit agent_memory, unit) runtime_libs" where
  "command_libs =
     \<lparr>lib_host = demo_host, lib_routes = example_route_env, lib_rfc3339 = (\<lambda>_. Inr 0), lib_f64 = lib_f64 demo_libs,
      lib_json = (\<lambda>_. Inr JNull), lib_dir_len = (\<lambda>_. 0), lib_url = github_parser, lib_debug = id, lib_ser = lib_ser demo_libs,
      lib_sleep_dropped = (\<lambda>_. False), lib_reporter = quiet_reporter, lib_acquire_build = aret (),
      lib_available_permits = (\<lambda>_. 1), lib_lock_admission = aret (), lib_cause = (\<lambda>_. By_Caller)\<rparr>"

definition deploying_codec :: codec where
  "deploying_codec = example_codec\<lparr>de_deploy := (\<lambda>_. Inr example_payload)\<rparr>"

definition deploy_command :: AgentCommand where
  "deploy_command = (example_command DeployProject)\<lparr>cmd_project_id := Some 1, cmd_deployment_id := Some 8\<rparr>"

definition deploying_libs :: "(unit agent_memory, unit) runtime_libs" where
  "deploying_libs = healthy (connected ok_env (reporter_new example_client 7 default_log_bounds) (\<lambda>_. None) (\<lambda>_. False) command_libs)"

definition deploying_dispatcher :: "unit command_world dispatcher" where
  "deploying_dispatcher = processor_dispatcher ok_env example_client
     (docker_port deploying_libs (\<lambda>_ w. (Ready (Inr ()), w)) (tokio_run (host_of demo_os) (from_secs 900)) demo_config (\<lambda>_. False))"

definition command_node :: "unit command_world eworld" where
  "command_node =
     \<lparr>ew_net = \<lparr>net_log = [], net_uuids = 0\<rparr>, ew_rep = reporter_init,
      ew_rt = \<lparr>rw_dir = Some [(uuid_hyphenated 1 @ ''.Caddyfile'', File ''old'')], rw_io = 0,
        rw_env = \<lparr>hw_files = [], hw_io = 0, hw_now = 0, hw_followers = [], hw_spawned = [], hw_aborted = [],
          hw_env = \<lparr>am_net = \<lparr>net_log = [], net_uuids = 0\<rparr>, am_rep = reporter_init, am_os = ()\<rparr>\<rparr>\<rparr>\<rparr>"

definition deploying :: "ReporterInner \<Rightarrow> duration \<Rightarrow> unit command_world eworld \<Rightarrow> unit command_world eworld execution" where
  "deploying = runs_dispatch deploying_codec ok_env deploying_dispatcher 0 deploy_command lifecycle_new"

theorem control_plane_told_what_is_served_witness:
  "let w' = snd (process deploying_codec ok_env example_processor deploying 0 deploy_command command_node)
   in \<exists>outcome sent k. k < max_attempts example_client
        \<and> net_log (ew_net w') = sent @ attempt_log (ac_retry example_client) (terminal_request ok_env example_client 7 outcome) 0 k
        \<and> (is_err outcome
           \<or> node_served (ew_rt w') = (node_served (ew_rt command_node))
                (1 := node_content command_libs (route_of uuid_hyphenated (deploy_request deploy_command 1 8 example_payload None))))"
proof -
  have p: "pr_client example_processor = example_client" "cmd_id deploy_command = 7"
    by (simp_all add: example_processor_def processor_new_def example_command_def deploy_command_def)
  obtain n1 where a: "claim ok_env (pr_client example_processor) (cmd_id deploy_command) (ew_net command_node) = (Inr (), n1)"
    by (simp add: claim_def send_def ok_env_def example_env_def error_for_status_def)
  obtain n2 where b: "event ok_env (pr_client example_processor) (cmd_id deploy_command) (claimed_event 0) n1 = (Inr default_acknowledgement, n2)"
    by (simp add: event_def events_def report_def Let_def report_loop.simps send_def ok_env_def example_env_def
        report_pass_def is_retryable_status_def report_outcome_def error_for_status_def)
  have command: "cmd_type deploy_command = DeployProject" "cmd_project_id deploy_command = Some 1" "cmd_deployment_id deploy_command = Some 8"
      "deploy_payload deploying_codec deploy_command = Inr example_payload"
    by (simp_all add: deploy_command_def example_command_def deploy_payload_def deploying_codec_def)
  have policy: "command_policy deploying_codec example_processor deploy_command = Inr (from_secs 900, default_log_bounds)"
    by (simp add: command_policy_def command Let_def example_processor_def processor_new_def example_payload_def default_log_bounds_def)
  have libs: "deploying_libs = healthy (connected ok_env (reporter_new (pr_client example_processor) (cmd_id deploy_command) default_log_bounds)
      (\<lambda>_. None) (\<lambda>_. False) command_libs)"
    by (simp add: deploying_libs_def p)
  have d: "deploying_dispatcher = processor_dispatcher ok_env (pr_client example_processor)
      (docker_port deploying_libs (\<lambda>_ w. (Ready (Inr ()), w)) (tokio_run (host_of demo_os) (from_secs 900)) demo_config (\<lambda>_. False))"
    by (simp add: deploying_dispatcher_def p)
  have runs: "execution_of (dispatch deploying_codec ok_env deploying_dispatcher r 0 deploy_command lifecycle_new w0) (deploying r deadline w0)"
    for r deadline w0
    by (simp add: deploying_def runs_dispatch_def split: prod.split)
  have "hf_uuid_str (lib_host command_libs) = uuid_hyphenated" by (simp add: command_libs_def demo_host_def)
  with control_plane_told_what_is_served [where exec = deploying, OF a b policy command libs d runs] show ?thesis
    unfolding Let_def p by (fastforce split: sum.splits)
qed

end
