(* ===== verification/Lifecycle_Outcome.thy ===== *)
theory Lifecycle_Outcome
  imports Command_Outcome
begin

text \<open>
  The lifecycle commands of a workload from end to end: what the control plane is told when a workload is restarted,
  woken, refreshed, put to sleep or stopped, compared with what the node serves. The locale extends the contract of
  \<open>Command_Outcome\<close> by the lookup of a workload, by the services that work on its container and by the deactivation of
  its route; it is interpreted on the same real services.
\<close>

subsection \<open>Runs that establish something\<close>

text \<open>\<open>I\<close> holds however the run ends, \<open>G\<close> as well when it succeeds.\<close>

definition establishes :: "('w dworld \<Rightarrow> bool) \<Rightarrow> ('w dworld \<Rightarrow> bool) \<Rightarrow> ('w dworld, 'a) async \<Rightarrow> bool" where
  "establishes I G m \<longleftrightarrow> (\<forall>w. I w \<longrightarrow> wp m (\<lambda>r w'. I w' \<and> (\<forall>x. r = Ready (Inr x) \<longrightarrow> G w')) w)"

lemma establishesI:
  "(\<And>w r w'. I w \<Longrightarrow> m w = (r, w') \<Longrightarrow> I w' \<and> (\<forall>x. r = Ready (Inr x) \<longrightarrow> G w')) \<Longrightarrow> establishes I G m"
  by (auto simp: establishes_def wp_def split: prod.splits)

lemma establishesD:
  "establishes I G m \<Longrightarrow> I w \<Longrightarrow> m w = (r, w') \<Longrightarrow> I w' \<and> (\<forall>x. r = Ready (Inr x) \<longrightarrow> G w')"
  by (fastforce simp: establishes_def wp_def)

lemma establishes_throw: "establishes I G (athrow e)"
  by (simp add: establishes_def)

text \<open>Established by what comes later; what is known of the first result may be used.\<close>

lemma establishes_later:
  assumes "keeps I m" "\<And>x w w'. m w = (Ready (Inr x), w') \<Longrightarrow> establishes I G (f x)"
  shows "establishes I G (abind m f)"
proof (rule establishesI)
  fix w r w' assume w: "I w" and run: "abind m f w = (r, w')"
  show "I w' \<and> (\<forall>x. r = Ready (Inr x) \<longrightarrow> G w')"
  proof (cases "m w" rule: fut_cases)
    case (ok x v)
    with w assms(1) have "I v" by (auto simp: keeps_def wp_def)
    with assms(2) [OF ok] ok run show ?thesis by (auto simp: establishes_def wp_def abind_def)
  qed (use w run assms(1) in \<open>auto simp: keeps_def wp_def abind_def\<close>)
qed

text \<open>Established already, and kept.\<close>

lemma establishes_first:
  assumes "establishes I G m" "\<And>x. keeps (\<lambda>w. I w \<and> G w) (f x)"
  shows "establishes I G (abind m f)"
proof (rule establishesI)
  fix w r w' assume w: "I w" and run: "abind m f w = (r, w')"
  show "I w' \<and> (\<forall>x. r = Ready (Inr x) \<longrightarrow> G w')"
  proof (cases "m w" rule: fut_cases)
    case (ok x v)
    with w assms(1) have "I v \<and> G v" by (auto simp: establishes_def wp_def)
    with assms(2) [of x] ok run show ?thesis by (auto simp: keeps_def wp_def abind_def)
  qed (use w run assms(1) in \<open>auto simp: establishes_def wp_def abind_def\<close>)
qed

text \<open>What depends on the view only is kept by every call that leaves it alone.\<close>

lemma keeps_view:
  fixes view :: "'a \<Rightarrow> 'v"
  shows "quietly view m \<Longrightarrow> keeps (\<lambda>w. P (view (dw_env w))) (call s m)"
proof -
  assume quiet: "quietly view m"
  show "keeps (\<lambda>w. P (view (dw_env w))) (call s m)"
    unfolding keeps_def
  proof (intro allI impI)
    fix w :: "'a dworld" assume w: "P (view (dw_env w))"
    obtain r x where m: "m (dw_env w) = (r, x)" by fastforce
    from quietlyD [OF quiet m] w m show "wp (call s m) (\<lambda>_ w. P (view (dw_env w))) w" by (simp add: wp_def call_def)
  qed
qed

lemma keeps_event_view:
  assumes "\<And>ev w. view (snd (rep_event R ev w)) = view w"
  shows "keeps (\<lambda>w. P (view (dw_env w))) (emit_event R event_type message metadata)"
  unfolding emit_event_def
  by (rule keeps_view)
    (use assms in \<open>auto simp: quietly_def split: prod.splits fut.splits sum.splits dest: arg_cong [where f = "\<lambda>x. view (snd x)"]\<close>)

subsection \<open>The contract\<close>

text \<open>The lifecycle commands that change a route.\<close>

definition lifecycle_run :: "'w docker_executor \<Rightarrow> 'w reporter \<Rightarrow> CommandType \<Rightarrow> WorkloadLifecycleRequest \<Rightarrow> ('w dworld, json) async" where
  "lifecycle_run X R t q =
     (if t = RestartProject then run_restart X R q
      else if t = StopProject then run_stop X R q True
      else if t = SleepProject then run_stop X R q False
      else if t = WakeProject then run_wake X R q
      else run_refresh_route X q)"

text \<open>\<open>names\<close> says that a route is one of the given project and deployment.\<close>

locale lifecycle_executor = committing_executor X R served committed content
  for X :: "'w docker_executor" and R :: "'w reporter" and served :: "'w \<Rightarrow> uuid \<Rightarrow> 'c" and committed :: "'w \<Rightarrow> bool"
    and content :: "RouteSpec \<Rightarrow> 'c" +
  fixes names :: "uuid \<Rightarrow> uuid \<Rightarrow> 'c \<Rightarrow> bool"
  assumes quiet_workloads:
      "quietly (\<lambda>w. (served w, committed w)) (ce_workload (dx_containers X) project deployment)"
      "quietly (\<lambda>w. (served w, committed w)) (ce_restart (dx_containers X) m grace)"
      "quietly (\<lambda>w. (served w, committed w)) (ce_stop (dx_containers X) m grace)"
      "quietly (\<lambda>w. (served w, committed w)) (ce_start_existing (dx_containers X) m)"
      "quietly (\<lambda>w. (served w, committed w)) (ce_remove (dx_containers X) m)"
    and finds: "ce_workload (dx_containers X) project deployment w = (Ready (Inr (Some m)), w') \<Longrightarrow>
      mw_project_id m = project \<and> mw_deployment_id m = deployment"
    and deactivates: "rm_deactivate (dx_routes X) i w = (outcome, w') \<Longrightarrow>
      (\<forall>p. p \<noteq> rid_project_id i \<longrightarrow> served w' p = served w p) \<and> committed w' = committed w
      \<and> (\<forall>b d. outcome = Ready (Inr b) \<longrightarrow> rid_deployment_id i = Some d \<longrightarrow> \<not> names (rid_project_id i) d (served w' (rid_project_id i)))"
    and content_names: "names (rs_project_id r) (rs_deployment_id r) (content r)"
begin

text \<open>Other projects are served as before and nothing is committed; and what a command is to establish.\<close>

abbreviation apart :: "uuid \<Rightarrow> (uuid \<Rightarrow> 'c) \<Rightarrow> (uuid \<Rightarrow> 'c) \<times> bool \<Rightarrow> bool" where
  "apart project old v \<equiv> (\<forall>p. p \<noteq> project \<longrightarrow> fst v p = old p) \<and> \<not> snd v"

abbreviation others :: "uuid \<Rightarrow> (uuid \<Rightarrow> 'c) \<Rightarrow> 'w dworld \<Rightarrow> bool" where
  "others project old w \<equiv> apart project old (view (dw_env w))"

abbreviation unrouted :: "uuid \<Rightarrow> uuid \<Rightarrow> 'w dworld \<Rightarrow> bool" where
  "unrouted project deployment w \<equiv> \<not> names project deployment (fst (view (dw_env w)) project)"

abbreviation routed :: "uuid \<Rightarrow> uuid \<Rightarrow> 'w dworld \<Rightarrow> bool" where
  "routed project deployment w \<equiv> names project deployment (fst (view (dw_env w)) project)"

lemmas lifecycle_quiet = quiet_workloads quiet_others(2)

lemma keeps_others: "quietly (\<lambda>w. (served w, committed w)) m \<Longrightarrow> keeps (others project old) (call s m)"
  by (rule keeps_view [where P = "apart project old"])

lemma keeps_unrouted:
  "quietly (\<lambda>w. (served w, committed w)) m \<Longrightarrow> keeps (\<lambda>w. others project old w \<and> unrouted project deployment w) (call s m)"
  by (rule keeps_view [where P = "\<lambda>v. apart project old v \<and> \<not> names project deployment (fst v project)"])

lemma keeps_routed:
  "quietly (\<lambda>w. (served w, committed w)) m \<Longrightarrow> keeps (\<lambda>w. others project old w \<and> routed project deployment w) (call s m)"
  by (rule keeps_view [where P = "\<lambda>v. apart project old v \<and> names project deployment (fst v project)"])

lemma keeps_event_unrouted:
  "keeps (\<lambda>w. others project old w \<and> unrouted project deployment w) (emit_event R event_type message metadata)"
  by (rule keeps_event_view [where P = "\<lambda>v. apart project old v \<and> \<not> names project deployment (fst v project)"])
    (rule quiet_reports(1))

lemma keeps_event_routed:
  "keeps (\<lambda>w. others project old w \<and> routed project deployment w) (emit_event R event_type message metadata)"
  by (rule keeps_event_view [where P = "\<lambda>v. apart project old v \<and> names project deployment (fst v project)"])
    (rule quiet_reports(1))

lemma establishes_unrouted:
  assumes "rid_project_id i = project" "rid_deployment_id i = Some deployment"
  shows "establishes (others project old) (unrouted project deployment) (call S_Deactivate (rm_deactivate (dx_routes X) i))"
proof (rule establishesI)
  fix w r w' assume w: "others project old w" and run: "call S_Deactivate (rm_deactivate (dx_routes X) i) w = (r, w')"
  then obtain x where "rm_deactivate (dx_routes X) i (dw_env w) = (r, x)" "dw_env w' = x"
    by (auto simp: call_def split: prod.splits)
  with deactivates w assms show "others project old w' \<and> (\<forall>x. r = Ready (Inr x) \<longrightarrow> unrouted project deployment w')"
    by fastforce
qed

lemma establishes_routed:
  assumes "rs_project_id rt = project" "rs_deployment_id rt = deployment"
  shows "establishes (others project old) (routed project deployment) (call S_Activate (rm_activate (dx_routes X) rt))"
proof (rule establishesI)
  fix w r w' assume w: "others project old w" and run: "call S_Activate (rm_activate (dx_routes X) rt) w = (r, w')"
  then obtain x where x: "rm_activate (dx_routes X) rt (dw_env w) = (r, x)" "dw_env w' = x"
    by (auto simp: call_def split: prod.splits)
  from activates [OF x(1)] w assms content_names [of rt] x(2)
  show "others project old w' \<and> (\<forall>x. r = Ready (Inr x) \<longrightarrow> routed project deployment w')"
    by (cases "(r, x)" rule: fut_cases) (auto split: if_splits)
qed

lemma finds_workload:
  assumes "find_workload X project deployment w = (Ready (Inr (Some m)), w')"
  shows "mw_project_id m = project" "mw_deployment_id m = deployment"
  using assms finds by (auto simp: find_workload_def call_def split: prod.splits)

lemma the_workload_finds:
  assumes "the_workload X q w = (Ready (Inr m), w')"
  shows "mw_project_id m = wlr_project_id q" "mw_deployment_id m = wlr_deployment_id q"
proof -
  from assms obtain v where "find_workload X (wlr_project_id q) (wlr_deployment_id q) w = (Ready (Inr (Some m)), v)"
    by (cases "find_workload X (wlr_project_id q) (wlr_deployment_id q) w" rule: fut_cases)
      (auto simp: the_workload_def abind_def alift_def ok_or_def split: option.splits)
  from finds_workload [OF this] show "mw_project_id m = wlr_project_id q" "mw_deployment_id m = wlr_deployment_id q" .
qed

lemma keeps_the_workload: "keeps (others project old) (the_workload X q)"
  unfolding the_workload_def find_workload_def
  by (intro keeps_rules keeps_others quiet_workloads)

lemma stop_unroutes:
  "establishes (others (wlr_project_id q) old) (unrouted (wlr_project_id q) (wlr_deployment_id q)) (run_stop X R q gone)"
  unfolding run_stop_def
proof (rule establishes_later, goal_cases)
  case 1
  show ?case unfolding find_workload_def by (intro keeps_others quiet_workloads)
next
  case (2 mo w w')
  show ?case
  proof (cases mo)
    case None
    show ?thesis
      unfolding None option.case
      by (cases gone; simp only: if_True if_False)
        (intro establishes_first [OF establishes_unrouted] keeps_rules establishes_throw; simp)+
  next
    case (Some m)
    from finds_workload [OF 2 [unfolded Some]] show ?thesis
      unfolding Some option.case
      by (intro establishes_later [OF keeps_others] establishes_first [OF establishes_unrouted] keeps_rules keeps_unrouted
          keeps_event_unrouted quiet_workloads) simp_all
  qed
qed

lemma activate_workload_routes:
  assumes "mw_project_id m = project" "mw_deployment_id m = deployment"
  shows "establishes (others project old) (routed project deployment) (activate_workload X m)"
  unfolding activate_workload_def
  by (intro establishes_later [OF keeps_others] establishes_routed quiet_others) (simp_all add: assms)

lemma establishes_if: "(c \<Longrightarrow> establishes I G m) \<Longrightarrow> (\<not> c \<Longrightarrow> establishes I G n) \<Longrightarrow> establishes I G (if c then m else n)"
  by simp

lemmas routes_rules = establishes_if establishes_throw establishes_later [OF keeps_others]
  establishes_first [OF activate_workload_routes] keeps_rules keeps_event_routed quiet_workloads

lemma restart_routes:
  "establishes (others (wlr_project_id q) old) (routed (wlr_project_id q) (wlr_deployment_id q)) (run_restart X R q)"
  unfolding run_restart_def
proof (rule establishes_later [OF keeps_the_workload], goal_cases)
  case (1 m w w')
  show ?case by (intro routes_rules the_workload_finds [OF 1])
qed

lemma wake_routes:
  "establishes (others (wlr_project_id q) old) (routed (wlr_project_id q) (wlr_deployment_id q)) (run_wake X R q)"
  unfolding run_wake_def
proof (rule establishes_later [OF keeps_the_workload], goal_cases)
  case (1 m w w')
  show ?case by (intro routes_rules the_workload_finds [OF 1])
qed

lemma refresh_routes:
  "establishes (others (wlr_project_id q) old) (routed (wlr_project_id q) (wlr_deployment_id q)) (run_refresh_route X q)"
  unfolding run_refresh_route_def
proof (rule establishes_later [OF keeps_the_workload], goal_cases)
  case (1 m w w')
  show ?case by (intro routes_rules the_workload_finds [OF 1])
qed

lemma lifecycle_routes:
  assumes "t \<in> {RestartProject, StopProject, SleepProject, WakeProject, RefreshRoute}"
  shows "establishes (others (wlr_project_id q) old)
    (\<lambda>w. names (wlr_project_id q) (wlr_deployment_id q) (served (dw_env w) (wlr_project_id q))
       \<longleftrightarrow> t \<in> {RestartProject, WakeProject, RefreshRoute}) (lifecycle_run X R t q)"
  using assms stop_unroutes [of q old] restart_routes [of q old] wake_routes [of q old] refresh_routes [of q old]
  by (auto simp: lifecycle_run_def)

lemma lifecycle_run_ends:
  assumes "t \<in> {RestartProject, StopProject, SleepProject, WakeProject, RefreshRoute}" "\<not> committed x"
    and "lifecycle_run X R t q (fresh x) = (f, v)"
  shows "\<not> committed (dw_env v)" "p \<noteq> wlr_project_id q \<Longrightarrow> served (dw_env v) p = served x p"
    "f = Ready (Inr j) \<Longrightarrow> names (wlr_project_id q) (wlr_deployment_id q) (served (dw_env v) (wlr_project_id q))
       \<longleftrightarrow> t \<in> {RestartProject, WakeProject, RefreshRoute}"
proof -
  have "others (wlr_project_id q) (served x) (fresh x)" using assms(2) by (simp add: fresh_def)
  from establishesD [OF lifecycle_routes [OF assms(1)] this assms(3)]
  show "\<not> committed (dw_env v)" "p \<noteq> wlr_project_id q \<Longrightarrow> served (dw_env v) p = served x p"
    "f = Ready (Inr j) \<Longrightarrow> names (wlr_project_id q) (wlr_deployment_id q) (served (dw_env v) (wlr_project_id q))
       \<longleftrightarrow> t \<in> {RestartProject, WakeProject, RefreshRoute}"
    by simp_all
qed

end

subsection \<open>The real services\<close>

text \<open>A route file that names the deployment.\<close>

definition routes_to :: "('x, 'f) runtime_libs \<Rightarrow> uuid \<Rightarrow> uuid \<Rightarrow> io_error + string \<Rightarrow> bool" where
  "routes_to L project deployment c \<longleftrightarrow>
     (case c of Inl _ \<Rightarrow> False | Inr text \<Rightarrow> starts_with text (expected_prefix (lib_routes (healthy L)) project deployment))"

lemma wp_kept_route:
  "wp (remove_route E i) (\<lambda>r w'. \<forall>s. r = Ready (Inr s) \<longrightarrow> \<not> sn_changed s \<longrightarrow> \<not> removable E i (reads w)) w"
  unfolding remove_route_def Let_def
  by (auto intro!: wp_find wp_remove simp: removable_def owned_by_def found_def split: option.splits)

lemma wp_reload_keeps: "wp (reload_or_restore E L s) (\<lambda>r w'. \<forall>x. r = Ready (Inr x) \<longrightarrow> reads w' = reads w) w"
proof (cases "in_env (rl_validate_and_reload L) w" rule: fut_cases)
  case (ok u v)
  then show ?thesis using reads_same [OF in_env_dir [OF ok]] by (simp add: reload_or_restore_def wp_def)
next
  case (err e v)
  show ?thesis
  proof (cases "restore E s v" rule: fut_cases)
    case (ok u v')
    with err show ?thesis
      by (cases "in_env (rl_reload_after_rollback L) v'" rule: fut_cases) (simp_all add: reload_or_restore_def wp_def)
  qed (use err in \<open>simp_all add: reload_or_restore_def wp_def\<close>)
qed (simp add: reload_or_restore_def wp_def)

text \<open>After a deactivation that succeeds there is no route of the deployment.\<close>

lemma deactivate_removes:
  assumes "deactivate E L i w = (Ready (Inr b), w')"
  shows "\<not> removable E i (reads w')"
proof (cases "remove_route E i w" rule: fut_cases)
  case (ok s w1)
  from wp_remove_route [of E i w] ok have post: "removed_post E i (reads w) (Ready (Inr s)) w1" by (simp add: wp_def)
  show ?thesis
  proof (cases "sn_changed s")
    case True
    with assms ok obtain u where u: "reload_or_restore E L s w1 = (Ready (Inr u), w')"
      by (cases "reload_or_restore E L s w1" rule: fut_cases) (auto simp: deactivate_def)
    from wp_reload_keeps [of E L s w1] u have "reads w' = reads w1" by (simp add: wp_def)
    with post True show ?thesis by (simp add: removable_def)
  next
    case False
    with assms ok have "w' = w1" by (simp add: deactivate_def)
    with post False wp_kept_route [of E i w] ok show ?thesis by (simp add: wp_def)
  qed
qed (use assms in \<open>simp_all add: deactivate_def\<close>)

lemma quietly_deactivate:
  assumes "quiet_runner view run" "\<And>ln w. view (snd (rep_log R ln w)) = view w"
  shows "quietly (\<lambda>w. view (rw_env w)) (deactivate E (docker_exec_reloader run container R) i)"
proof -
  note run = quietly_checked [OF assms(1), OF assms(2)]
  have reload: "quietly view (rl_validate_and_reload (docker_exec_reloader run container R))"
    "quietly view (rl_reload_after_rollback (docker_exec_reloader run container R))"
    unfolding docker_exec_reloader_def by (simp, intro quietly_rules run)+
  have "quietly (\<lambda>w. view (rw_env w)) (remove_route E i)"
    unfolding remove_route_def Let_def by (intro quietly_rules quietly_io io_ops_env)
  moreover have "quietly (\<lambda>w. view (rw_env w)) (restore E s)" for s
    unfolding restore_def by (intro quietly_rules quietly_io io_ops_env)
  ultimately show ?thesis
    unfolding deactivate_def reload_or_restore_def by (intro quietly_rules quietly_lift reload)
qed

lemma quietly_workloads:
  assumes "quiet_runner view run"
  shows "quietly view (workload H run project_id deployment_id)" "quietly view (restart run m grace)" "quietly view (stop run m grace)"
    "quietly view (start_existing run m)" "quietly view (remove run m)"
proof -
  have n: "quietly view (run command null_sink)" for command
    using assms by (simp add: quiet_runner_def quietly_def null_sink_def aret_def)
  have o: "quietly view (docker_output run command what)" for command what
    unfolding docker_output_def by (intro quietly_rules n)
  have "quietly view (case nonblank_lines out of [] \<Rightarrow> aret None
      | line # _ \<Rightarrow> abind (alift (workload_of_line H project_id deployment_id line)) (\<lambda>m. aret (Some m)))" for out
    by (cases "nonblank_lines out") (auto intro!: quietly_rules)
  then show "quietly view (workload H run project_id deployment_id)"
    unfolding workload_def by (intro quietly_rules o)
  have c: "quietly view (run_container_command run command phase)" for command phase
    unfolding run_container_command_def by (intro quietly_rules n)
  show "quietly view (restart run m grace)" "quietly view (stop run m grace)" "quietly view (start_existing run m)" "quietly view (remove run m)"
    unfolding restart_def stop_def start_existing_def remove_def by (intro quietly_rules c)+
qed

lemma workload_names:
  assumes "workload H run project deployment w = (Ready (Inr (Some m)), w')"
  shows "mw_project_id m = project \<and> mw_deployment_id m = deployment"
proof -
  have "mw_project_id m = project \<and> mw_deployment_id m = deployment" if "workload_of_line H project deployment line = Inr m" for line
    using that by (auto simp: workload_of_line_def Let_def res_bind_def split: sum.splits)
  with assms show ?thesis
    by (auto simp: workload_def abind_def alift_def aret_def split: prod.splits fut.splits sum.splits list.splits)
qed

lemma deactivate_unroutes:
  assumes "deactivate E rl i w = (outcome, w')" "re_uuid_str E = uuid_hyphenated"
  shows "p \<noteq> rid_project_id i \<Longrightarrow> node_served w' p = node_served w p"
    "outcome = Ready (Inr b) \<Longrightarrow> rid_deployment_id i = Some d \<Longrightarrow> \<not> routes_to L (rid_project_id i) d (node_served w' (rid_project_id i))"
proof -
  from wp_deactivate [of E rl i w] assms(1) have post: "deactivated_post E i (reads w) outcome w'" by (simp add: wp_def)
  then show "p \<noteq> rid_project_id i \<Longrightarrow> node_served w' p = node_served w p"
    using route_files_apart(1) [OF assms(2), of p] by (simp add: node_served_def)
  have name: "route_file E p = uuid_hyphenated p @ ''.Caddyfile''" for p by (simp add: route_file_def assms(2))
  have prefix: "expected_prefix (lib_routes (healthy L)) = expected_prefix E"
    by (simp add: fun_eq_iff expected_prefix_def current_prefix_def owned_prefix_def healthy_def assms(2))
  assume "outcome = Ready (Inr b)" "rid_deployment_id i = Some d"
  with deactivate_removes [of E rl i w b w'] assms(1) show "\<not> routes_to L (rid_project_id i) d (node_served w' (rid_project_id i))"
    by (auto simp: removable_def owned_by_def routes_to_def node_served_def name prefix split: sum.splits)
qed

lemma route_content_names: "routes_to L (rs_project_id r) (rs_deployment_id r) (node_content L r)"
  by (simp add: routes_to_def node_content_def route_content_def starts_with_iff)

interpretation lifecycle: lifecycle_executor "node_executor L E r drops dropped config sys d" "lift_reporter (control_reporter E r drops)"
    node_served node_committed "node_content L" "routes_to L"
  for L :: "('d agent_memory, 'f) runtime_libs" and E r drops dropped config sys d
proof -
  let ?L = "connected E r drops dropped L" and ?run = "tokio_run (host_of sys) d"
  let ?X = "node_executor L E r drops dropped config sys d"
  let ?R = "control_reporter E r drops :: 'd agent_memory host_world reporter"
  note programs = quietly_workloads [OF programs_quiet [of sys d]]
  have pair: "quietly (\<lambda>w. (node_served w, node_committed w)) (in_env m)" if "quietly (\<lambda>w. committed_view (hw_env w)) m"
    for m :: "('d agent_memory host_world, 'a) async"
    using quietly_lift [OF that] quietly_in_env [of m] by (simp add: quietly_def)
  have engine: "ce_workload (dx_containers ?X) p v = in_env (workload (lib_host L) ?run p v)"
    "ce_restart (dx_containers ?X) m g = in_env (restart ?run m g)" "ce_stop (dx_containers ?X) m g = in_env (stop ?run m g)"
    "ce_start_existing (dx_containers ?X) m = in_env (start_existing ?run m)" "ce_remove (dx_containers ?X) m = in_env (remove ?run m)"
    for p v m g
    by (simp_all add: real_services healthy_def connected_def docker_container_engine_def)
  show "lifecycle_executor ?X (lift_reporter ?R) node_served node_committed (node_content L) (routes_to L)"
  proof (intro lifecycle_executor.intro lifecycle_executor_axioms.intro agent.committing_executor_axioms, unfold engine)
    fix i w outcome w'
    assume a: "rm_deactivate (dx_routes ?X) i w = (outcome, w')"
    let ?E = "(lib_routes (healthy L))\<lparr>re_sites_dir := drc_caddy_sites_dir config\<rparr>"
    from a obtain c where c: "deactivate ?E (docker_exec_reloader ?run c ?R) i w = (outcome, w')"
      by (auto simp: real_services caddy_route_manager_def healthy_def connected_def)
    have uuids: "re_uuid_str ?E = uuid_hyphenated" by (simp add: healthy_def)
    from quietlyD [OF quietly_deactivate [OF programs_quiet control_reporter_commit(2)] c]
      deactivate_unroutes [OF c uuids]
    show "(\<forall>p. p \<noteq> rid_project_id i \<longrightarrow> node_served w' p = node_served w p) \<and> node_committed w' = node_committed w
      \<and> (\<forall>b d. outcome = Ready (Inr b) \<longrightarrow> rid_deployment_id i = Some d \<longrightarrow>
           \<not> routes_to L (rid_project_id i) d (node_served w' (rid_project_id i)))"
      by blast
  next
    fix p v w m w'
    assume "in_env (workload (lib_host L) ?run p v) w = (Ready (Inr (Some m)), w')"
    then show "mw_project_id m = p \<and> mw_deployment_id m = v"
      by (auto simp: in_env_def split: prod.splits dest: workload_names)
  qed (intro pair programs route_content_names)+
qed

subsection \<open>What is reported is what is served\<close>

lemma lifecycle_method:
  fixes L :: "('d agent_memory, 'f) runtime_libs" and w :: "'d command_world eworld"
    and E r drops dropped config sys d
  defines "X \<equiv> node_executor L E r drops dropped config sys d" and "R \<equiv> lift_reporter (control_reporter E r drops)"
  assumes t: "t \<in> {RestartProject, StopProject, SleepProject, WakeProject, RefreshRoute}"
    and run: "command_method (lifecycle_run X R t q) w = (res, w')" and start: "\<not> deployment_committed (ew_rep w)"
  shows "\<not> deployment_committed (ew_rep w')" "p \<noteq> wlr_project_id q \<Longrightarrow> node_served (ew_rt w') p = node_served (ew_rt w) p"
    "\<not> is_err res \<Longrightarrow> routes_to L (wlr_project_id q) (wlr_deployment_id q) (node_served (ew_rt w') (wlr_project_id q))
       \<longleftrightarrow> t \<in> {RestartProject, WakeProject, RefreshRoute}"
proof -
  obtain f v where m: "lifecycle_run X R t q (fresh (enter w)) = (f, v)" by fastforce
  have w': "w' = leave (dw_env v)" and res: "\<not> is_err res \<Longrightarrow> \<exists>j. f = Ready (Inr j)"
    using run m by (auto simp: command_method_def on_node_def awaited_def split: fut.splits sum.splits)
  have old: "node_served (enter w) = node_served (ew_rt w)" by (simp add: enter_def)
  have fresh: "\<not> node_committed (enter w)" using start by (simp add: enter_def committed_view_def)
  have v: "deployment_committed (ew_rep w') = node_committed (dw_env v)" "ew_rt w' = dw_env v"
    by (simp_all add: w' leave_def committed_view_def)
  note ends = lifecycle.lifecycle_run_ends [OF t fresh m [unfolded X_def R_def]]
  from ends(1) show "\<not> deployment_committed (ew_rep w')" by (simp add: v)
  from ends(2) show "p \<noteq> wlr_project_id q \<Longrightarrow> node_served (ew_rt w') p = node_served (ew_rt w) p" by (simp add: v old)
  show "routes_to L (wlr_project_id q) (wlr_deployment_id q) (node_served (ew_rt w') (wlr_project_id q))
       \<longleftrightarrow> t \<in> {RestartProject, WakeProject, RefreshRoute}" if "\<not> is_err res"
    using ends(3) res [OF that] unfolding v by blast
qed

text \<open>The dispatcher hands a lifecycle command to the method of its type.\<close>

definition workload_request :: "AgentCommand \<Rightarrow> uuid \<Rightarrow> uuid \<Rightarrow> WorkloadLifecycleRequest" where
  "workload_request command project deployment =
     \<lparr>wlr_command_id = cmd_id command, wlr_project_id = project, wlr_deployment_id = deployment\<rparr>"

lemma dispatch_workload_command:
  assumes "cmd_type command \<in> {RestartProject, StopProject, SleepProject, WakeProject, RefreshRoute}"
    and "cmd_project_id command = Some project" "cmd_deployment_id command = Some deployment"
  shows "dispatch C E (processor_dispatcher E client (docker_port N mkdir run config cancelled)) r now command l w =
    keep_lifecycle l (command_method (lifecycle_run (with_runner N config run) (lift_reporter (lib_reporter N)) (cmd_type command)
      (workload_request command project deployment)) w)"
  using assms
  by (auto simp: dispatch_def with_lifecycle_def lifecycle_request_def workload_request_def lifecycle_run_def processor_dispatcher_def
      with_reporter_factory_def with_dependencies_def docker_port_def Let_def)

text \<open>C2: a lifecycle command that was claimed is processed over the real services, whatever docker, Caddy, the network and
  the deadline do, as long as the sites directory can be written. If the last thing sent is \<open>complete\<close>, the route file
  of the project names the deployment after a restart, a wake-up and a refresh, and does not name it after a stop and
  after putting it to sleep. However the command ends, every other project is served as before.\<close>

theorem lifecycle_told_what_is_routed:
  fixes L :: "('d agent_memory, 'f) runtime_libs" and w :: "'d command_world eworld"
  assumes claimed: "claim E (pr_client p) (cmd_id command) (ew_net w) = (Inr (), n1)"
      "event E (pr_client p) (cmd_id command) (claimed_event now) n1 = (Inr ack, n2)"
    and policy: "command_policy C p command = Inr (deadline, log_bounds)"
    and command: "cmd_type command \<in> {RestartProject, StopProject, SleepProject, WakeProject, RefreshRoute}"
      "cmd_project_id command = Some project" "cmd_deployment_id command = Some deployment"
    and libs: "N = healthy (connected E (reporter_new (pr_client p) (cmd_id command) log_bounds) drops dropped L)"
    and dispatcher: "d = processor_dispatcher E (pr_client p) (docker_port N mkdir (tokio_run (host_of sys) t) config cancelled)"
    and runs: "execution_of (dispatch C E d r now command l (w\<lparr>ew_net := n2, ew_rep := reporter_init\<rparr>))
      (exec (reporter_new (pr_client p) (cmd_id command) log_bounds) deadline (w\<lparr>ew_net := n2, ew_rep := reporter_init\<rparr>))"
  shows "let w' = snd (process C E p exec now command w)
         in \<exists>outcome sent k. k < max_attempts (pr_client p)
              \<and> net_log (ew_net w') = sent @ attempt_log (ac_retry (pr_client p)) (terminal_request E (pr_client p) (cmd_id command) outcome) 0 k
              \<and> (\<forall>other. other = project \<or> node_served (ew_rt w') other = node_served (ew_rt w) other)
              \<and> (case outcome of
                   Inr output \<Rightarrow> routes_to L project deployment (node_served (ew_rt w') project)
                     \<longleftrightarrow> cmd_type command \<in> {RestartProject, WakeProject, RefreshRoute}
                 | Inl error \<Rightarrow> True)"
proof -
  let ?w0 = "w\<lparr>ew_net := n2, ew_rep := reporter_init\<rparr>" and ?r = "reporter_new (pr_client p) (cmd_id command) log_bounds"
  let ?q = "workload_request command project deployment"
  let ?R = "lift_reporter (control_reporter E ?r drops) :: 'd command_world reporter"
  have reporter: "lib_reporter N = control_reporter E ?r drops" by (simp add: libs healthy_def connected_def)
  obtain res wd where h: "command_method (lifecycle_run (with_runner N config (tokio_run (host_of sys) t)) ?R (cmd_type command) ?q) ?w0 = (res, wd)"
    by fastforce
  have "dispatch C E d r now command l ?w0 = (res, l, wd)"
    by (simp add: dispatcher dispatch_workload_command [OF command] reporter h keep_lifecycle_def)
  with runs have ex: "execution_of (res, l, wd) (exec ?r deadline ?w0)" by simp
  obtain outcome w1 where s: "settle deadline (exec ?r deadline ?w0) = (outcome, w1)" by fastforce
  have "\<not> deployment_committed (ew_rep ?w0)" by (simp add: deployment_committed_def reporter_init_def)
  note handled = lifecycle_method [OF command(1) h [unfolded libs] this]
  note settled = settle_execution [OF ex s]
  from settled(3) handled(1,3) have ends: "\<not> is_err outcome \<Longrightarrow> routes_to L project deployment (node_served (ew_rt wd) project)
      \<longleftrightarrow> cmd_type command \<in> {RestartProject, WakeProject, RefreshRoute}"
    by (auto simp: workload_request_def)
  from handled(2) have others: "\<forall>other. other = project \<or> node_served (ew_rt wd) other = node_served (ew_rt w) other"
    by (auto simp: workload_request_def)
  note run = process_settled [where exec = exec, OF claimed policy s]
  from run(2) obtain sent k where "k < max_attempts (pr_client p)" "net_log (ew_net (snd (process C E p exec now command w))) =
      sent @ attempt_log (ac_retry (pr_client p)) (terminal_request E (pr_client p) (cmd_id command) outcome) 0 k" by blast
  with others ends show ?thesis
    unfolding Let_def run(1) settled(1)
    by (intro exI [of _ outcome] exI [of _ sent] exI [of _ k]) (auto split: sum.split)
qed

subsection \<open>A concrete command\<close>

text \<open>The project is served by the deployment, whose container is gone; the command is to stop it.\<close>

definition stop_command :: AgentCommand where
  "stop_command = (example_command StopProject)\<lparr>cmd_project_id := Some 1, cmd_deployment_id := Some 8\<rparr>"

definition routed_node :: "unit command_world eworld" where
  "routed_node = command_node\<lparr>ew_rt := (ew_rt command_node)\<lparr>rw_dir := Some [(uuid_hyphenated 1 @ ''.Caddyfile'',
     File (route_content (lib_routes (healthy command_libs))
       \<lparr>rs_project_id = 1, rs_deployment_id = 8, rs_domain = ''demo.test'', rs_upstream = ''demo'', rs_port = 80\<rparr>))]\<rparr>\<rparr>"

definition stopping :: "ReporterInner \<Rightarrow> duration \<Rightarrow> unit command_world eworld \<Rightarrow> unit command_world eworld execution" where
  "stopping = runs_dispatch example_codec ok_env deploying_dispatcher 0 stop_command lifecycle_new"

theorem lifecycle_told_what_is_routed_witness:
  "let w' = snd (process example_codec ok_env example_processor stopping 0 stop_command routed_node)
   in routes_to command_libs 1 8 (node_served (ew_rt routed_node) 1)
      \<and> (\<exists>outcome sent k. k < max_attempts example_client
        \<and> net_log (ew_net w') = sent @ attempt_log (ac_retry example_client) (terminal_request ok_env example_client 7 outcome) 0 k
        \<and> (is_err outcome \<or> \<not> routes_to command_libs 1 8 (node_served (ew_rt w') 1)))"
proof -
  have p: "pr_client example_processor = example_client" "cmd_id stop_command = 7"
    by (simp_all add: example_processor_def processor_new_def example_command_def stop_command_def)
  have net: "ew_net routed_node = ew_net command_node" by (simp add: routed_node_def)
  obtain n1 where a: "claim ok_env (pr_client example_processor) (cmd_id stop_command) (ew_net routed_node) = (Inr (), n1)"
    by (simp add: claim_def send_def ok_env_def example_env_def error_for_status_def)
  obtain n2 where b: "event ok_env (pr_client example_processor) (cmd_id stop_command) (claimed_event 0) n1 = (Inr default_acknowledgement, n2)"
    by (simp add: event_def events_def report_def Let_def report_loop.simps send_def ok_env_def example_env_def
        report_pass_def is_retryable_status_def report_outcome_def error_for_status_def)
  have command: "cmd_type stop_command \<in> {RestartProject, StopProject, SleepProject, WakeProject, RefreshRoute}"
      "cmd_project_id stop_command = Some 1" "cmd_deployment_id stop_command = Some 8"
    by (simp_all add: stop_command_def example_command_def)
  have policy: "command_policy example_codec example_processor stop_command = Inr (from_secs 900, default_log_bounds)"
    by (simp add: command_policy_def stop_command_def example_command_def Let_def example_processor_def processor_new_def default_log_bounds_def)
  have libs: "deploying_libs = healthy (connected ok_env (reporter_new (pr_client example_processor) (cmd_id stop_command) default_log_bounds)
      (\<lambda>_. None) (\<lambda>_. False) command_libs)"
    by (simp add: deploying_libs_def p)
  have d: "deploying_dispatcher = processor_dispatcher ok_env (pr_client example_processor)
      (docker_port deploying_libs (\<lambda>_ w. (Ready (Inr ()), w)) (tokio_run (host_of demo_os) (from_secs 900)) demo_config (\<lambda>_. False))"
    by (simp add: deploying_dispatcher_def p)
  have runs: "execution_of (dispatch example_codec ok_env deploying_dispatcher r 0 stop_command lifecycle_new w0) (stopping r deadline w0)"
    for r deadline w0
    by (simp add: stopping_def runs_dispatch_def split: prod.split)
  have before: "routes_to command_libs 1 8 (node_served (ew_rt routed_node) 1)"
    by (simp add: routes_to_def node_served_def reads_def lookup_content_def routed_node_def route_content_def starts_with_iff)
  have "cmd_type stop_command = StopProject" by (simp add: stop_command_def example_command_def)
  with before lifecycle_told_what_is_routed [where exec = stopping, OF a b policy command libs d runs] show ?thesis
    unfolding Let_def p by (fastforce split: sum.splits)
qed

end
