(* ===== verification/Spec2Isabelle.thy ===== *)
theory Spec2Isabelle
  imports Redactor Processor Scheduler Lifecycle Containers Workspace Build_Services Configuration Heartbeat Telemetry
    Runtime_Executor Serving Admission Polling Agent Lifecycle_Outcome
begin

text \<open>
  A verification development for \<^verbatim>\<open>sakala-agent\<close>, the agent that runs deployments of the Sakala control plane on a
  node: it polls commands, builds repositories into images, runs them as containers behind Caddy and reports
  events, logs and heartbeats.

  \<^bold>\<open>Parts and how they interact.\<close> The application (\<^verbatim>\<open>apps/sakala-agent\<close>) reads the configuration, checks the host and
  starts three workers: the poller, the heartbeat and the health worker. The poller starts a bounded number of
  commands; each is claimed, executed under a deadline and settled by the processor, which calls the dispatcher,
  which calls the runtime executor through a trait. The reporter redacts, bounds and batches the logs of a
  command on their way to the control plane. The Docker executor composes services for workspaces, inspections,
  builds, containers, health and routes, each of which runs programs through the process runner.

  \<^bold>\<open>Theories and the source.\<close> Paths are under \<^verbatim>\<open>src/crates\<close>; \<^verbatim>\<open>core\<close>, \<^verbatim>\<open>runtime\<close> and \<^verbatim>\<open>protocol\<close> stand for
  \<^verbatim>\<open>sakala-agent-core/src\<close> and so on.

  \<^item> \<open>Rust_Prelude\<close>: strings as UTF-8 bytes, words, durations in nanoseconds, parsing; panics as values.
  \<^item> \<open>Protocol\<close> (\<^verbatim>\<open>protocol\<close>, \<^verbatim>\<open>core/commands/lifecycle.rs\<close>), \<open>Core_State\<close> (\<^verbatim>\<open>core/node_state.rs\<close>, \<^verbatim>\<open>support/retry.rs\<close>,
    \<^verbatim>\<open>scheduler/metrics.rs\<close>, \<^verbatim>\<open>error.rs\<close>, \<^verbatim>\<open>ports\<close>): the data.
  \<^item> \<open>Redactor\<close> (\<^verbatim>\<open>core/logs/redactor.rs\<close>), \<open>Api_Client\<close> (\<^verbatim>\<open>core/api\<close>), \<open>Reporter\<close> (\<^verbatim>\<open>core/reporting/runtime.rs\<close>): the way of
    a log line; \<open>Reporter\<close> has the locale \<open>fifo_buffer\<close>, interpreted on its queue, and an interleaving step relation.
  \<^item> \<open>Scheduler\<close>, \<open>Polling\<close> (\<^verbatim>\<open>core/scheduler/poller.rs\<close>), \<open>Dispatcher\<close> and \<open>Processor\<close> (\<^verbatim>\<open>core/commands\<close>): the way of a command.
    \<open>Polling\<close> interleaves the loop with the commands it started over the shared lifecycle cell.
  \<^item> \<open>Heartbeat\<close> (\<^verbatim>\<open>core/heartbeat/worker.rs\<close>, \<^verbatim>\<open>core/health/worker.rs\<close>): the other two workers.
  \<^item> \<open>Runtime_Config\<close>, \<open>Runtime_Process\<close> (\<^verbatim>\<open>runtime/error.rs\<close>, \<^verbatim>\<open>config.rs\<close>, \<^verbatim>\<open>containers/limits.rs\<close>, \<^verbatim>\<open>process\<close>): errors, limits,
    and asynchronous operations with their weakest preconditions; the process runner with its group guard.
  \<^item> \<open>Routing\<close> (\<^verbatim>\<open>runtime/routing\<close>), \<open>Host_Files\<close>, \<open>Containers\<close> (\<^verbatim>\<open>containers/docker.rs\<close>), \<open>Workspace\<close> (\<^verbatim>\<open>workspace/git.rs\<close>),
    \<open>Build_Services\<close> (\<^verbatim>\<open>builders\<close>, \<^verbatim>\<open>railpack\<close>, \<^verbatim>\<open>inspections\<close>, \<^verbatim>\<open>health/docker.rs\<close>), \<open>Telemetry\<close> (\<^verbatim>\<open>telemetry.rs\<close>): the services;
    \<open>Runtime_Services\<close>: their traits as records. \<open>Containers\<close> has the locale \<open>uuid_text\<close>, interpreted on the
    hyphenated form.
  \<^item> \<open>Deployment\<close>, \<open>Lifecycle\<close> (\<^verbatim>\<open>executor/docker.rs\<close>): the executor over arbitrary services; \<open>Admission\<close>: its critical
    section under concurrent deployments; \<open>Runtime_Executor\<close>: the executor with its real services, and the Noop
    executor (\<^verbatim>\<open>executor/noop.rs\<close>); \<open>Serving\<close>: the locales \<open>quiet_services\<close> and \<open>serving_executor\<close>, the contract
    between the executor and its services about traffic, interpreted on the real ones.
  \<^item> \<open>Command_Outcome\<close>: a deployment command from its claim to its terminal report, through the processor, the dispatcher,
    the trait implementation of \<^verbatim>\<open>executor/docker.rs\<close>, the process runner and the reporter of the control plane; the locale
    \<open>committing_executor\<close> adds the commit mark of the reporter to the contract about traffic, and is interpreted on all of them.
    \<open>Lifecycle_Outcome\<close>: the same for restart, stop, sleep, wake and refresh; the locale \<open>lifecycle_executor\<close> adds the lookup
    of a workload and the removal of its route.
  \<^item> \<open>Configuration\<close> (\<^verbatim>\<open>core/config.rs\<close>, \<^verbatim>\<open>apps/sakala-agent/src/config.rs\<close>), \<open>Agent\<close> (\<^verbatim>\<open>apps/sakala-agent/src/app.rs\<close>).

  State is passed explicitly: a Rust struct behind a lock is a record, a step of a lock's critical section one
  definition; a \<^verbatim>\<open>Result\<close> is a sum with the error on the left. An awaited operation returns \<open>Ready\<close> with its result, or
  \<open>Cut\<close> when its future was dropped at an \<^verbatim>\<open>await\<close>, with the world its finished part left. The network, the file system
  and the programs that are run are arbitrary functions of everything done before, so the theorems hold whatever
  they answer and wherever they fail or are dropped.

  \<^bold>\<open>What the lemmas show.\<close> A deployment is reported as completed exactly when the node serves it, whatever the programs,
  the network and the deadline do, up to an activation dropped half-way; a lifecycle command is reported as completed
  only when the route is there, or gone, as it should be. The redactor leaves no known token and no
  assignment to a sensitive key, and panics on one kind of line; well-formed text stays well-formed up to the
  control plane; the reporter delivers in order, within the budget of the command, and everything once it is
  quiet. The scheduler keeps its limits, except for commands started twice; draining is never declared early and
  never overrides a resume. A claimed command gets exactly one terminal report, and a deployment that is committed
  is never reported as failed. A deployment follows its protocol, cleans up, and changes what is served
  in one step or not at all; a route is removed only by its owner, and a cleanup never touches a workload that runs.
  The admission guard holds for deployments, not for waking. The repository token reaches only git; environment
  files are private; labels bring a workload back after a restart. A heartbeat is \<open>ready\<close> exactly under the conditions
  of its code, and never when Docker is down. The agent starts no worker on a host that is not ready.

  \<^bold>\<open>Recursion.\<close> Every definition is total. Loops over data are structural; the scanning loops of the redactor, the retry
  loops and \<open>wait_for_tasks\<close> have a measure (bytes left, attempts left, tasks left). The endless loops of the workers
  are functions of the list of \<^verbatim>\<open>select!\<close> branches taken, or step relations; no fuel is used.

  \<^bold>\<open>Not modelled.\<close> \<^verbatim>\<open>main.rs\<close> and \<^verbatim>\<open>telemetry.rs\<close> of the application and all tracing output (calls into libraries); the serde
  derives, \<^verbatim>\<open>reqwest\<close>, \<^verbatim>\<open>url\<close>, \<^verbatim>\<open>uuid\<close>, \<^verbatim>\<open>clap\<close>, RFC 3339 and float parsing (parameters with their documented behaviour
  where one is needed); the spawning and signalling of processes (parameters of \<open>Runtime_Process\<close>); \<^verbatim>\<open>Debug\<close> formatting. Probes
  joined with \<^verbatim>\<open>tokio::join!\<close> run one after the other. Two operations of one \<^verbatim>\<open>CaddyFileRouteManager\<close> exclude each
  other by its lock and are modelled one at a time.
\<close>

section \<open>Properties that span components\<close>


definition leaves_sites :: "('x route_world, 'a) async \<Rightarrow> bool" where
  "leaves_sites m \<longleftrightarrow> (\<forall>w. reads (snd (m w)) = reads w)"

text \<open>C18: approved cleanup of stale routes never takes down a workload that runs: whatever files lie in the
  sites directory and whatever fails on the way, the route file of every workload that the container
  engine reports as up reads the same after the cleanup. The container engine and Docker are only
  assumed not to write into the sites directory.\<close>

theorem approved_cleanup_keeps_running_routes:
  assumes "dx_routes X = caddy_route_manager E L" "uuid_text_ok E" "crr_targets q = [StaleRoutes]"
    and "leaves_sites (ce_detect_orphans (dx_containers X))"
    and "ce_detect_orphans (dx_containers X) x = (Ready (Inr rep), y)"
    and "m \<in> set (rr_workloads rep)" "starts_with (to_ascii_lowercase (wl_status m)) ''up''"
    and "reads x (route_file E (wl_project_id m)) = Inr c"
        "starts_with c (expected_prefix E (wl_project_id m) (wl_deployment_id m))"
  shows "reads (dw_env (snd (cleanup_runtime X cancelled q (fresh x)))) (route_file E (wl_project_id m)) = Inr c"
proof -
  have "reads y = reads x" using assms(4,5) by (metis leaves_sites_def snd_conv)
  moreover have "\<lparr>rid_project_id = wl_project_id m, rid_deployment_id = Some (wl_deployment_id m)\<rparr> \<in> set (routable_routes rep)"
    using assms(6,7) by (auto simp: routable_routes_def)
  ultimately have keep: "reads (snd (cleanup_stale_routes E L (routable_routes rep) y)) (route_file E (wl_project_id m)) = Inr c"
    using assms(2,8,9) by (intro cleanup_stale_keeps) simp_all
  show ?thesis
  proof (cases "crr_approved q \<and> \<not> cancelled 0")
    case True
    then show ?thesis
      using keep assms(1,3,5)
      by (cases "cleanup_stale_routes E L (routable_routes rep) y" rule: fut_cases)
        (auto simp: cleanup_runtime_def call_def fresh_def logged_def caddy_route_manager_def)
  qed (use assms(3,8) in \<open>auto simp: cleanup_runtime_def fresh_def\<close>)
qed

definition demo_inventory :: RuntimeReconciliationReport where
  "demo_inventory =
     \<lparr>rr_inspected_containers = 1, rr_cleaned_workspaces = 0, rr_reclaimed_image_bytes = 0,
      rr_workloads = [\<lparr>wl_container_id = ''c0ffee'', wl_project_id = 1, wl_deployment_id = 7, wl_status = ''Up 3 days''\<rparr>],
      rr_orphans = [], rr_stale_routes = [], rr_stale_images = [], rr_reattached_log_followers = 0,
      rr_recovered_execution_records = 0, rr_compatibility_issues = []\<rparr>"

definition demo_cleanup :: CleanupRuntimeRequest where
  "demo_cleanup = \<lparr>crr_command_id = 5, crr_approved = True, crr_targets = [StaleRoutes]\<rparr>"

definition cleanup_executor :: "unit route_world docker_executor" where
  "cleanup_executor = (demo_executor By_Caller (caddy_route_manager example_route_env rejecting_caddy))
     \<lparr>dx_containers := demo_engine\<lparr>ce_detect_orphans := aret demo_inventory\<rparr>\<rparr>"

theorem approved_cleanup_keeps_running_routes_witness:
  "reads (dw_env (snd (cleanup_runtime cleanup_executor (\<lambda>_. False) demo_cleanup (fresh example_sites))))
     (route_file example_route_env 1) = Inr (route_content example_route_env (example_route 7))"
proof -
  let ?m = "\<lparr>wl_container_id = ''c0ffee'', wl_project_id = 1, wl_deployment_id = 7, wl_status = ''Up 3 days''\<rparr>"
  have "starts_with (route_content example_route_env (example_route 7)) (expected_prefix example_route_env 1 7)"
    by (simp add: route_content_def example_route_def starts_with_append)
  moreover have "starts_with (to_ascii_lowercase (wl_status ?m)) ''up''" by code_simp
  ultimately show ?thesis
    using approved_cleanup_keeps_running_routes [of cleanup_executor example_route_env rejecting_caddy demo_cleanup example_sites
        demo_inventory example_sites ?m "route_content example_route_env (example_route 7)" "\<lambda>_. False"]
    by (simp add: cleanup_executor_def demo_executor_def demo_cleanup_def leaves_sites_def demo_inventory_def example_file example_uuid_text)
qed

end
